theory Spec2Isabelle
  imports
    Complex_Main
    "HOL-Library.Word"
    "HOL-Library.Multiset"
    "HOL-Library.Char_ord"
    "HOL-Library.List_Lexorder"
    "HOL-Library.Product_Lexorder"
    "HOL-Library.Sublist"
begin

section \<open>Python values used by audience\_api.py\<close>

text \<open>
  The module is Python 2 (\<^verbatim>\<open>except AudienceApiException, e\<close>, \<^verbatim>\<open>xrange\<close>).
  A user identifier is an integer or a byte string. Python 2 orders every integer before
  every string, integers by value and strings byte-wise; \<open>ident_key\<close> maps an identifier
  to a key whose lexicographic order is this order, so that \<^verbatim>\<open>sorted(user_ids)\<close> is
  \<open>sort_key ident_key user_ids\<close>.
\<close>

datatype ident = IntId int | StrId string

fun ident_key :: "ident \<Rightarrow> nat \<times> int \<times> string" where
  "ident_key (IntId n) = (0, n, [])"
| "ident_key (StrId s) = (1, 0, s)"

definition sorted_py :: "ident list \<Rightarrow> ident list" where
  "sorted_py user_ids = sort_key ident_key user_ids"

text \<open>\<^verbatim>\<open>str\<close> on a non-negative integer: its decimal digits, most significant first.\<close>

definition digit_char :: "nat \<Rightarrow> char" where
  "digit_char d = ''0123456789'' ! d"

function str_nat :: "nat \<Rightarrow> string" where
  "str_nat n = (if n < 10 then [digit_char n] else str_nat (n div 10) @ [digit_char (n mod 10)])"
  by pat_completeness auto
termination
  by (relation "measure (\<lambda>n. n)") auto

declare str_nat.simps [simp del]

definition str_int :: "int \<Rightarrow> string" where
  "str_int i = (if i < 0 then CHR ''-'' # str_nat (nat (- i)) else str_nat (nat i))"

fun str :: "ident \<Rightarrow> string" where
  "str (IntId n) = str_int n"
| "str (StrId s) = s"

text \<open>
  A Python 2 number is an \<^verbatim>\<open>int\<close> or a \<^verbatim>\<open>long\<close>; \<^verbatim>\<open>hex\<close> writes \<^verbatim>\<open>0x\<close>, the lowercase
  hexadecimal digits, and the suffix \<^verbatim>\<open>L\<close> for a long.
\<close>

datatype pynum = PyInt int | PyLong int

definition hex_char :: "nat \<Rightarrow> char" where
  "hex_char d = ''0123456789abcdef'' ! d"

function hex_nat :: "nat \<Rightarrow> string" where
  "hex_nat n = (if n < 16 then [hex_char n] else hex_nat (n div 16) @ [hex_char (n mod 16)])"
  by pat_completeness auto
termination
  by (relation "measure (\<lambda>n. n)") auto

declare hex_nat.simps [simp del]

definition hex_int :: "int \<Rightarrow> string" where
  "hex_int i = (if i < 0 then ''-0x'' @ hex_nat (nat (- i)) else ''0x'' @ hex_nat (nat i))"

fun hex :: "pynum \<Rightarrow> string" where
  "hex (PyInt i) = hex_int i"
| "hex (PyLong i) = hex_int i @ ''L''"

section \<open>Exceptions and results\<close>

datatype api_error = CredentialsException | NoSegmentsFoundException
  | AudienceTooSmallException | SegmentDeleteException | SegmentQueryException
  | SegmentCreateException | SegmentPostIdsException | AudiencePostException
  | AudienceInfoException

text \<open>
  An exception is a member of the module's taxonomy (a subclass of
  \<^verbatim>\<open>AudienceApiException\<close>) with its value, or one of the built-in exceptions the code
  can raise (\<open>ReError\<close> is \<^verbatim>\<open>re.error\<close>, raised for a pattern that does not compile). A
  function that raises returns \<open>Inl\<close> of the exception.
\<close>

datatype exn = AudienceApiException api_error string
  | ZeroDivisionError | ValueError | KeyError string | TypeError | UnboundLocalError
  | ReError

text \<open>What a function of the module returns: \<^verbatim>\<open>None\<close> or a string.\<close>

datatype pyval = PyNone | PyStr string

text \<open>What \<^verbatim>\<open>query_users\<close> returns: the parsed results or \<^verbatim>\<open>{'error': str(e)}\<close>.\<close>

datatype query_result = Results string | ErrorDict string

section \<open>The environment of the module\<close>

text \<open>
  What the module imports or reads and does not define is a field of the environment:
  \<^item> \<open>farmhash64\<close> is \<^verbatim>\<open>farmhash.hash64\<close>, an unsigned 64-bit hash of a string;
    \<open>hash_as_long\<close> says whether the binding hands small values over as a Python
    \<^verbatim>\<open>long\<close> (a value above \<^verbatim>\<open>sys.maxint\<close> = \<open>2^63 - 1\<close> always is one);
  \<^item> \<open>slot\<close> is the position of an identifier in the iteration order of a Python set;
  \<^item> \<open>py_repr\<close> is \<^verbatim>\<open>repr\<close> on the text of a response;
  \<^item> \<open>home\<close> is \<^verbatim>\<open>os.getenv('HOME')\<close> and \<open>creds_file\<close> the parsed credentials
    file, \<open>None\<close> when the file does not exist;
  \<^item> \<open>remote\<close> is the audience service behind \<^verbatim>\<open>requests\<close>: the answer to a request in
    a state of the service, and the state after it;
  \<^item> \<open>py_re_search pattern string\<close> is whether \<^verbatim>\<open>re.search(pattern, string)\<close> finds a
    match, or the exception it raises. The module reads it for the patterns whose
    \<open>unique_id\<close> contains a metacharacter of the regular expression language; the
    other patterns are matched by \<open>literal_search\<close> below.
\<close>

datatype yaml = YMap "(string \<times> string) list" | YOther

text \<open>
  A request is its method, its URL and, for a POST, its data: one of the JSON documents
  the module builds (\<^verbatim>\<open>{'name': ...}\<close>, \<^verbatim>\<open>{'user_ids': [...]}\<close>,
  \<^verbatim>\<open>{'name': ..., 'segment_ids': [...]}\<close>) or the groupings of the caller as they are. The
  OAuth1 signature and the JSON header, the same on every request, are left out.
\<close>

datatype body = NoBody | NameBody string | UserIdsBody "string list"
  | AudienceBody string "string list" | RawBody string

datatype http_request = GET string | POST string body

record segment_entry =
  seg_id :: string
  seg_name :: string
  num_user_ids :: nat

record audience_entry =
  aud_id :: string
  aud_name :: string
  segment_ids :: "string list"

text \<open>
  A response: its status code, its text (\<open>resp_text\<close>), and its JSON body read at the
  keys the module uses (\<open>None\<close> when the key is absent); \<open>json_payload\<close> is the body as
  a whole.
\<close>

record response =
  status_code :: int
  resp_text :: string
  json_segments :: "segment_entry list option"
  json_audiences :: "audience_entry list option"
  json_id :: "string option"
  json_payload :: string

record 'w env =
  farmhash64 :: "string \<Rightarrow> 64 word"
  hash_as_long :: bool
  slot :: "ident \<Rightarrow> nat"
  py_repr :: "string \<Rightarrow> string"
  home :: "string option"
  creds_file :: "yaml option"
  remote :: "http_request \<Rightarrow> 'w \<Rightarrow> response \<times> 'w"
  py_re_search :: "string \<Rightarrow> string \<Rightarrow> exn + bool"

section \<open>get\_unique\_id\<close>

definition hash_number :: "'w env \<Rightarrow> string \<Rightarrow> pynum" where
  "hash_number env s =
     (let v = uint (farmhash64 env s)
      in if hash_as_long env \<or> 2 ^ 63 \<le> v then PyLong v else PyInt v)"

definition hashable_str :: "ident list \<Rightarrow> string" where
  "hashable_str user_ids = concat (map str (sorted_py user_ids))"

definition get_unique_id :: "'w env \<Rightarrow> ident list \<Rightarrow> string" where
  "get_unique_id env user_ids = drop 2 (hex (hash_number env (hashable_str user_ids)))"

text \<open>
  The derivation in the words of the specification: convert every identifier to its
  string, sort the strings lexically, concatenate, hash, render.
\<close>

definition spec_hashable_str :: "ident list \<Rightarrow> string" where
  "spec_hashable_str user_ids = concat (sort (map str user_ids))"

definition spec_derive :: "'w env \<Rightarrow> ident list \<Rightarrow> string" where
  "spec_derive env user_ids = drop 2 (hex (hash_number env (spec_hashable_str user_ids)))"

text \<open>
  What the rendering is measured against: the value of a string of lowercase hexadecimal
  digits, most significant first.
\<close>

definition hex_digit_val :: "char \<Rightarrow> nat" where
  "hex_digit_val c = length (takeWhile (\<lambda>x. x \<noteq> c) ''0123456789abcdef'')"

definition hex_value :: "string \<Rightarrow> nat" where
  "hex_value ds = foldl (\<lambda>a c. 16 * a + hex_digit_val c) 0 ds"

definition is_str :: "ident \<Rightarrow> bool" where
  "is_str x = (case x of StrId _ \<Rightarrow> True | IntId _ \<Rightarrow> False)"

section \<open>chunks\<close>

text \<open>
  \<^verbatim>\<open>for i in xrange(0, len(l), n): yield l[i:i+n]\<close>. \<^verbatim>\<open>xrange\<close> raises ValueError for a
  zero step and is empty for a negative one. Both callers iterate the generator to its
  end, so it is modelled by the list of its slices.
\<close>

function chunks_from :: "nat \<Rightarrow> 'a list \<Rightarrow> nat \<Rightarrow> 'a list list" where
  "chunks_from i l n =
     (if 0 < n \<and> i < length l then take n (drop i l) # chunks_from (i + n) l n else [])"
  by pat_completeness auto
termination
  by (relation "measure (\<lambda>(i, l, n). length l - i)") auto

declare chunks_from.simps [simp del]

definition chunks :: "'a list \<Rightarrow> int \<Rightarrow> exn + 'a list list" where
  "chunks l n =
     (if n = 0 then Inl ValueError
      else if n < 0 then Inr []
      else Inr (chunks_from 0 l (nat n)))"

section \<open>get\_authentication\<close>

definition creds_missing :: string where
  "creds_missing = ''Credentials file at $HOME/.audience_api_creds must exists!''"

definition creds_keys :: string where
  "creds_keys = ''Credentials file at $HOME/.audience_api_creds must contain the keys: username, consumer_key, consumer_secret, token, token_secret, url''"

text \<open>
  The credentials are returned as the association list of the file; the OAuth1 object
  built from four of its keys signs every request and is not modelled further. Only
  TypeError and KeyError of that construction are caught, and raised again as
  CredentialsException.
\<close>

definition has_key :: "(string \<times> string) list \<Rightarrow> string \<Rightarrow> bool" where
  "has_key creds k = (map_of creds k \<noteq> None)"

definition get_authentication :: "'w env \<Rightarrow> exn + (string \<times> string) list" where
  "get_authentication env =
     (case home env of
        None \<Rightarrow> Inl TypeError
      | Some h \<Rightarrow>
          (case creds_file env of
             None \<Rightarrow> Inl (AudienceApiException CredentialsException creds_missing)
           | Some YOther \<Rightarrow> Inl (AudienceApiException CredentialsException creds_keys)
           | Some (YMap creds) \<Rightarrow>
               if has_key creds ''consumer_key'' \<and> has_key creds ''consumer_secret''
                  \<and> has_key creds ''token'' \<and> has_key creds ''token_secret''
               then Inr creds
               else Inl (AudienceApiException CredentialsException creds_keys)))"

text \<open>\<^verbatim>\<open>creds['url']\<close>\<close>

definition creds_url :: "(string \<times> string) list \<Rightarrow> exn + string" where
  "creds_url creds = (case map_of creds ''url'' of None \<Rightarrow> Inl (KeyError ''url'') | Some u \<Rightarrow> Inr u)"

section \<open>Requests\<close>

text \<open>
  A session is the state of the service together with the requests sent so far, in
  order. \<^verbatim>\<open>requests.get\<close> and \<^verbatim>\<open>requests.post\<close> ask the service and log the request.
\<close>

record 'w session =
  world :: 'w
  calls :: "http_request list"

definition send :: "'w env \<Rightarrow> http_request \<Rightarrow> 'w session \<Rightarrow> response \<times> 'w session" where
  "send env rq s =
     (let (r, w) = remote env rq (world s) in (r, \<lparr>world = w, calls = calls s @ [rq]\<rparr>))"

definition requests_get :: "'w env \<Rightarrow> string \<Rightarrow> 'w session \<Rightarrow> response \<times> 'w session" where
  "requests_get env url s = send env (GET url) s"

definition requests_post :: "'w env \<Rightarrow> string \<Rightarrow> body \<Rightarrow> 'w session \<Rightarrow> response \<times> 'w session" where
  "requests_post env url data s = send env (POST url data) s"

section \<open>add\_segment\<close>

text \<open>
  \<^verbatim>\<open>list(set(user_ids))\<close>: the distinct identifiers, in the iteration order of the set.
\<close>

definition list_set :: "'w env \<Rightarrow> ident list \<Rightarrow> ident list" where
  "list_set env user_ids = sort_key (slot env) (remdups user_ids)"

text \<open>
  The scan of the listing (lines 81 to 89): \<open>segment_id\<close> starts as \<^verbatim>\<open>None\<close> and is
  assigned at every entry of the searched name; the loop has no \<^verbatim>\<open>break\<close>.
\<close>

fun find_segment_id :: "string \<Rightarrow> segment_entry list \<Rightarrow> string option \<Rightarrow> string option" where
  "find_segment_id segment_name [] segment_id = segment_id"
| "find_segment_id segment_name (existing_segment # rest) segment_id =
     find_segment_id segment_name rest
       (if segment_name = seg_name existing_segment then Some (seg_id existing_segment)
        else segment_id)"

text \<open>
  The upload loop (lines 104 to 112). \<open>segment_post_ids\<close> is the response of the last
  upload, \<open>None\<close> while the variable is unbound.
\<close>

fun post_ids ::
  "'w env \<Rightarrow> string \<Rightarrow> body list \<Rightarrow> response option \<Rightarrow> 'w session
    \<Rightarrow> (exn + response option) \<times> 'w session" where
  "post_ids env url [] segment_post_ids s = (Inr segment_post_ids, s)"
| "post_ids env url (uid_chunk_json_encoded # rest) segment_post_ids s =
     (let (r, s') = requests_post env url uid_chunk_json_encoded s
      in if status_code r > 299
         then (Inl (AudienceApiException SegmentPostIdsException (resp_text r)), s')
         else post_ids env url rest (Some r) s')"

definition add_segment ::
  "'w env \<Rightarrow> ident list \<Rightarrow> string \<Rightarrow> int \<Rightarrow> 'w session \<Rightarrow> (exn + pyval) \<times> 'w session" where
  "add_segment env user_ids segment_name max_upload_size s =
     (case get_authentication env of
        Inl e \<Rightarrow> (Inl e, s)
      | Inr creds \<Rightarrow>
     (case creds_url creds of
        Inl e \<Rightarrow> (Inl e, s)
      | Inr base_url \<Rightarrow>
     (case chunks (list_set env user_ids) max_upload_size of
        Inl e \<Rightarrow> (Inl e, s)
      | Inr user_id_chunks \<Rightarrow>
     (let uids_json_encoded = map (\<lambda>uid_chunk. UserIdsBody (map str uid_chunk)) user_id_chunks;
          (segment_check_response, s1) = requests_get env (base_url @ ''/segments'') s
      in case json_segments segment_check_response of
           None \<Rightarrow>
             (Inl (AudienceApiException SegmentQueryException (resp_text segment_check_response)), s1)
         | Some segments \<Rightarrow>
             (case find_segment_id segment_name segments None of
                Some segment_id \<Rightarrow> (Inr PyNone, s1)
              | None \<Rightarrow>
                  (let (segment_creation_response, s2) =
                         requests_post env (base_url @ ''/segments'') (NameBody segment_name) s1
                   in if status_code segment_creation_response > 299
                      then (Inl (AudienceApiException SegmentCreateException
                                   (resp_text segment_creation_response)), s2)
                      else
                        (case json_id segment_creation_response of
                           None \<Rightarrow> (Inl (KeyError ''id''), s2)
                         | Some segment_id \<Rightarrow>
                             (case post_ids env (base_url @ ''/segments/'' @ segment_id @ ''/ids'')
                                     uids_json_encoded None s2 of
                                (Inl e, s3) \<Rightarrow> (Inl e, s3)
                              | (Inr None, s3) \<Rightarrow> (Inl UnboundLocalError, s3)
                              | (Inr (Some segment_post_ids), s3) \<Rightarrow> (Inr PyNone, s3)))))))))"

section \<open>add\_users\<close>

text \<open>
  \<^verbatim>\<open>int(ceil(a / float(b)))\<close>. Dividing by \<^verbatim>\<open>float(0)\<close> raises ZeroDivisionError. The
  quotient is taken exactly: the floats of the source give the same ceiling for the
  lengths and sizes the code meets (below \<open>2^52\<close>).
\<close>

definition py_ceil_div :: "int \<Rightarrow> int \<Rightarrow> exn + int" where
  "py_ceil_div a b =
     (if b = 0 then Inl ZeroDivisionError else Inr \<lceil>real_of_int a / real_of_int b\<rceil>)"

text \<open>The loop of \<^verbatim>\<open>add_users\<close> over the enumerated chunks; the first exception ends it.\<close>

fun add_segments ::
  "'w env \<Rightarrow> string \<Rightarrow> (nat \<times> ident list) list \<Rightarrow> int \<Rightarrow> 'w session
    \<Rightarrow> (exn + pyval) \<times> 'w session" where
  "add_segments env segment_name_base [] max_upload_size s = (Inr PyNone, s)"
| "add_segments env segment_name_base ((i, user_id_chunk) # rest) max_upload_size s =
     (case add_segment env user_id_chunk (segment_name_base @ ''_'' @ str_nat i) max_upload_size s of
        (Inl e, s') \<Rightarrow> (Inl e, s')
      | (Inr v, s') \<Rightarrow> add_segments env segment_name_base rest max_upload_size s')"

definition add_users ::
  "'w env \<Rightarrow> ident list \<Rightarrow> string \<Rightarrow> int \<Rightarrow> int \<Rightarrow> 'w session \<Rightarrow> (exn + pyval) \<times> 'w session" where
  "add_users env user_ids unique_id max_upload_size max_segment_size s =
     (let segment_name_base = unique_id;
          unique_user_ids = list_set env user_ids;
          num_user_ids = int (length unique_user_ids)
      in case py_ceil_div num_user_ids max_segment_size of
           Inl e \<Rightarrow> (Inl e, s)
         | Inr num_segments \<Rightarrow>
        (case py_ceil_div num_user_ids num_segments of
           Inl e \<Rightarrow> (Inl e, s)
         | Inr size_segments \<Rightarrow>
        (case chunks unique_user_ids size_segments of
           Inl e \<Rightarrow> (Inl e, s)
         | Inr user_id_chunks \<Rightarrow>
             add_segments env segment_name_base (enumerate 0 user_id_chunks) max_upload_size s)))"

section \<open>query\_audience\<close>

text \<open>
  Line 134 formats \<open>unique_id\<close> as it is into the pattern \<^verbatim>\<open>r'{}_\d*$'\<close>, so the
  characters of \<open>unique_id\<close> are read as a regular expression. The metacharacters of
  Python's \<^verbatim>\<open>re\<close> are \<^verbatim>\<open>. ^ $ * + ? { } [ ] | ( )\<close> and the backslash; a \<open>unique_id\<close>
  without any of them is literal text in the pattern.
\<close>

definition metachars :: string where
  "metachars = ''.^$*+?{}[]|()'' @ [CHR 0x5C]"

definition is_literal :: "string \<Rightarrow> bool" where
  "is_literal unique_id = list_all (\<lambda>c. c \<notin> set metachars) unique_id"

text \<open>
  The search for a literal \<open>unique_id\<close>: somewhere in the name stands \<open>unique_id\<close>, an
  underscore and a run of decimal digits that may be empty, up to the end of the name
  or to a single newline that ends it (both are where \<^verbatim>\<open>$\<close> matches).
\<close>

definition is_digit :: "char \<Rightarrow> bool" where
  "is_digit c = (c \<in> set ''0123456789'')"

definition strip_newline :: "string \<Rightarrow> string" where
  "strip_newline name = (if name \<noteq> [] \<and> last name = CHR 0x0A then butlast name else name)"

definition literal_search :: "string \<Rightarrow> string \<Rightarrow> bool" where
  "literal_search unique_id name =
     suffix (unique_id @ ''_'') (rev (dropWhile is_digit (rev (strip_newline name))))"

text \<open>
  \<^verbatim>\<open>re.search(r'{}_\d*$'.format(unique_id), name)\<close> as a truth value, or the exception it
  raises: computed for a literal \<open>unique_id\<close>, and Python's own answer to the formatted
  pattern for any other.
\<close>

definition pattern_of :: "string \<Rightarrow> string" where
  "pattern_of unique_id = unique_id @ ''_'' @ [CHR 0x5C] @ ''d*$''"

definition re_search :: "'w env \<Rightarrow> string \<Rightarrow> string \<Rightarrow> exn + bool" where
  "re_search env unique_id name =
     (if is_literal unique_id then Inr (literal_search unique_id name)
      else py_re_search env (pattern_of unique_id) name)"

text \<open>
  The loop over the listed segments (lines 133 to 136): the ids of the entries whose
  name matches, appended in the order of the listing; an exception of the search leaves
  the loop.
\<close>

fun segment_loop ::
  "'w env \<Rightarrow> string \<Rightarrow> segment_entry list \<Rightarrow> string list \<Rightarrow> exn + string list" where
  "segment_loop env unique_id [] found_ids = Inr found_ids"
| "segment_loop env unique_id (entry # rest) found_ids =
     (case re_search env unique_id (seg_name entry) of
        Inl e \<Rightarrow> Inl e
      | Inr found \<Rightarrow>
          segment_loop env unique_id rest
            (if found then found_ids @ [seg_id entry] else found_ids))"

text \<open>The scan of the audiences (lines 147 to 152), again without \<^verbatim>\<open>break\<close>.\<close>

fun find_audience_id :: "string \<Rightarrow> audience_entry list \<Rightarrow> string option \<Rightarrow> string option" where
  "find_audience_id audience_name [] audience_id = audience_id"
| "find_audience_id audience_name (existing_audience # rest) audience_id =
     find_audience_id audience_name rest
       (if audience_name = aud_name existing_audience then Some (aud_id existing_audience)
        else audience_id)"

definition no_segments_message :: "string \<Rightarrow> string" where
  "no_segments_message audience_name = ''no segments found with base name '' @ audience_name"

definition query_audience ::
  "'w env \<Rightarrow> string \<Rightarrow> string \<Rightarrow> 'w session \<Rightarrow> (exn + string) \<times> 'w session" where
  "query_audience env unique_id groupings s =
     (case get_authentication env of
        Inl e \<Rightarrow> (Inl e, s)
      | Inr creds \<Rightarrow>
     (case creds_url creds of
        Inl e \<Rightarrow> (Inl e, s)
      | Inr base_url \<Rightarrow>
     (let audience_name = unique_id;
          (segment_check_response, s1) = requests_get env (base_url @ ''/segments'') s
      in case json_segments segment_check_response of
           None \<Rightarrow> (Inl (KeyError ''segments''), s1)
         | Some entries \<Rightarrow>
     (case segment_loop env unique_id entries [] of
        Inl e \<Rightarrow> (Inl e, s1)
      | Inr found_ids \<Rightarrow>
     (let segment_ids = found_ids
      in if length segment_ids = 0
         then (Inl (AudienceApiException NoSegmentsFoundException
                      (no_segments_message audience_name)), s1)
         else
     (let (audience_query_response, s2) = requests_get env (base_url @ ''/audiences'') s1
      in case json_audiences audience_query_response of
           None \<Rightarrow> (Inl (KeyError ''audiences''), s2)
         | Some audiences \<Rightarrow>
     (case (case find_audience_id audience_name audiences None of
              Some audience_id \<Rightarrow> (Inr audience_id, s2)
            | None \<Rightarrow>
                (let (audience_post, s3) =
                       requests_post env (base_url @ ''/audiences'')
                         (AudienceBody audience_name segment_ids) s2
                 in if status_code audience_post > 299
                    then (Inl (AudienceApiException AudiencePostException
                                 (resp_text audience_post)), s3)
                    else (case json_id audience_post of
                            None \<Rightarrow> (Inl (KeyError ''id''), s3)
                          | Some audience_id \<Rightarrow> (Inr audience_id, s3)))) of
        (Inl e, s4) \<Rightarrow> (Inl e, s4)
      | (Inr audience_id, s4) \<Rightarrow>
          (let (audience_info, s5) =
                 requests_post env (base_url @ ''/audiences/'' @ audience_id @ ''/query'')
                   (RawBody groupings) s4
           in if status_code audience_info > 299
              then (Inl (AudienceApiException AudienceInfoException (resp_text audience_info)), s5)
              else (Inr (json_payload audience_info), s5)))))))))"

section \<open>query\_users\<close>

text \<open>
  The \<^verbatim>\<open>try\<close> block and its handler: an exception of the taxonomy becomes the dictionary
  \<^verbatim>\<open>{'error': str(e)}\<close>, where \<^verbatim>\<open>str(e)\<close> is \<^verbatim>\<open>repr(e.value)\<close>; any other exception
  leaves the function. \<^verbatim>\<open>add_users\<close> runs with its default sizes.
\<close>

definition query_users ::
  "'w env \<Rightarrow> ident list \<Rightarrow> string \<Rightarrow> 'w session \<Rightarrow> (exn + query_result) \<times> 'w session" where
  "query_users env user_ids groupings s =
     (let unique_id = get_unique_id env user_ids
      in case (case add_users env user_ids unique_id 100000 3000000 s of
                 (Inl e, s1) \<Rightarrow> (Inl e, s1)
               | (Inr v, s1) \<Rightarrow> query_audience env unique_id groupings s1) of
           (Inl (AudienceApiException kind v), s2) \<Rightarrow> (Inr (ErrorDict (py_repr env v)), s2)
         | (Inl e, s2) \<Rightarrow> (Inl e, s2)
         | (Inr results, s2) \<Rightarrow> (Inr (Results results), s2))"

section \<open>Vocabulary of the statements\<close>

text \<open>
  \<open>run_calls\<close> makes the given calls of \<open>add_segment\<close> in order and stops at the first that
  raises. \<open>responses env rqs w\<close> are the answers of the service to the requests \<open>rqs\<close>
  sent in this order from its state \<open>w\<close>, and \<open>world_after env rqs w\<close> is its state
  afterwards.
\<close>

fun run_calls ::
  "'w env \<Rightarrow> (ident list \<times> string) list \<Rightarrow> int \<Rightarrow> 'w session \<Rightarrow> (exn + pyval) \<times> 'w session" where
  "run_calls env [] max_upload_size s = (Inr PyNone, s)"
| "run_calls env ((user_ids, segment_name) # rest) max_upload_size s =
     (case add_segment env user_ids segment_name max_upload_size s of
        (Inl e, s') \<Rightarrow> (Inl e, s')
      | (Inr v, s') \<Rightarrow> run_calls env rest max_upload_size s')"

fun responses :: "'w env \<Rightarrow> http_request list \<Rightarrow> 'w \<Rightarrow> response list" where
  "responses env [] w = []"
| "responses env (rq # rqs) w = fst (remote env rq w) # responses env rqs (snd (remote env rq w))"

fun world_after :: "'w env \<Rightarrow> http_request list \<Rightarrow> 'w \<Rightarrow> 'w" where
  "world_after env [] w = w"
| "world_after env (rq # rqs) w = world_after env rqs (snd (remote env rq w))"

text \<open>
  \<open>listed env u name w\<close>: the listing of the service in state \<open>w\<close> contains a segment of
  this name.
\<close>

definition listed :: "'w env \<Rightarrow> string \<Rightarrow> string \<Rightarrow> 'w \<Rightarrow> bool" where
  "listed env u name w =
     (case json_segments (fst (remote env (GET (u @ ''/segments'')) w)) of
        None \<Rightarrow> False
      | Some segs \<Rightarrow> name \<in> seg_name ` set segs)"

text \<open>
  The selection of segments in the words of the specification: the name ends with
  \<open>unique_id\<close>, an underscore and digits.
\<close>

definition spec_name_match :: "string \<Rightarrow> string \<Rightarrow> bool" where
  "spec_name_match unique_id name =
     (\<exists>d. d \<noteq> [] \<and> list_all is_digit d \<and> suffix (unique_id @ ''_'' @ d) name)"

text \<open>
  The requests of one call of \<open>add_segment\<close> that creates its segment: the listing, the
  creation under the name, and one upload to the new segment per batch. \<open>batches\<close> are the
  bodies of the uploads of a list of identifiers: its distinct members as strings, in
  runs of \<open>max_upload_size\<close>.
\<close>

definition batches :: "'w env \<Rightarrow> ident list \<Rightarrow> int \<Rightarrow> body list" where
  "batches env user_ids max_upload_size =
     (case chunks (list_set env user_ids) max_upload_size of
        Inl e \<Rightarrow> []
      | Inr user_id_chunks \<Rightarrow> map (\<lambda>c. UserIdsBody (map str c)) user_id_chunks)"

fun body_ids :: "body \<Rightarrow> string list" where
  "body_ids (UserIdsBody us) = us"
| "body_ids b = []"

definition segment_requests :: "string \<Rightarrow> string \<Rightarrow> string \<Rightarrow> body list \<Rightarrow> http_request list" where
  "segment_requests u name sid bodies =
     GET (u @ ''/segments'') # POST (u @ ''/segments'') (NameBody name)
       # map (POST (u @ ''/segments/'' @ sid @ ''/ids'')) bodies"

text \<open>
  \<open>created env u name sid bodies w\<close>: from the state \<open>w\<close> the service lists no segment of
  this name, answers the creation with a status up to 299 and the id \<open>sid\<close>, and answers
  every upload with a status up to 299. \<open>all_created\<close> says this of a sequence of segments
  (identifiers, name, id), each from the state the requests of the earlier ones leave,
  and \<open>all_requests\<close> are their requests in order.
\<close>

definition created :: "'w env \<Rightarrow> string \<Rightarrow> string \<Rightarrow> string \<Rightarrow> body list \<Rightarrow> 'w \<Rightarrow> bool" where
  "created env u name sid bodies w =
     (let rs = responses env (segment_requests u name sid bodies) w
      in (case json_segments (rs ! 0) of
            None \<Rightarrow> False
          | Some segs \<Rightarrow> name \<notin> seg_name ` set segs)
         \<and> status_code (rs ! 1) \<le> 299 \<and> json_id (rs ! 1) = Some sid
         \<and> list_all (\<lambda>r. status_code r \<le> 299) (drop 2 rs))"

fun all_created ::
  "'w env \<Rightarrow> string \<Rightarrow> int \<Rightarrow> (ident list \<times> string \<times> string) list \<Rightarrow> 'w \<Rightarrow> bool" where
  "all_created env u max_upload_size [] w = True"
| "all_created env u max_upload_size ((user_ids, name, sid) # rest) w =
     (created env u name sid (batches env user_ids max_upload_size) w
      \<and> all_created env u max_upload_size rest
            (world_after env (segment_requests u name sid (batches env user_ids max_upload_size)) w))"

definition all_requests ::
  "'w env \<Rightarrow> string \<Rightarrow> int \<Rightarrow> (ident list \<times> string \<times> string) list \<Rightarrow> http_request list" where
  "all_requests env u max_upload_size segs =
     concat (map (\<lambda>(user_ids, name, sid).
                    segment_requests u name sid (batches env user_ids max_upload_size)) segs)"

text \<open>The status codes from 200 to 299.\<close>

definition is_2xx :: "int \<Rightarrow> bool" where
  "is_2xx st = (200 \<le> st \<and> st \<le> 299)"

section \<open>A service for the examples\<close>

text \<open>
  The examples run the module against a small service that keeps its segments and
  audiences in lists, gives the \<open>n\<close>-th segment the id \<open>s<n>\<close> and the \<open>n\<close>-th audience the
  id \<open>a<n>\<close>, and answers 500 to the requests that \<open>fails\<close> selects. Its hash is a
  polynomial in the bytes of the string, modulo \<open>2^64\<close>, handed over as a Python
  \<^verbatim>\<open>int\<close> when it fits; its sets iterate in the order of insertion. The names of the
  examples are literal, so that \<open>py_re_search\<close> is never read there.
\<close>

record test_world =
  segments :: "segment_entry list"
  audiences :: "audience_entry list"

definition test_hash64 :: "string \<Rightarrow> 64 word" where
  "test_hash64 s = foldl (\<lambda>h c. 31 * h + of_char c) 7 s"

definition ok_response :: response where
  "ok_response = \<lparr>status_code = 200, resp_text = ''ok'', json_segments = None,
     json_audiences = None, json_id = None, json_payload = ''{}''\<rparr>"

definition error_response :: response where
  "error_response = \<lparr>status_code = 500, resp_text = ''Internal Server Error'',
     json_segments = None, json_audiences = None, json_id = None, json_payload = []\<rparr>"

definition test_url :: string where
  "test_url = ''http://api''"

fun test_post :: "body \<Rightarrow> test_world \<Rightarrow> response \<times> test_world" where
  "test_post (NameBody n) w =
     (let i = ''s'' @ str_nat (length (segments w))
      in (ok_response\<lparr>json_id := Some i\<rparr>,
          w\<lparr>segments := segments w @ [\<lparr>seg_id = i, seg_name = n, num_user_ids = 0\<rparr>]\<rparr>))"
| "test_post (AudienceBody n sids) w =
     (let i = ''a'' @ str_nat (length (audiences w))
      in (ok_response\<lparr>json_id := Some i\<rparr>,
          w\<lparr>audiences := audiences w @ [\<lparr>aud_id = i, aud_name = n, segment_ids = sids\<rparr>]\<rparr>))"
| "test_post (RawBody g) w = (ok_response\<lparr>json_payload := ''results''\<rparr>, w)"
| "test_post b w = (ok_response, w)"

definition test_remote ::
  "(http_request \<Rightarrow> bool) \<Rightarrow> http_request \<Rightarrow> test_world \<Rightarrow> response \<times> test_world" where
  "test_remote fails rq w =
     (if fails rq then (error_response, w)
      else case rq of
        GET url \<Rightarrow>
          (if url = test_url @ ''/segments''
           then (ok_response\<lparr>json_segments := Some (segments w)\<rparr>, w)
           else (ok_response\<lparr>json_audiences := Some (audiences w)\<rparr>, w))
      | POST url b \<Rightarrow> test_post b w)"

definition test_creds :: "(string \<times> string) list" where
  "test_creds = [(''consumer_key'', ''ck''), (''consumer_secret'', ''cs''), (''token'', ''t''),
     (''token_secret'', ''ts''), (''url'', test_url)]"

definition test_env :: "(http_request \<Rightarrow> bool) \<Rightarrow> test_world env" where
  "test_env fails = \<lparr>farmhash64 = test_hash64, hash_as_long = False, slot = (\<lambda>i. 0),
     py_repr = (\<lambda>v. ''u'' @ [CHR 0x27] @ v @ [CHR 0x27]), home = Some ''/home/u'',
     creds_file = Some (YMap test_creds), remote = test_remote fails,
     py_re_search = (\<lambda>pattern name. Inl ReError)\<rparr>"

definition never :: "http_request \<Rightarrow> bool" where
  "never rq = False"

text \<open>Two selections of failing requests: every segment creation, and the upload of one batch.\<close>

fun creation_request :: "http_request \<Rightarrow> bool" where
  "creation_request (POST url (NameBody n)) = True"
| "creation_request rq = False"

fun upload_of :: "string list \<Rightarrow> http_request \<Rightarrow> bool" where
  "upload_of batch (POST url (UserIdsBody us)) = (us = batch)"
| "upload_of batch rq = False"

text \<open>The selection of the audience queries, and an environment without a credentials file.\<close>

fun query_request :: "http_request \<Rightarrow> bool" where
  "query_request (POST url (RawBody g)) = True"
| "query_request rq = False"

definition no_creds_env :: "test_world env" where
  "no_creds_env = (test_env never)\<lparr>creds_file := None\<rparr>"

definition start :: "test_world \<Rightarrow> test_world session" where
  "start w = \<lparr>world = w, calls = []\<rparr>"

definition empty_world :: test_world where
  "empty_world = \<lparr>segments = [], audiences = []\<rparr>"

text \<open>
  The same service answering every segment creation with the status 101 in place of
  200: a status that is not one of 200 to 299 and is not above 299.
\<close>

definition informational_remote :: "http_request \<Rightarrow> test_world \<Rightarrow> response \<times> test_world" where
  "informational_remote rq w =
     (let (r, w') = test_remote never rq w
      in (if creation_request rq then r\<lparr>status_code := 101\<rparr> else r, w'))"

definition informational_env :: "test_world env" where
  "informational_env = (test_env never)\<lparr>remote := informational_remote\<rparr>"

section \<open>Lemmas on chunks\<close>

lemma concat_chunks_from: "0 < n \<Longrightarrow> concat (chunks_from i l n) = drop i l"
proof (induction i l n rule: chunks_from.induct)
  case (1 i l n)
  show ?case
  proof (cases "i < length l")
    case True
    with 1 have "concat (chunks_from i l n) = take n (drop i l) @ drop (i + n) l"
      by (subst chunks_from.simps) simp
    also have "drop (i + n) l = drop n (drop i l)"
      by (simp add: add.commute)
    also have "take n (drop i l) @ drop n (drop i l) = drop i l"
      by (rule append_take_drop_id)
    finally show ?thesis .
  next
    case False
    then show ?thesis by (subst chunks_from.simps) simp
  qed
qed

lemma ceil_step:
  assumes n: "0 < n" and m: "0 < m"
  shows "Suc ((m - n + n - 1) div n) = (m + n - 1) div (n::nat)"
proof (cases "n \<le> m")
  case True
  with m have e: "m + n - 1 = (m - 1) + n" "m - n + n - 1 = m - 1" by simp_all
  show ?thesis unfolding e using n by simp
next
  case False
  then have z: "m - n + n - 1 = n - 1" by simp
  have "(m + n - 1) div n = 1"
    by (rule div_nat_eqI) (use False n m in simp_all)
  moreover have "(n - 1) div n = 0" using n by simp
  ultimately show ?thesis unfolding z by simp
qed

lemma length_chunks_from:
  "0 < n \<Longrightarrow> length (chunks_from i l n) = (length l - i + n - 1) div n"
proof (induction i l n rule: chunks_from.induct)
  case (1 i l n)
  show ?case
  proof (cases "i < length l")
    case True
    with 1 have "length (chunks_from i l n) = Suc ((length l - (i + n) + n - 1) div n)"
      by (subst chunks_from.simps) simp
    also have "length l - (i + n) = (length l - i) - n" by simp
    also have "Suc ((length l - i - n + n - 1) div n) = (length l - i + n - 1) div n"
      by (rule ceil_step) (use True 1(2) in simp_all)
    finally show ?thesis .
  next
    case False
    then have "length l - i + n - 1 < n" using 1(2) by simp
    with False show ?thesis by (subst chunks_from.simps) simp
  qed
qed

lemma nth_chunks_from:
  "0 < n \<Longrightarrow> j < length (chunks_from i l n)
    \<Longrightarrow> chunks_from i l n ! j = take n (drop (i + j * n) l)"
proof (induction i l n arbitrary: j rule: chunks_from.induct)
  case (1 i l n)
  show ?case
  proof (cases "i < length l")
    case True
    then have eq: "chunks_from i l n = take n (drop i l) # chunks_from (i + n) l n"
      using 1(2) by (subst chunks_from.simps) simp
    show ?thesis
    proof (cases j)
      case 0
      then show ?thesis using eq by simp
    next
      case (Suc k)
      with 1(3) eq have "k < length (chunks_from (i + n) l n)" by simp
      with 1(1)[of k] True 1(2)
      have "chunks_from (i + n) l n ! k = take n (drop (i + n + k * n) l)" by simp
      then show ?thesis using eq Suc by (simp add: add.assoc)
    qed
  next
    case False
    then have "chunks_from i l n = []" by (subst chunks_from.simps) simp
    with 1(3) show ?thesis by simp
  qed
qed

lemma ceil_int_pos:
  assumes b: "0 < (b::int)"
  shows "- ((- a) div b) = (a + b - 1) div b"
proof (cases "a mod b = 0")
  case True
  then have "(- a) div b = - (a div b)" using b by (simp add: zdiv_zminus1_eq_if)
  moreover have "(a + b - 1) div b = a div b"
  proof (rule int_div_pos_eq)
    have "b * (a div b) = a - a mod b" by (simp add: minus_mod_eq_mult_div)
    with True have "b * (a div b) = a" by simp
    then show "a + b - 1 = b * (a div b) + (b - 1)" by simp
    show "0 \<le> b - 1" "b - 1 < b" using b by simp_all
  qed
  ultimately show ?thesis by simp
next
  case False
  then have "(- a) div b = - (a div b) - 1" using b by (simp add: zdiv_zminus1_eq_if)
  moreover have "(a + b - 1) div b = a div b + 1"
  proof (rule int_div_pos_eq)
    have "b * (a div b) = a - a mod b" by (simp add: minus_mod_eq_mult_div)
    then show "a + b - 1 = b * (a div b + 1) + (a mod b - 1)" by (simp add: distrib_left)
    have "0 \<le> a mod b" "a mod b < b" using b by simp_all
    with False show "0 \<le> a mod b - 1" "a mod b - 1 < b" by simp_all
  qed
  ultimately show ?thesis by simp
qed

lemma ceil_nat:
  assumes k: "0 < k"
  shows "\<lceil>real n / real k\<rceil> = int ((n + k - 1) div k)"
proof -
  have "\<lceil>real n / real k\<rceil> = \<lceil>real_of_int (int n) / real_of_int (int k)\<rceil>" by simp
  also have "\<dots> = - ((- int n) div int k)" by (rule ceiling_divide_eq_div)
  also have "\<dots> = (int n + int k - 1) div int k" using k by (simp add: ceil_int_pos)
  also have "int n + int k - 1 = int (n + k - 1)" using k by (simp add: of_nat_diff)
  also have "int (n + k - 1) div int k = int ((n + k - 1) div k)" by (simp add: zdiv_int)
  finally show ?thesis .
qed

lemma chunks_pos: "0 < K \<Longrightarrow> chunks l K = Inr (chunks_from 0 l (nat K))"
  by (simp add: chunks_def)

lemma length_chunks_ceil:
  assumes "0 < k"
  shows "int (length (chunks_from 0 l k)) = \<lceil>real (length l) / real k\<rceil>"
  using assms by (simp add: length_chunks_from ceil_nat)

lemma full_slice:
  assumes k: "0 < k" and j: "Suc j < length (chunks_from 0 l k)"
  shows "length (chunks_from 0 l k ! j) = k"
proof -
  have "Suc j < (length l + k - 1) div k" using j k by (simp add: length_chunks_from)
  then have "Suc (Suc j) \<le> (length l + k - 1) div k" by simp
  then have "Suc (Suc j) * k \<le> length l + k - 1"
    using k by (simp add: less_eq_div_iff_mult_less_eq)
  then have "Suc j * k \<le> length l - 1" by simp
  then have "j * k + k \<le> length l" by simp
  moreover have "chunks_from 0 l k ! j = take k (drop (j * k) l)"
    using nth_chunks_from[of k j 0 l] k j by simp
  ultimately show ?thesis by simp
qed

lemma slice_bounds:
  assumes k: "0 < k" and c: "c \<in> set (chunks_from 0 l k)"
  shows "c \<noteq> [] \<and> length c \<le> k"
proof -
  from c obtain j where j: "j < length (chunks_from 0 l k)" and cj: "c = chunks_from 0 l k ! j"
    by (auto simp: in_set_conv_nth)
  have eq: "c = take k (drop (j * k) l)" using nth_chunks_from[of k j 0 l] k j cj by simp
  have "j < (length l + k - 1) div k" using j k by (simp add: length_chunks_from)
  then have "Suc j \<le> (length l + k - 1) div k" by simp
  then have "Suc j * k \<le> length l + k - 1" using k by (simp add: less_eq_div_iff_mult_less_eq)
  then have "j * k < length l" using k by simp
  with eq k show ?thesis by simp
qed

text \<open>
  C3. For every sequence \<open>l\<close> and chunk size \<open>K > 0\<close>, \<open>chunks\<close> returns
  \<open>\<lceil>length l / K\<rceil>\<close> slices; slice \<open>j\<close> is \<open>l[j*K : j*K + K]\<close>, so the slices are
  contiguous; every slice but the last has length \<open>K\<close>, none is empty or longer than \<open>K\<close>;
  their concatenation is \<open>l\<close>; and the empty sequence gives no slice.
\<close>

theorem chunks_contract:
  assumes "0 < K"
  shows "\<exists>cs. chunks l K = Inr cs
    \<and> int (length cs) = \<lceil>real (length l) / real_of_int K\<rceil>
    \<and> (\<forall>j < length cs. cs ! j = take (nat K) (drop (j * nat K) l))
    \<and> (\<forall>j. Suc j < length cs \<longrightarrow> length (cs ! j) = nat K)
    \<and> (\<forall>c \<in> set cs. c \<noteq> [] \<and> length c \<le> nat K)
    \<and> concat cs = l
    \<and> (l = [] \<longrightarrow> cs = [])"
proof -
  define k where "k = nat K"
  with assms have k: "0 < k" and K: "real_of_int K = real k" by simp_all
  let ?cs = "chunks_from 0 l k"
  have "chunks l K = Inr ?cs" using assms by (simp add: chunks_pos k_def)
  moreover have "int (length ?cs) = \<lceil>real (length l) / real_of_int K\<rceil>"
    unfolding K using k by (rule length_chunks_ceil)
  moreover have "\<forall>j < length ?cs. ?cs ! j = take k (drop (j * k) l)"
    using nth_chunks_from[of k _ 0 l] k by simp
  moreover have "\<forall>j. Suc j < length ?cs \<longrightarrow> length (?cs ! j) = k"
    using full_slice[OF k] by blast
  moreover have "\<forall>c \<in> set ?cs. c \<noteq> [] \<and> length c \<le> k"
    using slice_bounds[OF k] by blast
  moreover have "concat ?cs = l" using concat_chunks_from[OF k, of 0 l] by simp
  moreover have "l = [] \<longrightarrow> ?cs = []" by (simp add: chunks_from.simps)
  ultimately show ?thesis unfolding k_def by blast
qed

theorem chunks_contract_witness:
  "(0::int) < 2 \<and> chunks [1, 2, 3, 4, 5 :: nat] 2 = Inr [[1, 2], [3, 4], [5]]
    \<and> \<lceil>real (length [1, 2, 3, 4, 5 :: nat]) / real_of_int 2\<rceil> = 3"
proof -
  have h: "(0::int) < 2" by simp
  from chunks_contract[OF h, of "[1, 2, 3, 4, 5 :: nat]"]
  obtain cs where cs: "chunks [1, 2, 3, 4, 5 :: nat] 2 = Inr cs"
    and n: "int (length cs) = \<lceil>real (length [1, 2, 3, 4, 5 :: nat]) / real_of_int 2\<rceil>"
    and sl: "\<forall>j < length cs. cs ! j = take (nat 2) (drop (j * nat 2) [1, 2, 3, 4, 5 :: nat])"
    by blast
  have c3: "\<lceil>real (length [1, 2, 3, 4, 5 :: nat]) / real_of_int 2\<rceil> = 3"
    by (simp add: ceiling_eq_iff)
  with n have len: "length cs = 3" by simp
  from len obtain a b c where abc: "cs = [a, b, c]"
    by (auto simp: length_Suc_conv numeral_3_eq_3)
  with sl have "a = [1, 2]" "b = [3, 4]" "c = [5]" by (simp_all add: numeral_3_eq_3 less_Suc_eq)
  with abc cs c3 h show ?thesis by simp
qed

section \<open>Lemmas on get\_unique\_id\<close>

lemma inj_ident_key: "ident_key a = ident_key b \<Longrightarrow> a = b"
  by (cases a; cases b) simp_all

lemma filter_key_eq:
  "filter (\<lambda>x. ident_key k = ident_key x) xs = replicate (count (mset xs) k) k"
proof -
  have "(\<lambda>x. ident_key k = ident_key x) = (\<lambda>x. k = x)"
    by (auto dest: inj_ident_key)
  then show ?thesis by (simp add: replicate_count_mset_eq_filter_eq)
qed

lemma sorted_py_mset: "mset xs = mset ys \<Longrightarrow> sorted_py xs = sorted_py ys"
  unfolding sorted_py_def
  by (rule properties_for_sort_key) (simp_all add: filter_key_eq)

lemma sorted_map_transfer:
  "sorted (map f zs)
    \<Longrightarrow> (\<And>x y. x \<in> set zs \<Longrightarrow> y \<in> set zs \<Longrightarrow> f x \<le> f y \<Longrightarrow> g x \<le> g y)
    \<Longrightarrow> sorted (map g zs)"
  by (induction zs) auto

lemma key_le_str:
  "is_str x \<Longrightarrow> is_str y \<Longrightarrow> ident_key x \<le> ident_key y \<Longrightarrow> str x \<le> str y"
  by (cases x; cases y) (simp_all add: is_str_def)

lemma str_sorted_py: "list_all is_str xs \<Longrightarrow> map str (sorted_py xs) = sort (map str xs)"
proof -
  assume a: "list_all is_str xs"
  have "sorted (map ident_key (sorted_py xs))" by (simp add: sorted_py_def)
  then have "sorted (map str (sorted_py xs))"
    by (rule sorted_map_transfer)
      (use a in \<open>auto simp: sorted_py_def list_all_iff intro: key_le_str\<close>)
  moreover have "mset (map str (sorted_py xs)) = mset (map str xs)"
    by (simp add: sorted_py_def)
  ultimately have "sort (map str xs) = map str (sorted_py xs)"
    by (intro properties_for_sort)
  then show ?thesis by simp
qed

lemma hex_char_set: "d < 16 \<Longrightarrow> hex_char d \<in> set ''0123456789abcdef''"
  unfolding hex_char_def by (rule nth_mem) simp

lemma hex_nat_chars: "set (hex_nat n) \<subseteq> set ''0123456789abcdef''"
proof (induction n rule: hex_nat.induct)
  case (1 n)
  show ?case
  proof (cases "n < 16")
    case True
    then show ?thesis using hex_char_set[of n] by (subst hex_nat.simps) simp
  next
    case False
    have "n mod 16 < 16" by simp
    then have "hex_char (n mod 16) \<in> set ''0123456789abcdef''" by (rule hex_char_set)
    with False 1 show ?thesis by (subst hex_nat.simps) simp
  qed
qed

lemma lt16:
  "d < 16 \<Longrightarrow> d = 0 \<or> d = 1 \<or> d = 2 \<or> d = 3 \<or> d = 4 \<or> d = 5 \<or> d = 6 \<or> d = 7 \<or> d = 8
    \<or> d = 9 \<or> d = 10 \<or> d = 11 \<or> d = 12 \<or> d = 13 \<or> d = 14 \<or> d = (15::nat)"
  by arith

lemma hex_digit_val_char: "d < 16 \<Longrightarrow> hex_digit_val (hex_char d) = d"
  by (drule lt16) (elim disjE; simp add: hex_digit_val_def hex_char_def)

lemma hex_char_zero: "d < 16 \<Longrightarrow> hex_char d = CHR ''0'' \<Longrightarrow> d = 0"
  by (drule lt16) (elim disjE; simp add: hex_char_def)

lemma hex_value_hex_nat: "hex_value (hex_nat n) = n"
proof (induction n rule: hex_nat.induct)
  case (1 n)
  show ?case
  proof (cases "n < 16")
    case True
    then show ?thesis by (subst hex_nat.simps) (simp add: hex_value_def hex_digit_val_char)
  next
    case False
    with 1 have "hex_value (hex_nat (n div 16)) = n div 16" by simp
    then have "hex_value (hex_nat (n div 16) @ [hex_char (n mod 16)]) = 16 * (n div 16) + n mod 16"
      by (simp add: hex_value_def hex_digit_val_char)
    with False show ?thesis by (subst hex_nat.simps) simp
  qed
qed

lemma hex_nat_nonempty: "hex_nat n \<noteq> []"
  by (subst hex_nat.simps) simp

lemma hex_nat_no_leading_zero: "hd (hex_nat n) = CHR ''0'' \<Longrightarrow> n = 0"
proof (induction n rule: hex_nat.induct)
  case (1 n)
  show ?case
  proof (cases "n < 16")
    case True
    with 1(2) have "hex_char n = CHR ''0''" by (subst (asm) hex_nat.simps) simp
    with True show ?thesis by (rule hex_char_zero)
  next
    case False
    with 1(2) have "hd (hex_nat (n div 16)) = CHR ''0''"
      by (subst (asm) hex_nat.simps) (simp add: hex_nat_nonempty)
    with 1(1) False have "n div 16 = 0" by simp
    with False show ?thesis by simp
  qed
qed

lemma hex_nat_zero: "hex_nat 0 = ''0''"
  by (simp add: hex_nat.simps hex_char_def)

text \<open>The token is the hexadecimal digits of the hash, and \<open>L\<close> when the hash is a long.\<close>

lemma get_unique_id_digits:
  "get_unique_id env ids =
     hex_nat (unat (farmhash64 env (hashable_str ids)))
       @ (if hash_as_long env \<or> 2 ^ 63 \<le> uint (farmhash64 env (hashable_str ids))
          then ''L'' else [])"
  by (simp add: get_unique_id_def hash_number_def Let_def hex_int_def)

lemma spec_derive_digits:
  "spec_derive env ids =
     hex_nat (unat (farmhash64 env (spec_hashable_str ids)))
       @ (if hash_as_long env \<or> 2 ^ 63 \<le> uint (farmhash64 env (spec_hashable_str ids))
          then ''L'' else [])"
  by (simp add: spec_derive_def hash_number_def Let_def hex_int_def)

lemma test_env_hash [simp]:
  "farmhash64 (test_env f) = test_hash64" "hash_as_long (test_env f) = False"
  by (simp_all add: test_env_def)

lemma hashable_11: "hashable_str [IntId 1, IntId 1] = ''11''"
  by code_simp

lemma hashable_1: "hashable_str [IntId 1] = ''1''"
  by code_simp

lemma hashable_910: "hashable_str [IntId 10, IntId 9] = ''910''"
  by code_simp

lemma spec_hashable_109: "spec_hashable_str [IntId 10, IntId 9] = ''109''"
  by code_simp

lemma token_11: "get_unique_id (test_env f) [IntId 1, IntId 1] = ''2067''"
  by (simp add: get_unique_id_digits hashable_11 test_hash64_def hex_nat.simps hex_char_def)

lemma token_1: "get_unique_id (test_env f) [IntId 1] = ''10a''"
  by (simp add: get_unique_id_digits hashable_1 test_hash64_def hex_nat.simps hex_char_def)

section \<open>C1 and C2: the identity token\<close>

text \<open>
  C1, as the code has it. The claim fails for collections that differ in duplicates:
  \<open>get_unique_id\<close> sorts its argument and does not collapse duplicates, so \<open>[1, 1]\<close> is
  hashed as \<open>11\<close> and \<open>[1]\<close> as \<open>1\<close>.
\<close>

theorem get_unique_id_duplicates_counterexample:
  "set [IntId 1, IntId 1] = set [IntId 1]
    \<and> hashable_str [IntId 1, IntId 1] = ''11''
    \<and> hashable_str [IntId 1] = ''1''
    \<and> get_unique_id (test_env never) [IntId 1, IntId 1] \<noteq> get_unique_id (test_env never) [IntId 1]"
  by (simp add: hashable_11 hashable_1 token_11 token_1)

text \<open>
  C1 (amended). Two collections of identifiers with the same elements, each as often in
  one as in the other, in any order, get the same token; in particular two collections
  without duplicates that have the same elements.
\<close>

theorem get_unique_id_order_independent:
  "(mset S1 = mset S2 \<longrightarrow> get_unique_id env S1 = get_unique_id env S2)
    \<and> (distinct S1 \<and> distinct S2 \<and> set S1 = set S2
        \<longrightarrow> get_unique_id env S1 = get_unique_id env S2)"
proof -
  have m: "get_unique_id env S1 = get_unique_id env S2" if "mset S1 = mset S2"
    using sorted_py_mset[OF that] by (simp add: get_unique_id_def hashable_str_def)
  moreover have "mset S1 = mset S2" if "distinct S1 \<and> distinct S2 \<and> set S1 = set S2"
    using that set_eq_iff_mset_eq_distinct[of S1 S2] by blast
  ultimately show ?thesis by blast
qed

theorem get_unique_id_order_independent_witness:
  "mset [IntId 3, StrId ''b'', IntId 1] = mset [StrId ''b'', IntId 1, IntId 3]
    \<and> distinct [IntId 3, StrId ''b'', IntId 1] \<and> distinct [StrId ''b'', IntId 1, IntId 3]
    \<and> set [IntId 3, StrId ''b'', IntId 1] = set [StrId ''b'', IntId 1, IntId 3]
    \<and> hashable_str [IntId 3, StrId ''b'', IntId 1] = ''13b''
    \<and> get_unique_id (test_env never) [IntId 3, StrId ''b'', IntId 1]
        = get_unique_id (test_env never) [StrId ''b'', IntId 1, IntId 3]"
proof -
  have m: "mset [IntId 3, StrId ''b'', IntId 1] = mset [StrId ''b'', IntId 1, IntId 3]"
    by simp
  have d: "distinct [IntId 3, StrId ''b'', IntId 1]" "distinct [StrId ''b'', IntId 1, IntId 3]"
    by simp_all
  have s: "set [IntId 3, StrId ''b'', IntId 1] = set [StrId ''b'', IntId 1, IntId 3]"
    by auto
  have h: "hashable_str [IntId 3, StrId ''b'', IntId 1] = ''13b''"
    by code_simp
  from get_unique_id_order_independent
    [of "[IntId 3, StrId ''b'', IntId 1]" "[StrId ''b'', IntId 1, IntId 3]" "test_env never"] m
  have "get_unique_id (test_env never) [IntId 3, StrId ''b'', IntId 1]
        = get_unique_id (test_env never) [StrId ''b'', IntId 1, IntId 3]"
    by blast
  with m d s h show ?thesis by blast
qed

text \<open>
  C2, as the code has it. The claim fails for integer identifiers: the code sorts the
  identifiers and converts them afterwards, so \<open>[10, 9]\<close> is hashed as \<open>910\<close>, where
  converting first and sorting the strings gives \<open>109\<close>.
\<close>

theorem get_unique_id_sort_counterexample:
  "hashable_str [IntId 10, IntId 9] = ''910''
    \<and> spec_hashable_str [IntId 10, IntId 9] = ''109''
    \<and> get_unique_id (test_env never) [IntId 10, IntId 9] = ''40ab1''
    \<and> spec_derive (test_env never) [IntId 10, IntId 9] = ''3ec93''
    \<and> get_unique_id (test_env never) [IntId 10, IntId 9]
        \<noteq> spec_derive (test_env never) [IntId 10, IntId 9]"
proof -
  have "get_unique_id (test_env never) [IntId 10, IntId 9] = ''40ab1''"
    by (simp add: get_unique_id_digits hashable_910 test_hash64_def hex_nat.simps hex_char_def)
  moreover have "spec_derive (test_env never) [IntId 10, IntId 9] = ''3ec93''"
    by (simp add: spec_derive_digits spec_hashable_109 test_hash64_def hex_nat.simps hex_char_def)
  ultimately show ?thesis by (simp add: hashable_910 spec_hashable_109)
qed

text \<open>
  C2 (amended). \<open>get_unique_id\<close> sorts the identifiers themselves (integers by value and
  before strings, strings lexically), converts the sorted identifiers to strings,
  concatenates them with no separator, hashes the result and returns the lowercase
  hexadecimal digits of the hash, without \<open>0x\<close> and without leading zeros, followed by
  \<open>L\<close> when the hash is a Python long. For identifiers that are all strings this is the
  derivation of the specification: convert, sort the strings lexically, concatenate,
  hash, render.
\<close>

theorem get_unique_id_derivation:
  "(\<exists>sorted_ids. mset sorted_ids = mset ids \<and> sorted (map ident_key sorted_ids)
       \<and> hashable_str ids = concat (map str sorted_ids))
    \<and> (\<exists>ds. get_unique_id env ids
            = ds @ (if hash_as_long env \<or> 2 ^ 63 \<le> uint (farmhash64 env (hashable_str ids))
                    then ''L'' else [])
         \<and> ds \<noteq> [] \<and> set ds \<subseteq> set ''0123456789abcdef''
         \<and> hex_value ds = unat (farmhash64 env (hashable_str ids))
         \<and> (hd ds = CHR ''0'' \<longrightarrow> ds = ''0''))
    \<and> (list_all is_str ids \<longrightarrow> get_unique_id env ids = spec_derive env ids)"
proof (intro conjI)
  show "\<exists>sorted_ids. mset sorted_ids = mset ids \<and> sorted (map ident_key sorted_ids)
       \<and> hashable_str ids = concat (map str sorted_ids)"
    by (rule exI[of _ "sorted_py ids"]) (simp add: hashable_str_def sorted_py_def)
next
  let ?n = "unat (farmhash64 env (hashable_str ids))"
  have "hd (hex_nat ?n) = CHR ''0'' \<longrightarrow> hex_nat ?n = ''0''"
    using hex_nat_no_leading_zero[of ?n] hex_nat_zero by auto
  then show "\<exists>ds. get_unique_id env ids
            = ds @ (if hash_as_long env \<or> 2 ^ 63 \<le> uint (farmhash64 env (hashable_str ids))
                    then ''L'' else [])
         \<and> ds \<noteq> [] \<and> set ds \<subseteq> set ''0123456789abcdef''
         \<and> hex_value ds = unat (farmhash64 env (hashable_str ids))
         \<and> (hd ds = CHR ''0'' \<longrightarrow> ds = ''0'')"
    using get_unique_id_digits[of env ids] hex_nat_nonempty[of ?n] hex_nat_chars[of ?n]
      hex_value_hex_nat[of ?n]
    by (intro exI[of _ "hex_nat ?n"]) blast
next
  show "list_all is_str ids \<longrightarrow> get_unique_id env ids = spec_derive env ids"
    by (simp add: get_unique_id_def spec_derive_def hashable_str_def spec_hashable_str_def
        str_sorted_py)
qed

theorem get_unique_id_derivation_witness:
  "list_all is_str [StrId ''b10'', StrId ''a9'']
    \<and> hashable_str [StrId ''b10'', StrId ''a9''] = ''a9b10''
    \<and> spec_hashable_str [StrId ''b10'', StrId ''a9''] = ''a9b10''
    \<and> get_unique_id (test_env never) [StrId ''b10'', StrId ''a9'']
        = spec_derive (test_env never) [StrId ''b10'', StrId ''a9'']"
proof -
  have a: "list_all is_str [StrId ''b10'', StrId ''a9'']" by (simp add: is_str_def)
  have h: "hashable_str [StrId ''b10'', StrId ''a9''] = ''a9b10''" by code_simp
  have g: "spec_hashable_str [StrId ''b10'', StrId ''a9''] = ''a9b10''" by code_simp
  from get_unique_id_derivation[of "[StrId ''b10'', StrId ''a9'']" "test_env never"] a
  have "get_unique_id (test_env never) [StrId ''b10'', StrId ''a9'']
        = spec_derive (test_env never) [StrId ''b10'', StrId ''a9'']"
    by blast
  with a h g show ?thesis by blast
qed

section \<open>Lemmas on add\_segment\<close>

lemma send_eq:
  "remote env rq (world s) = (r, w) \<Longrightarrow> send env rq s = (r, \<lparr>world = w, calls = calls s @ [rq]\<rparr>)"
  by (simp add: send_def)

lemma find_segment_id_filter:
  "find_segment_id name segs acc =
     (case filter (\<lambda>e. seg_name e = name) segs of [] \<Rightarrow> acc | m # ms \<Rightarrow> Some (seg_id (last (m # ms))))"
  by (induction segs arbitrary: acc) (auto split: list.splits)

lemma find_audience_id_filter:
  "find_audience_id name auds acc =
     (case filter (\<lambda>e. aud_name e = name) auds of [] \<Rightarrow> acc | m # ms \<Rightarrow> Some (aud_id (last (m # ms))))"
  by (induction auds arbitrary: acc) (auto split: list.splits)

lemma find_segment_id_None:
  "find_segment_id name segs None = None \<longleftrightarrow> name \<notin> seg_name ` set segs"
proof -
  have "filter (\<lambda>e. seg_name e = name) segs = [] \<longleftrightarrow> name \<notin> seg_name ` set segs"
    by (auto simp: filter_empty_conv)
  then show ?thesis by (auto simp: find_segment_id_filter split: list.splits)
qed

lemma chunks_Inr: "n \<noteq> 0 \<Longrightarrow> \<exists>cs. chunks l n = Inr cs"
  by (simp add: chunks_def)

lemma add_segment_found:
  assumes auth: "get_authentication env = Inr creds" "creds_url creds = Inr u"
    and mus: "max_upload_size \<noteq> 0"
    and listing: "remote env (GET (u @ ''/segments'')) (world s) = (r, w)"
      "json_segments r = Some segs"
    and found: "name \<in> seg_name ` set segs"
  shows "add_segment env ids name max_upload_size s
    = (Inr PyNone, \<lparr>world = w, calls = calls s @ [GET (u @ ''/segments'')]\<rparr>)"
proof -
  from mus obtain cs where cs: "chunks (list_set env ids) max_upload_size = Inr cs"
    using chunks_Inr by blast
  from found obtain sid where sid: "find_segment_id name segs None = Some sid"
    using find_segment_id_None[of name segs] by auto
  show ?thesis
    by (simp add: add_segment_def auth cs requests_get_def send_eq[OF listing(1)] listing(2) sid)
qed

lemma add_segment_create_fails:
  assumes auth: "get_authentication env = Inr creds" "creds_url creds = Inr u"
    and mus: "max_upload_size \<noteq> 0"
    and listing: "remote env (GET (u @ ''/segments'')) (world s) = (r, w1)"
      "json_segments r = Some segs"
    and absent: "name \<notin> seg_name ` set segs"
    and creation: "remote env (POST (u @ ''/segments'') (NameBody name)) w1 = (cr, w2)"
      "299 < status_code cr"
  shows "add_segment env ids name max_upload_size s
    = (Inl (AudienceApiException SegmentCreateException (resp_text cr)),
       \<lparr>world = w2,
        calls = calls s @ [GET (u @ ''/segments''), POST (u @ ''/segments'') (NameBody name)]\<rparr>)"
proof -
  from mus obtain cs where cs: "chunks (list_set env ids) max_upload_size = Inr cs"
    using chunks_Inr by blast
  from absent have none: "find_segment_id name segs None = None"
    by (simp add: find_segment_id_None)
  let ?s1 = "\<lparr>world = w1, calls = calls s @ [GET (u @ ''/segments'')]\<rparr>"
  have post: "send env (POST (u @ ''/segments'') (NameBody name)) ?s1
    = (cr, \<lparr>world = w2, calls = calls ?s1 @ [POST (u @ ''/segments'') (NameBody name)]\<rparr>)"
    by (rule send_eq) (simp add: creation(1))
  show ?thesis
    by (simp add: add_segment_def auth cs requests_get_def requests_post_def
        send_eq[OF listing(1)] listing(2) none post creation(2))
qed

lemma post_ids_fails:
  assumes "j < length ds"
    and "299 < status_code (responses env (map (POST url) ds) (world s) ! j)"
    and "\<forall>i<j. status_code (responses env (map (POST url) ds) (world s) ! i) \<le> 299"
  shows "post_ids env url ds prev s
    = (Inl (AudienceApiException SegmentPostIdsException
              (resp_text (responses env (map (POST url) ds) (world s) ! j))),
       \<lparr>world = world_after env (map (POST url) (take (Suc j) ds)) (world s),
        calls = calls s @ map (POST url) (take (Suc j) ds)\<rparr>)"
  using assms
proof (induction ds arbitrary: j prev s)
  case Nil
  then show ?case by simp
next
  case (Cons d ds)
  obtain r w where rw: "remote env (POST url d) (world s) = (r, w)" by fastforce
  let ?s' = "\<lparr>world = w, calls = calls s @ [POST url d]\<rparr>"
  show ?case
  proof (cases j)
    case 0
    with Cons.prems rw show ?thesis
      by (simp add: requests_post_def send_eq[OF rw])
  next
    case (Suc k)
    from Cons.prems(3) Suc rw have ok: "status_code r \<le> 299" by auto
    have k: "k < length ds" using Cons.prems(1) Suc by simp
    have f: "299 < status_code (responses env (map (POST url) ds) (world ?s') ! k)"
      using Cons.prems(2) Suc rw by simp
    have b: "\<forall>i<k. status_code (responses env (map (POST url) ds) (world ?s') ! i) \<le> 299"
    proof (intro allI impI)
      fix i assume "i < k"
      then have "Suc i < j" using Suc by simp
      with Cons.prems(3) have
        "status_code (responses env (map (POST url) (d # ds)) (world s) ! Suc i) \<le> 299"
        by blast
      then show "status_code (responses env (map (POST url) ds) (world ?s') ! i) \<le> 299"
        using rw by simp
    qed
    from Cons.IH[OF k f b, of "Some r"] ok rw Suc show ?thesis
      by (simp add: requests_post_def send_eq[OF rw])
  qed
qed

lemma post_ids_ok:
  assumes "\<forall>i<length ds. status_code (responses env (map (POST url) ds) (world s) ! i) \<le> 299"
    and "ds \<noteq> [] \<or> prev \<noteq> None"
  shows "\<exists>r. post_ids env url ds prev s
    = (Inr (Some r),
       \<lparr>world = world_after env (map (POST url) ds) (world s),
        calls = calls s @ map (POST url) ds\<rparr>)"
  using assms
proof (induction ds arbitrary: prev s)
  case Nil
  then show ?case by auto
next
  case (Cons d ds)
  obtain r w where rw: "remote env (POST url d) (world s) = (r, w)" by fastforce
  let ?s' = "\<lparr>world = w, calls = calls s @ [POST url d]\<rparr>"
  from Cons.prems(1) rw have ok: "status_code r \<le> 299" by auto
  have b: "\<forall>i<length ds. status_code (responses env (map (POST url) ds) (world ?s') ! i) \<le> 299"
  proof (intro allI impI)
    fix i assume "i < length ds"
    then have "Suc i < length (d # ds)" by simp
    with Cons.prems(1) have
      "status_code (responses env (map (POST url) (d # ds)) (world s) ! Suc i) \<le> 299"
      by blast
    then show "status_code (responses env (map (POST url) ds) (world ?s') ! i) \<le> 299"
      using rw by simp
  qed
  from Cons.IH[OF b, of "Some r"] obtain r' where
    "post_ids env url ds (Some r) ?s'
      = (Inr (Some r'), \<lparr>world = world_after env (map (POST url) ds) (world ?s'),
          calls = calls ?s' @ map (POST url) ds\<rparr>)"
    by auto
  with ok rw show ?case
    by (simp add: requests_post_def send_eq[OF rw])
qed

lemma add_segment_upload_fails:
  assumes auth: "get_authentication env = Inr creds" "creds_url creds = Inr u"
    and cs: "chunks (list_set env ids) max_upload_size = Inr cs"
    and listing: "remote env (GET (u @ ''/segments'')) (world s) = (r, w1)"
      "json_segments r = Some segs"
    and absent: "name \<notin> seg_name ` set segs"
    and creation: "remote env (POST (u @ ''/segments'') (NameBody name)) w1 = (cr, w2)"
      "status_code cr \<le> 299" "json_id cr = Some sid"
    and rqs: "rqs = map (POST (u @ ''/segments/'' @ sid @ ''/ids''))
                     (map (\<lambda>c. UserIdsBody (map str c)) cs)"
    and j: "j < length rqs" "299 < status_code (responses env rqs w2 ! j)"
      "\<forall>i<j. status_code (responses env rqs w2 ! i) \<le> 299"
  shows "add_segment env ids name max_upload_size s
    = (Inl (AudienceApiException SegmentPostIdsException (resp_text (responses env rqs w2 ! j))),
       \<lparr>world = world_after env (take (Suc j) rqs) w2,
        calls = calls s @ [GET (u @ ''/segments''), POST (u @ ''/segments'') (NameBody name)]
                  @ take (Suc j) rqs\<rparr>)"
proof -
  from absent have none: "find_segment_id name segs None = None"
    by (simp add: find_segment_id_None)
  let ?s1 = "\<lparr>world = w1, calls = calls s @ [GET (u @ ''/segments'')]\<rparr>"
  let ?s2 = "\<lparr>world = w2, calls = calls ?s1 @ [POST (u @ ''/segments'') (NameBody name)]\<rparr>"
  let ?ds = "map (\<lambda>c. UserIdsBody (map str c)) cs"
  let ?url = "u @ ''/segments/'' @ sid @ ''/ids''"
  have post: "send env (POST (u @ ''/segments'') (NameBody name)) ?s1 = (cr, ?s2)"
    by (rule send_eq) (simp add: creation(1))
  have up: "post_ids env ?url ?ds None ?s2
    = (Inl (AudienceApiException SegmentPostIdsException
              (resp_text (responses env (map (POST ?url) ?ds) (world ?s2) ! j))),
       \<lparr>world = world_after env (map (POST ?url) (take (Suc j) ?ds)) (world ?s2),
        calls = calls ?s2 @ map (POST ?url) (take (Suc j) ?ds)\<rparr>)"
    by (rule post_ids_fails) (use j rqs in simp_all)
  have step: "add_segment env ids name max_upload_size s
    = (case post_ids env ?url ?ds None ?s2 of
         (Inl e, s3) \<Rightarrow> (Inl e, s3)
       | (Inr None, s3) \<Rightarrow> (Inl UnboundLocalError, s3)
       | (Inr (Some segment_post_ids), s3) \<Rightarrow> (Inr PyNone, s3))"
    using creation(2)
    by (simp add: add_segment_def auth cs requests_get_def requests_post_def
        send_eq[OF listing(1)] listing(2) none post creation(3))
  show ?thesis unfolding step up by (simp add: rqs take_map)
qed

section \<open>Lemmas on add\_users\<close>

lemma add_segments_run_calls:
  "add_segments env base ics mus s
    = run_calls env (map (\<lambda>(i, c). (c, base @ ''_'' @ str_nat i)) ics) mus s"
  by (induction ics arbitrary: s) (auto split: prod.splits sum.splits)

lemma cd_le_iff:
  assumes b: "0 < (b::nat)"
  shows "(a + b - 1) div b \<le> c \<longleftrightarrow> a \<le> c * b"
proof -
  have "(a + b - 1) div b \<le> c \<longleftrightarrow> (a + b - 1) div b < Suc c" by auto
  also have "\<dots> \<longleftrightarrow> a + b - 1 < Suc c * b" using b by (simp add: div_less_iff_less_mult)
  also have "\<dots> \<longleftrightarrow> a \<le> c * b" using b by auto
  finally show ?thesis .
qed

lemma rebalance:
  assumes N: "0 < N" and m: "0 < (m::nat)"
  defines "k \<equiv> (N + m - 1) div m"
  defines "sz \<equiv> (N + k - 1) div k"
  shows "0 < k" and "0 < sz" and "(N + sz - 1) div sz = k"
proof -
  have "\<not> k \<le> 0"
  proof
    assume "k \<le> 0"
    then have "N \<le> 0 * m" unfolding k_def using cd_le_iff[OF m, of N 0] by blast
    with N show False by simp
  qed
  then show k: "0 < k" by simp
  have "\<not> sz \<le> 0"
  proof
    assume "sz \<le> 0"
    then have "N \<le> 0 * k" unfolding sz_def using cd_le_iff[OF k, of N 0] by blast
    with N show False by simp
  qed
  then show sz: "0 < sz" by simp
  have Nsk: "N \<le> sz * k" using cd_le_iff[OF k, of N sz] by (simp add: sz_def)
  have Nkm: "N \<le> k * m" using cd_le_iff[OF m, of N k] by (simp add: k_def)
  then have "N \<le> m * k" by (simp add: mult.commute)
  then have szm: "sz \<le> m" unfolding sz_def using cd_le_iff[OF k, of N m] by blast
  have le: "(N + sz - 1) div sz \<le> k"
    using cd_le_iff[OF sz, of N k] Nsk by (simp add: mult.commute)
  have "N \<le> ((N + sz - 1) div sz) * sz" using cd_le_iff[OF sz, of N "(N + sz - 1) div sz"] by simp
  also have "\<dots> \<le> ((N + sz - 1) div sz) * m" using szm by simp
  finally have "k \<le> (N + sz - 1) div sz"
    unfolding k_def using cd_le_iff[OF m, of N "(N + sz - 1) div sz"] by blast
  with le show "(N + sz - 1) div sz = k" by simp
qed

lemma chunks_from_map:
  assumes n: "0 < n"
  shows "chunks_from 0 l n = map (\<lambda>j. take n (drop (j * n) l)) [0..<(length l + n - 1) div n]"
proof (rule nth_equalityI)
  show "length (chunks_from 0 l n)
    = length (map (\<lambda>j. take n (drop (j * n) l)) [0..<(length l + n - 1) div n])"
    using n by (simp add: length_chunks_from)
next
  fix i assume "i < length (chunks_from 0 l n)"
  then show "chunks_from 0 l n ! i
    = map (\<lambda>j. take n (drop (j * n) l)) [0..<(length l + n - 1) div n] ! i"
    using n nth_chunks_from[of n i 0 l] by (simp add: length_chunks_from)
qed

lemma enumerate_map_upt:
  "map (\<lambda>(i, c). g c i) (enumerate 0 (map f [0..<k])) = map (\<lambda>i. g (f i) i) [0..<k]"
  by (rule nth_equalityI) (simp_all add: nth_enumerate_eq)

lemma py_ceil_div_nat:
  assumes "0 < b"
  shows "py_ceil_div (int a) (int b) = Inr (int ((a + b - 1) div b))"
  using assms ceil_nat[OF assms, of a] by (simp add: py_ceil_div_def)

lemma add_users_calls:
  assumes ne: "list_set env user_ids \<noteq> []" and M: "0 < max_segment_size"
    and l: "l = list_set env user_ids"
    and k: "k = (length l + nat max_segment_size - 1) div nat max_segment_size"
    and sz: "sz = (length l + k - 1) div k"
  shows "add_users env user_ids unique_id max_upload_size max_segment_size s
    = run_calls env
        (map (\<lambda>i. (take sz (drop (i * sz) l), unique_id @ ''_'' @ str_nat i)) [0..<k])
        max_upload_size s \<and> 0 < k \<and> 0 < sz"
proof -
  have N: "0 < length l" using ne l by simp
  have m: "0 < nat max_segment_size" using M by simp
  have kpos: "0 < k" unfolding k by (rule rebalance(1)[OF N m])
  have szpos: "0 < sz" unfolding sz k by (rule rebalance(2)[OF N m])
  have cnt: "(length l + sz - 1) div sz = k" unfolding sz k by (rule rebalance(3)[OF N m])
  have "py_ceil_div (int (length l)) (int (nat max_segment_size)) = Inr (int k)"
    unfolding k by (rule py_ceil_div_nat[OF m])
  moreover have "int (nat max_segment_size) = max_segment_size" using M by simp
  ultimately have 1: "py_ceil_div (int (length l)) max_segment_size = Inr (int k)" by simp
  have 2: "py_ceil_div (int (length l)) (int k) = Inr (int sz)"
    unfolding sz by (rule py_ceil_div_nat[OF kpos])
  have 3: "chunks l (int sz) = Inr (chunks_from 0 l sz)" using szpos by (simp add: chunks_def)
  have "add_users env user_ids unique_id max_upload_size max_segment_size s
    = add_segments env unique_id (enumerate 0 (chunks_from 0 l sz)) max_upload_size s"
    unfolding add_users_def Let_def l[symmetric] by (simp only: 1 2 3 sum.case)
  also have "\<dots> = run_calls env
      (map (\<lambda>(i, c). (c, unique_id @ ''_'' @ str_nat i)) (enumerate 0 (chunks_from 0 l sz)))
      max_upload_size s"
    by (rule add_segments_run_calls)
  also have "map (\<lambda>(i, c). (c, unique_id @ ''_'' @ str_nat i)) (enumerate 0 (chunks_from 0 l sz))
    = map (\<lambda>i. (take sz (drop (i * sz) l), unique_id @ ''_'' @ str_nat i)) [0..<k]"
    unfolding chunks_from_map[OF szpos] cnt by (rule enumerate_map_upt)
  finally show ?thesis using kpos szpos by simp
qed

lemma list_set_props: "distinct (list_set env ids)" "set (list_set env ids) = set ids"
  by (simp_all add: list_set_def)

lemma list_set_Nil: "list_set env ids = [] \<longleftrightarrow> ids = []"
  using list_set_props(2)[of env ids] by auto

section \<open>C4: the segments of add\_users\<close>

lemma str_nat_digits: "str_nat 0 = ''0''" "str_nat (Suc 0) = ''1''" "str_nat 2 = ''2''"
  by (simp_all add: str_nat.simps digit_char_def)

lemma five_ids:
  "length (list_set env [IntId 1, IntId 2, IntId 3, IntId 4, IntId 5]) = 5"
proof -
  have "length (list_set env [IntId 1, IntId 2, IntId 3, IntId 4, IntId 5])
    = card (set (list_set env [IntId 1, IntId 2, IntId 3, IntId 4, IntId 5]))"
    by (rule distinct_card[symmetric]) (rule list_set_props(1))
  also have "\<dots> = card (set [IntId 1, IntId 2, IntId 3, IntId 4, IntId 5])"
    by (simp only: list_set_props(2))
  also have "\<dots> = 5" by simp
  finally show ?thesis .
qed

lemma five_ids_calls:
  "\<exists>c0 c1 c2.
      add_users env [IntId 1, IntId 2, IntId 3, IntId 4, IntId 5] unique_id max_upload_size 2 s
        = run_calls env [(c0, unique_id @ ''_0''), (c1, unique_id @ ''_1''), (c2, unique_id @ ''_2'')]
            max_upload_size s
    \<and> length c0 = 2 \<and> length c1 = 2 \<and> length c2 = 1
    \<and> c0 @ c1 @ c2 = list_set env [IntId 1, IntId 2, IntId 3, IntId 4, IntId 5]"
proof -
  let ?ids = "[IntId 1, IntId 2, IntId 3, IntId 4, IntId 5]"
  let ?l = "list_set env ?ids"
  have len: "length ?l = 5" by (rule five_ids)
  then obtain a b c d e where l: "?l = [a, b, c, d, e]"
    by (auto simp: length_Suc_conv eval_nat_numeral)
  have ne: "?l \<noteq> []" using len by auto
  have k: "(3::nat) = (length ?l + nat 2 - 1) div nat 2" by (simp add: len)
  have sz: "(2::nat) = (length ?l + 3 - 1) div 3" by (simp add: len)
  have up: "[0..<3] = [0, 1, 2]" by (simp add: upt_rec)
  from add_users_calls[OF ne _ refl k sz, of unique_id max_upload_size s]
  have "add_users env ?ids unique_id max_upload_size 2 s
    = run_calls env
        (map (\<lambda>i. (take 2 (drop (i * 2) ?l), unique_id @ ''_'' @ str_nat i)) [0..<3])
        max_upload_size s"
    by simp
  then have "add_users env ?ids unique_id max_upload_size 2 s
    = run_calls env [([a, b], unique_id @ ''_0''), ([c, d], unique_id @ ''_1''),
        ([e], unique_id @ ''_2'')] max_upload_size s"
    unfolding up l by (simp add: str_nat_digits del: run_calls.simps)
  with l show ?thesis by (intro exI[of _ "[a, b]"] exI[of _ "[c, d]"] exI[of _ "[e]"]) simp
qed

lemma responses_append:
  "responses env (a @ b) w = responses env a w @ responses env b (world_after env a w)"
  by (induction a arbitrary: w) simp_all

lemma world_after_append:
  "world_after env (a @ b) w = world_after env b (world_after env a w)"
  by (induction a arbitrary: w) simp_all

lemma length_responses [simp]: "length (responses env rqs w) = length rqs"
  by (induction rqs arbitrary: w) simp_all

lemma batches_pos:
  "0 < max_upload_size \<Longrightarrow>
     batches env ids max_upload_size
       = map (\<lambda>c. UserIdsBody (map str c)) (chunks_from 0 (list_set env ids) (nat max_upload_size))"
  by (simp add: batches_def chunks_pos)

lemma batches_nonempty:
  assumes "ids \<noteq> []" and "0 < max_upload_size"
  shows "batches env ids max_upload_size \<noteq> []"
proof -
  have "list_set env ids \<noteq> []" using assms(1) by (simp add: list_set_Nil)
  then have "chunks_from 0 (list_set env ids) (nat max_upload_size) \<noteq> []"
    using assms(2) by (subst chunks_from.simps) simp
  then show ?thesis by (simp add: batches_pos[OF assms(2)])
qed

lemma batches_ids:
  assumes "0 < max_upload_size"
  shows "concat (map body_ids (batches env ids max_upload_size)) = map str (list_set env ids)"
proof -
  let ?cs = "chunks_from 0 (list_set env ids) (nat max_upload_size)"
  have "concat (map body_ids (batches env ids max_upload_size)) = concat (map (map str) ?cs)"
    by (simp add: batches_pos[OF assms] comp_def)
  also have "\<dots> = map str (concat ?cs)" by (simp add: map_concat)
  also have "concat ?cs = list_set env ids"
    using concat_chunks_from[of "nat max_upload_size" 0 "list_set env ids"] assms by simp
  finally show ?thesis .
qed

lemma batches_bounds:
  assumes "0 < max_upload_size" and "b \<in> set (batches env ids max_upload_size)"
  shows "b = UserIdsBody (body_ids b) \<and> body_ids b \<noteq> []
    \<and> int (length (body_ids b)) \<le> max_upload_size"
proof -
  from assms obtain c where c: "c \<in> set (chunks_from 0 (list_set env ids) (nat max_upload_size))"
    and b: "b = UserIdsBody (map str c)"
    by (auto simp: batches_pos)
  from assms(1) have "0 < nat max_upload_size" by simp
  from slice_bounds[OF this c] have "c \<noteq> []" "length c \<le> nat max_upload_size" by simp_all
  with b assms(1) show ?thesis by simp
qed

lemma add_segment_creates:
  assumes auth: "get_authentication env = Inr creds" "creds_url creds = Inr u"
    and mus: "0 < max_upload_size" and ne: "ids \<noteq> []"
    and cr: "created env u name sid (batches env ids max_upload_size) (world s)"
  shows "add_segment env ids name max_upload_size s
    = (Inr PyNone,
       \<lparr>world = world_after env
                  (segment_requests u name sid (batches env ids max_upload_size)) (world s),
        calls = calls s @ segment_requests u name sid (batches env ids max_upload_size)\<rparr>)"
proof -
  let ?cs = "chunks_from 0 (list_set env ids) (nat max_upload_size)"
  let ?ds = "map (\<lambda>c. UserIdsBody (map str c)) ?cs"
  let ?url = "u @ ''/segments/'' @ sid @ ''/ids''"
  have bs: "batches env ids max_upload_size = ?ds" by (rule batches_pos[OF mus])
  have cs: "chunks (list_set env ids) max_upload_size = Inr ?cs" by (rule chunks_pos[OF mus])
  have dne: "?ds \<noteq> []" using batches_nonempty[OF ne mus, of env] unfolding bs .
  obtain r w1 where listing: "remote env (GET (u @ ''/segments'')) (world s) = (r, w1)"
    by fastforce
  obtain cr w2 where creation: "remote env (POST (u @ ''/segments'') (NameBody name)) w1 = (cr, w2)"
    by fastforce
  have rs: "responses env (segment_requests u name sid ?ds) (world s)
    = r # cr # responses env (map (POST ?url) ?ds) w2"
    by (simp add: segment_requests_def listing creation)
  from cr obtain segs where segs: "json_segments r = Some segs" "name \<notin> seg_name ` set segs"
    and ok: "status_code cr \<le> 299" and sid: "json_id cr = Some sid"
    and ups: "list_all (\<lambda>r. status_code r \<le> 299) (responses env (map (POST ?url) ?ds) w2)"
    unfolding created_def bs Let_def rs by (auto split: option.splits)
  from segs(2) have none: "find_segment_id name segs None = None"
    by (simp add: find_segment_id_None)
  let ?s1 = "\<lparr>world = w1, calls = calls s @ [GET (u @ ''/segments'')]\<rparr>"
  let ?s2 = "\<lparr>world = w2, calls = calls ?s1 @ [POST (u @ ''/segments'') (NameBody name)]\<rparr>"
  have post: "send env (POST (u @ ''/segments'') (NameBody name)) ?s1 = (cr, ?s2)"
    by (rule send_eq) (simp add: creation)
  have all: "\<forall>i<length ?ds. status_code (responses env (map (POST ?url) ?ds) (world ?s2) ! i) \<le> 299"
    using ups by (simp add: list_all_length)
  from post_ids_ok[OF all, of None] dne obtain r' where up:
    "post_ids env ?url ?ds None ?s2
      = (Inr (Some r'),
         \<lparr>world = world_after env (map (POST ?url) ?ds) (world ?s2),
          calls = calls ?s2 @ map (POST ?url) ?ds\<rparr>)"
    by blast
  have step: "add_segment env ids name max_upload_size s
    = (case post_ids env ?url ?ds None ?s2 of
         (Inl e, s3) \<Rightarrow> (Inl e, s3)
       | (Inr None, s3) \<Rightarrow> (Inl UnboundLocalError, s3)
       | (Inr (Some segment_post_ids), s3) \<Rightarrow> (Inr PyNone, s3))"
    using ok
    by (simp add: add_segment_def auth cs requests_get_def requests_post_def
        send_eq[OF listing] segs(1) none post sid)
  show ?thesis unfolding step up bs
    by (simp add: segment_requests_def listing creation)
qed

lemma run_calls_created:
  assumes auth: "get_authentication env = Inr creds" "creds_url creds = Inr u"
    and mus: "0 < max_upload_size"
  shows "\<forall>seg \<in> set segs. fst seg \<noteq> [] \<Longrightarrow> all_created env u max_upload_size segs (world s)
    \<Longrightarrow> run_calls env (map (\<lambda>(ids, name, sid). (ids, name)) segs) max_upload_size s
      = (Inr PyNone,
         \<lparr>world = world_after env (all_requests env u max_upload_size segs) (world s),
          calls = calls s @ all_requests env u max_upload_size segs\<rparr>)"
proof (induction segs arbitrary: s)
  case Nil
  show ?case by (simp add: all_requests_def)
next
  case (Cons seg segs)
  obtain ids name sid where seg: "seg = (ids, name, sid)" by (cases seg) auto
  let ?rq = "segment_requests u name sid (batches env ids max_upload_size)"
  let ?s' = "\<lparr>world = world_after env ?rq (world s), calls = calls s @ ?rq\<rparr>"
  from Cons.prems seg have ne: "ids \<noteq> []"
    and c: "created env u name sid (batches env ids max_upload_size) (world s)"
    and rest: "all_created env u max_upload_size segs (world ?s')"
    and nes: "\<forall>seg \<in> set segs. fst seg \<noteq> []"
    by simp_all
  have first: "add_segment env ids name max_upload_size s = (Inr PyNone, ?s')"
    by (rule add_segment_creates[OF auth mus ne c])
  have "run_calls env (map (\<lambda>(ids, name, sid). (ids, name)) (seg # segs)) max_upload_size s
    = run_calls env (map (\<lambda>(ids, name, sid). (ids, name)) segs) max_upload_size ?s'"
    by (simp add: seg first)
  also have "\<dots> = (Inr PyNone,
         \<lparr>world = world_after env (all_requests env u max_upload_size segs) (world ?s'),
          calls = calls ?s' @ all_requests env u max_upload_size segs\<rparr>)"
    by (rule Cons.IH[OF nes rest])
  finally show ?case by (simp add: seg all_requests_def world_after_append)
qed

lemma slices_nonempty:
  assumes N: "0 < length l" and m: "0 < (m::nat)"
    and k: "k = (length l + m - 1) div m" and sz: "sz = (length l + k - 1) div k"
    and i: "i < k"
  shows "take sz (drop (i * sz) l) \<noteq> []"
proof -
  have szpos: "0 < sz" unfolding sz k by (rule rebalance(2)[OF N m])
  have cnt: "(length l + sz - 1) div sz = k" unfolding sz k by (rule rebalance(3)[OF N m])
  have len: "length (chunks_from 0 l sz) = k" using szpos cnt by (simp add: length_chunks_from)
  with i have "chunks_from 0 l sz ! i \<in> set (chunks_from 0 l sz)" by simp
  moreover have "chunks_from 0 l sz ! i = take sz (drop (i * sz) l)"
    using nth_chunks_from[of sz i 0 l] szpos i len by simp
  ultimately show ?thesis using slice_bounds[OF szpos] by metis
qed

lemma py_ceil_div_int: "b \<noteq> 0 \<Longrightarrow> py_ceil_div a b = Inr (- ((- a) div b))"
  by (simp add: py_ceil_div_def ceiling_divide_eq_div)

lemma add_users_nonpositive:
  assumes ne: "user_ids \<noteq> []" and M: "max_segment_size \<le> 0"
  shows "add_users env user_ids unique_id max_upload_size max_segment_size s
    = (if max_segment_size = 0
          \<or> py_ceil_div (int (length (list_set env user_ids))) max_segment_size = Inr 0
       then Inl ZeroDivisionError else Inr PyNone, s)"
proof (cases "max_segment_size = 0")
  case True
  then show ?thesis by (simp add: add_users_def py_ceil_div_def)
next
  case False
  define N where "N = int (length (list_set env user_ids))"
  define q where "q = N div (- max_segment_size)"
  have Npos: "0 < N" using ne by (simp add: N_def list_set_Nil)
  from False M have neg: "0 < - max_segment_size" by simp
  have num: "py_ceil_div N max_segment_size = Inr (- q)"
    using py_ceil_div_int[OF False, of N] div_minus_minus[of N "- max_segment_size"]
    by (simp add: q_def)
  have q0: "0 \<le> q" unfolding q_def using Npos neg by (simp add: pos_imp_zdiv_nonneg_iff)
  have qN: "q \<le> N" unfolding q_def using Npos neg
    by (metis div_by_1 int_one_le_iff_zero_less linorder_not_less order_less_imp_le zdiv_mono2)
  show ?thesis
  proof (cases "q = 0")
    case True
    with num have num0: "py_ceil_div N max_segment_size = Inr 0" by simp
    have z: "py_ceil_div N 0 = Inl ZeroDivisionError" by (simp add: py_ceil_div_def)
    have "add_users env user_ids unique_id max_upload_size max_segment_size s
      = (Inl ZeroDivisionError, s)"
      unfolding add_users_def Let_def N_def[symmetric] by (simp only: num0 z sum.case)
    with num0 show ?thesis by (simp add: N_def)
  next
    case qne: False
    with q0 have qpos: "0 < q" by simp
    have "py_ceil_div N (- q) = Inr (- ((- N) div (- q)))"
      using py_ceil_div_int[of "- q" N] qne by simp
    then have size: "py_ceil_div N (- q) = Inr (- (N div q))" by simp
    have "q div q \<le> N div q" by (rule zdiv_mono1[OF qN qpos])
    then have "1 \<le> N div q" using qpos by simp
    then have sneg: "- (N div q) < 0" by simp
    have ch: "chunks (list_set env user_ids) (- (N div q)) = Inr []"
      using sneg by (simp add: chunks_def)
    have "add_users env user_ids unique_id max_upload_size max_segment_size s = (Inr PyNone, s)"
      unfolding add_users_def Let_def N_def[symmetric]
      by (simp only: num size ch sum.case enumerate_simps add_segments.simps)
    moreover have "py_ceil_div N max_segment_size \<noteq> Inr 0" using num qne by simp
    ultimately show ?thesis using False by (simp add: N_def)
  qed
qed

text \<open>
  C4. For a non-empty collection of identifiers with \<open>N\<close> distinct elements:
  \<^item> for a positive \<open>max_segment_size\<close>, \<open>add_users\<close> computes
    \<open>num_segments = \<lceil>N / max_segment_size\<rceil>\<close> and \<open>size_segments = \<lceil>N / num_segments\<rceil>\<close> and
    calls \<open>add_segment\<close> once for every index \<open>i\<close> from 0 to \<open>num_segments - 1\<close>, in this
    order, with the \<open>i\<close>-th slice of \<open>size_segments\<close> identifiers and the name
    \<open>unique_id_i\<close>. Where the service lists none of these names and answers every
    creation and every upload with a status up to 299 (and \<open>max_upload_size\<close> is
    positive), every segment is created: the requests of \<open>add_users\<close> are, slice after
    slice, the listing read, the creation under the name \<open>unique_id_i\<close> and the uploads
    of the batches of the slice to the id that the creation returned, and \<open>add_users\<close>
    returns \<^verbatim>\<open>None\<close>;
  \<^item> for a \<open>max_segment_size\<close> that is not positive no segment is created: \<open>add_users\<close>
    sends no request; it raises ZeroDivisionError when \<open>max_segment_size\<close> or the number
    of segments computed from it is 0 and returns \<^verbatim>\<open>None\<close> otherwise;
  \<^item> the batches of a slice carry its identifiers as strings, each identifier once and
    in the order of the set, in runs of at most \<open>max_upload_size\<close>, none of them empty;
  \<^item> for the identifiers 1 to 5 and \<open>max_segment_size = 2\<close> these are three calls, with
    the names \<open>unique_id_0\<close>, \<open>unique_id_1\<close>, \<open>unique_id_2\<close> and 2, 2 and 1 identifiers.
\<close>

theorem add_users_segments:
  assumes "user_ids \<noteq> []"
  shows "(0 < max_segment_size \<longrightarrow>
      (\<exists>l N num_segments size_segments.
        l = list_set env user_ids \<and> distinct l \<and> set l = set user_ids \<and> N = length l
      \<and> py_ceil_div (int N) max_segment_size = Inr (int num_segments)
      \<and> int num_segments = \<lceil>real N / real_of_int max_segment_size\<rceil>
      \<and> py_ceil_div (int N) (int num_segments) = Inr (int size_segments)
      \<and> int size_segments = \<lceil>real N / real num_segments\<rceil>
      \<and> add_users env user_ids unique_id max_upload_size max_segment_size s
          = run_calls env
              (map (\<lambda>i. (take size_segments (drop (i * size_segments) l),
                          unique_id @ ''_'' @ str_nat i)) [0..<num_segments])
              max_upload_size s
      \<and> (\<forall>sid. get_authentication env = Inr creds \<and> creds_url creds = Inr u
            \<and> 0 < max_upload_size
            \<and> all_created env u max_upload_size
                (map (\<lambda>i. (take size_segments (drop (i * size_segments) l),
                            unique_id @ ''_'' @ str_nat i, sid i)) [0..<num_segments])
                (world s)
          \<longrightarrow> add_users env user_ids unique_id max_upload_size max_segment_size s
              = (Inr PyNone,
                 \<lparr>world = world_after env
                     (all_requests env u max_upload_size
                        (map (\<lambda>i. (take size_segments (drop (i * size_segments) l),
                                    unique_id @ ''_'' @ str_nat i, sid i)) [0..<num_segments]))
                     (world s),
                  calls = calls s @ all_requests env u max_upload_size
                        (map (\<lambda>i. (take size_segments (drop (i * size_segments) l),
                                    unique_id @ ''_'' @ str_nat i, sid i))
                           [0..<num_segments])\<rparr>))))
    \<and> (max_segment_size \<le> 0 \<longrightarrow>
        add_users env user_ids unique_id max_upload_size max_segment_size s
          = (if max_segment_size = 0
                \<or> py_ceil_div (int (length (list_set env user_ids))) max_segment_size = Inr 0
             then Inl ZeroDivisionError else Inr PyNone, s))
    \<and> (0 < max_upload_size \<longrightarrow>
        concat (map body_ids (batches env ids max_upload_size)) = map str (list_set env ids)
        \<and> distinct (list_set env ids) \<and> set (list_set env ids) = set ids
        \<and> (\<forall>b \<in> set (batches env ids max_upload_size).
              b = UserIdsBody (body_ids b) \<and> body_ids b \<noteq> []
              \<and> int (length (body_ids b)) \<le> max_upload_size))
    \<and> (\<exists>c0 c1 c2.
        add_users env [IntId 1, IntId 2, IntId 3, IntId 4, IntId 5] unique_id max_upload_size 2 s
          = run_calls env
              [(c0, unique_id @ ''_0''), (c1, unique_id @ ''_1''), (c2, unique_id @ ''_2'')]
              max_upload_size s
      \<and> length c0 = 2 \<and> length c1 = 2 \<and> length c2 = 1
      \<and> c0 @ c1 @ c2 = list_set env [IntId 1, IntId 2, IntId 3, IntId 4, IntId 5])"
proof (intro conjI impI ballI)
  assume Mpos: "0 < max_segment_size"
  define l where "l = list_set env user_ids"
  define m where "m = nat max_segment_size"
  define k where "k = (length l + m - 1) div m"
  define sz where "sz = (length l + k - 1) div k"
  have ne: "list_set env user_ids \<noteq> []" using assms(1) by (simp add: list_set_Nil)
  then have N: "0 < length l" by (simp add: l_def)
  have m: "0 < m" and M: "real_of_int max_segment_size = real m" "int m = max_segment_size"
    using Mpos by (simp_all add: m_def)
  from add_users_calls[OF ne Mpos l_def k_def[unfolded m_def] sz_def,
      of unique_id max_upload_size s]
  have run: "add_users env user_ids unique_id max_upload_size max_segment_size s
    = run_calls env (map (\<lambda>i. (take sz (drop (i * sz) l), unique_id @ ''_'' @ str_nat i)) [0..<k])
        max_upload_size s"
    and k: "0 < k" and sz: "0 < sz"
    by simp_all
  have c1: "py_ceil_div (int (length l)) max_segment_size = Inr (int k)"
    using py_ceil_div_nat[OF m, of "length l"] by (simp add: k_def M(2))
  have r1: "int k = \<lceil>real (length l) / real_of_int max_segment_size\<rceil>"
    unfolding M(1) k_def by (rule ceil_nat[OF m, symmetric])
  have c2: "py_ceil_div (int (length l)) (int k) = Inr (int sz)"
    unfolding sz_def by (rule py_ceil_div_nat[OF k])
  have r2: "int sz = \<lceil>real (length l) / real k\<rceil>"
    unfolding sz_def by (rule ceil_nat[OF k, symmetric])
  have dist: "distinct l" and setl: "set l = set user_ids"
    unfolding l_def by (rule list_set_props)+
  have up: "\<forall>sid. get_authentication env = Inr creds \<and> creds_url creds = Inr u
            \<and> 0 < max_upload_size
            \<and> all_created env u max_upload_size
                (map (\<lambda>i. (take sz (drop (i * sz) l), unique_id @ ''_'' @ str_nat i, sid i))
                   [0..<k])
                (world s)
          \<longrightarrow> add_users env user_ids unique_id max_upload_size max_segment_size s
              = (Inr PyNone,
                 \<lparr>world = world_after env
                     (all_requests env u max_upload_size
                        (map (\<lambda>i. (take sz (drop (i * sz) l),
                                    unique_id @ ''_'' @ str_nat i, sid i)) [0..<k]))
                     (world s),
                  calls = calls s @ all_requests env u max_upload_size
                        (map (\<lambda>i. (take sz (drop (i * sz) l),
                                    unique_id @ ''_'' @ str_nat i, sid i)) [0..<k])\<rparr>)"
  proof (intro allI impI)
    fix sid :: "nat \<Rightarrow> string"
    let ?segs = "map (\<lambda>i. (take sz (drop (i * sz) l), unique_id @ ''_'' @ str_nat i, sid i))
                   [0..<k]"
    assume a: "get_authentication env = Inr creds \<and> creds_url creds = Inr u
            \<and> 0 < max_upload_size \<and> all_created env u max_upload_size ?segs (world s)"
    then have auth: "get_authentication env = Inr creds" "creds_url creds = Inr u"
      and mus: "0 < max_upload_size"
      and cr: "all_created env u max_upload_size ?segs (world s)"
      by blast+
    have nes: "\<forall>seg \<in> set ?segs. fst seg \<noteq> []"
      using slices_nonempty[OF N m k_def sz_def] by auto
    have proj: "map (\<lambda>i. (take sz (drop (i * sz) l), unique_id @ ''_'' @ str_nat i)) [0..<k]
      = map (\<lambda>(ids, name, sid). (ids, name)) ?segs"
      by simp
    show "add_users env user_ids unique_id max_upload_size max_segment_size s
              = (Inr PyNone,
                 \<lparr>world = world_after env (all_requests env u max_upload_size ?segs) (world s),
                  calls = calls s @ all_requests env u max_upload_size ?segs\<rparr>)"
      unfolding run proj by (rule run_calls_created[OF auth mus nes cr])
  qed
  show "\<exists>l N num_segments size_segments.
        l = list_set env user_ids \<and> distinct l \<and> set l = set user_ids \<and> N = length l
      \<and> py_ceil_div (int N) max_segment_size = Inr (int num_segments)
      \<and> int num_segments = \<lceil>real N / real_of_int max_segment_size\<rceil>
      \<and> py_ceil_div (int N) (int num_segments) = Inr (int size_segments)
      \<and> int size_segments = \<lceil>real N / real num_segments\<rceil>
      \<and> add_users env user_ids unique_id max_upload_size max_segment_size s
          = run_calls env
              (map (\<lambda>i. (take size_segments (drop (i * size_segments) l),
                          unique_id @ ''_'' @ str_nat i)) [0..<num_segments])
              max_upload_size s
      \<and> (\<forall>sid. get_authentication env = Inr creds \<and> creds_url creds = Inr u
            \<and> 0 < max_upload_size
            \<and> all_created env u max_upload_size
                (map (\<lambda>i. (take size_segments (drop (i * size_segments) l),
                            unique_id @ ''_'' @ str_nat i, sid i)) [0..<num_segments])
                (world s)
          \<longrightarrow> add_users env user_ids unique_id max_upload_size max_segment_size s
              = (Inr PyNone,
                 \<lparr>world = world_after env
                     (all_requests env u max_upload_size
                        (map (\<lambda>i. (take size_segments (drop (i * size_segments) l),
                                    unique_id @ ''_'' @ str_nat i, sid i)) [0..<num_segments]))
                     (world s),
                  calls = calls s @ all_requests env u max_upload_size
                        (map (\<lambda>i. (take size_segments (drop (i * size_segments) l),
                                    unique_id @ ''_'' @ str_nat i, sid i))
                           [0..<num_segments])\<rparr>))"
    by (intro exI[of _ l] exI[of _ "length l"] exI[of _ k] exI[of _ sz] conjI
        l_def dist setl refl c1 r1 c2 r2 run up)
next
  assume "max_segment_size \<le> 0"
  with assms show "add_users env user_ids unique_id max_upload_size max_segment_size s
          = (if max_segment_size = 0
                \<or> py_ceil_div (int (length (list_set env user_ids))) max_segment_size = Inr 0
             then Inl ZeroDivisionError else Inr PyNone, s)"
    by (rule add_users_nonpositive)
next
  assume "0 < max_upload_size"
  then show "concat (map body_ids (batches env ids max_upload_size))
      = map str (list_set env ids)"
    by (rule batches_ids)
next
  show "distinct (list_set env ids)" by (rule list_set_props)
next
  show "set (list_set env ids) = set ids" by (rule list_set_props)
next
  fix b assume "0 < max_upload_size" "b \<in> set (batches env ids max_upload_size)"
  then have *: "b = UserIdsBody (body_ids b) \<and> body_ids b \<noteq> []
      \<and> int (length (body_ids b)) \<le> max_upload_size"
    by (rule batches_bounds)
  from * show "b = UserIdsBody (body_ids b)" by blast
  from * show "body_ids b \<noteq> []" by blast
  from * show "int (length (body_ids b)) \<le> max_upload_size" by blast
next
  show "\<exists>c0 c1 c2.
        add_users env [IntId 1, IntId 2, IntId 3, IntId 4, IntId 5] unique_id max_upload_size 2 s
          = run_calls env
              [(c0, unique_id @ ''_0''), (c1, unique_id @ ''_1''), (c2, unique_id @ ''_2'')]
              max_upload_size s
      \<and> length c0 = 2 \<and> length c1 = 2 \<and> length c2 = 1
      \<and> c0 @ c1 @ c2 = list_set env [IntId 1, IntId 2, IntId 3, IntId 4, IntId 5]"
    by (rule five_ids_calls)
qed

section \<open>The example service\<close>

lemma test_auth: "get_authentication (test_env f) = Inr test_creds"
  by (simp add: get_authentication_def test_env_def test_creds_def has_key_def)

lemma test_url_creds: "creds_url test_creds = Inr test_url"
  by (simp add: creds_url_def test_creds_def)

lemma sort_key_const: "sort_key (\<lambda>i. 0::nat) xs = xs"
  by (induction xs) (simp_all add: insort_is_Cons)

lemma list_set_test: "list_set (test_env f) ids = remdups ids"
  by (simp add: list_set_def test_env_def sort_key_const)

lemma remote_test: "remote (test_env f) = test_remote f"
  by (simp add: test_env_def)

lemmas test_simps = test_auth test_url_creds list_set_test remote_test
  add_segment_def requests_get_def requests_post_def send_def
  chunks_def chunks_from.simps test_remote_def never_def test_url_def
  ok_response_def error_response_def str_nat.simps digit_char_def str_int_def Let_def

lemma test_first_call:
  "add_users (test_env never) [IntId 1, IntId 2, IntId 3, IntId 4, IntId 5] ''tok'' 100000 2
     (start empty_world)
   = (Inr PyNone,
      \<lparr>world = \<lparr>segments =
          [\<lparr>seg_id = ''s0'', seg_name = ''tok_0'', num_user_ids = 0\<rparr>,
           \<lparr>seg_id = ''s1'', seg_name = ''tok_1'', num_user_ids = 0\<rparr>,
           \<lparr>seg_id = ''s2'', seg_name = ''tok_2'', num_user_ids = 0\<rparr>],
          audiences = []\<rparr>,
       calls =
         [GET ''http://api/segments'',
          POST ''http://api/segments'' (NameBody ''tok_0''),
          POST ''http://api/segments/s0/ids'' (UserIdsBody [''1'', ''2'']),
          GET ''http://api/segments'',
          POST ''http://api/segments'' (NameBody ''tok_1''),
          POST ''http://api/segments/s1/ids'' (UserIdsBody [''3'', ''4'']),
          GET ''http://api/segments'',
          POST ''http://api/segments'' (NameBody ''tok_2''),
          POST ''http://api/segments/s2/ids'' (UserIdsBody [''5''])]\<rparr>)"
  by (simp add: add_users_def py_ceil_div_def ceiling_divide_eq_div_numeral enumerate_eq_zip upt_rec
      test_simps start_def empty_world_def)


theorem add_users_segments_witness:
  "[IntId 1, IntId 2, IntId 3, IntId 4, IntId 5] \<noteq> [] \<and> (0::int) < 2
    \<and> py_ceil_div 5 2 = Inr 3 \<and> py_ceil_div 5 3 = Inr 2
    \<and> add_users (test_env never) [IntId 1, IntId 2, IntId 3, IntId 4, IntId 5] ''tok'' 100000 2
          (start empty_world)
        = run_calls (test_env never)
            [([IntId 1, IntId 2], ''tok_0''), ([IntId 3, IntId 4], ''tok_1''), ([IntId 5], ''tok_2'')]
            100000 (start empty_world)
    \<and> get_authentication (test_env never) = Inr test_creds
    \<and> creds_url test_creds = Inr test_url \<and> (0::int) < 100000
    \<and> all_created (test_env never) test_url 100000
         [([IntId 1, IntId 2], ''tok_0'', ''s0''), ([IntId 3, IntId 4], ''tok_1'', ''s1''),
          ([IntId 5], ''tok_2'', ''s2'')] empty_world
    \<and> add_users (test_env never) [IntId 1, IntId 2, IntId 3, IntId 4, IntId 5] ''tok'' 100000 2
          (start empty_world)
        = (Inr PyNone,
           \<lparr>world = \<lparr>segments =
               [\<lparr>seg_id = ''s0'', seg_name = ''tok_0'', num_user_ids = 0\<rparr>,
                \<lparr>seg_id = ''s1'', seg_name = ''tok_1'', num_user_ids = 0\<rparr>,
                \<lparr>seg_id = ''s2'', seg_name = ''tok_2'', num_user_ids = 0\<rparr>],
               audiences = []\<rparr>,
            calls =
              [GET ''http://api/segments'',
               POST ''http://api/segments'' (NameBody ''tok_0''),
               POST ''http://api/segments/s0/ids'' (UserIdsBody [''1'', ''2'']),
               GET ''http://api/segments'',
               POST ''http://api/segments'' (NameBody ''tok_1''),
               POST ''http://api/segments/s1/ids'' (UserIdsBody [''3'', ''4'']),
               GET ''http://api/segments'',
               POST ''http://api/segments'' (NameBody ''tok_2''),
               POST ''http://api/segments/s2/ids'' (UserIdsBody [''5''])]\<rparr>)
    \<and> add_users (test_env never) [IntId 1, IntId 2, IntId 3, IntId 4, IntId 5] ''tok'' 100000
          (- 2) (start empty_world)
        = (Inr PyNone, start empty_world)
    \<and> batches (test_env never) [IntId 1, IntId 2, IntId 3, IntId 4, IntId 5] 2
        = [UserIdsBody [''1'', ''2''], UserIdsBody [''3'', ''4''], UserIdsBody [''5'']]"
proof -
  let ?ids = "[IntId 1, IntId 2, IntId 3, IntId 4, IntId 5]"
  let ?env = "test_env never"
  let ?segs = "[([IntId 1, IntId 2], ''tok_0'', ''s0''), ([IntId 3, IntId 4], ''tok_1'', ''s1''),
          ([IntId 5], ''tok_2'', ''s2'')]"
  have h1: "?ids \<noteq> []" and h2: "(0::int) < 2" and h3: "(0::int) < 100000" by simp_all
  note main = add_users_segments[OF h1, where env = ?env and unique_id = "''tok''"
      and max_upload_size = 100000 and s = "start empty_world" and creds = test_creds
      and u = test_url]
  from main[where max_segment_size = 2, THEN conjunct1, rule_format, OF h2]
  obtain l N k sz where l: "l = list_set ?env ?ids" and N: "N = length l"
    and c1: "py_ceil_div (int N) 2 = Inr (int k)"
    and c2: "py_ceil_div (int N) (int k) = Inr (int sz)"
    and run: "add_users ?env ?ids ''tok'' 100000 2 (start empty_world)
      = run_calls ?env
          (map (\<lambda>i. (take sz (drop (i * sz) l), ''tok'' @ ''_'' @ str_nat i)) [0..<k])
          100000 (start empty_world)"
    and up: "\<forall>sid. get_authentication ?env = Inr test_creds \<and> creds_url test_creds = Inr test_url
            \<and> (0::int) < 100000
            \<and> all_created ?env test_url 100000
                (map (\<lambda>i. (take sz (drop (i * sz) l), ''tok'' @ ''_'' @ str_nat i, sid i)) [0..<k])
                (world (start empty_world))
          \<longrightarrow> add_users ?env ?ids ''tok'' 100000 2 (start empty_world)
              = (Inr PyNone,
                 \<lparr>world = world_after ?env
                     (all_requests ?env test_url 100000
                        (map (\<lambda>i. (take sz (drop (i * sz) l), ''tok'' @ ''_'' @ str_nat i, sid i))
                           [0..<k]))
                     (world (start empty_world)),
                  calls = calls (start empty_world) @ all_requests ?env test_url 100000
                        (map (\<lambda>i. (take sz (drop (i * sz) l), ''tok'' @ ''_'' @ str_nat i, sid i))
                           [0..<k])\<rparr>)"
    by blast
  have l5: "l = ?ids" using l by (simp add: list_set_test)
  then have N5: "N = 5" using N by simp
  have e1: "py_ceil_div 5 2 = Inr 3" and e2: "py_ceil_div 5 3 = Inr 2"
    by (simp_all add: py_ceil_div_def ceiling_divide_eq_div_numeral)
  from c1 e1 N5 have k3: "k = 3" by simp
  from c2 e2 N5 k3 have sz2: "sz = 2" by simp
  have "map (\<lambda>i. (take sz (drop (i * sz) l), ''tok'' @ ''_'' @ str_nat i)) [0..<k]
    = [([IntId 1, IntId 2], ''tok_0''), ([IntId 3, IntId 4], ''tok_1''), ([IntId 5], ''tok_2'')]"
    unfolding k3 sz2 l5 by (simp add: upt_rec str_nat.simps digit_char_def)
  with run have A: "add_users ?env ?ids ''tok'' 100000 2 (start empty_world)
      = run_calls ?env
          [([IntId 1, IntId 2], ''tok_0''), ([IntId 3, IntId 4], ''tok_1''), ([IntId 5], ''tok_2'')]
          100000 (start empty_world)"
    by simp
  have segs: "map (\<lambda>i. (take sz (drop (i * sz) l), ''tok'' @ ''_'' @ str_nat i,
                         ''s'' @ str_nat i)) [0..<k] = ?segs"
    unfolding k3 sz2 l5 by (simp add: upt_rec str_nat.simps digit_char_def)
  have b12: "batches ?env [IntId 1, IntId 2] 100000 = [UserIdsBody [''1'', ''2'']]"
    and b34: "batches ?env [IntId 3, IntId 4] 100000 = [UserIdsBody [''3'', ''4'']]"
    and b5: "batches ?env [IntId 5] 100000 = [UserIdsBody [''5'']]"
    by (simp_all add: batches_def test_simps)
  have cr: "all_created ?env test_url 100000 ?segs empty_world"
    by (simp add: b12 b34 b5 created_def segment_requests_def remote_test test_remote_def
        never_def test_url_def ok_response_def str_nat.simps digit_char_def Let_def
        empty_world_def)
  have cr': "all_created ?env test_url 100000 ?segs (world (start empty_world))"
    using cr by (simp add: start_def)
  note full = up[rule_format, of "\<lambda>i. ''s'' @ str_nat i", unfolded segs]
  have "add_users ?env ?ids ''tok'' 100000 2 (start empty_world)
      = (Inr PyNone,
         \<lparr>world = world_after ?env (all_requests ?env test_url 100000 ?segs)
                    (world (start empty_world)),
          calls = calls (start empty_world) @ all_requests ?env test_url 100000 ?segs\<rparr>)"
    by (rule full) (intro conjI test_auth test_url_creds h3 cr')
  then have B: "add_users ?env ?ids ''tok'' 100000 2 (start empty_world)
        = (Inr PyNone,
           \<lparr>world = \<lparr>segments =
               [\<lparr>seg_id = ''s0'', seg_name = ''tok_0'', num_user_ids = 0\<rparr>,
                \<lparr>seg_id = ''s1'', seg_name = ''tok_1'', num_user_ids = 0\<rparr>,
                \<lparr>seg_id = ''s2'', seg_name = ''tok_2'', num_user_ids = 0\<rparr>],
               audiences = []\<rparr>,
            calls =
              [GET ''http://api/segments'',
               POST ''http://api/segments'' (NameBody ''tok_0''),
               POST ''http://api/segments/s0/ids'' (UserIdsBody [''1'', ''2'']),
               GET ''http://api/segments'',
               POST ''http://api/segments'' (NameBody ''tok_1''),
               POST ''http://api/segments/s1/ids'' (UserIdsBody [''3'', ''4'']),
               GET ''http://api/segments'',
               POST ''http://api/segments'' (NameBody ''tok_2''),
               POST ''http://api/segments/s2/ids'' (UserIdsBody [''5''])]\<rparr>)"
    by (simp add: all_requests_def b12 b34 b5 segment_requests_def remote_test test_remote_def
        never_def test_url_def ok_response_def str_nat.simps digit_char_def Let_def
        empty_world_def start_def)
  have neg: "(- 2 :: int) \<le> 0" by simp
  have q: "py_ceil_div (int (length (list_set ?env ?ids))) (- 2) = Inr (- 2)"
    by (simp add: list_set_test py_ceil_div_int)
  from main[where max_segment_size = "- 2", THEN conjunct2, THEN conjunct1, rule_format, OF neg]
  have C: "add_users ?env ?ids ''tok'' 100000 (- 2) (start empty_world)
      = (Inr PyNone, start empty_world)"
    unfolding q by simp
  have D: "batches ?env ?ids 2
      = [UserIdsBody [''1'', ''2''], UserIdsBody [''3'', ''4''], UserIdsBody [''5'']]"
    by (simp add: batches_def test_simps)
  from h1 h2 h3 e1 e2 A cr B C D test_auth[of never] test_url_creds show ?thesis by blast
qed

section \<open>C5: an existing segment is not created again\<close>

lemma add_segment_listed:
  assumes auth: "get_authentication env = Inr creds" "creds_url creds = Inr u"
    and mus: "max_upload_size \<noteq> 0"
    and listed: "listed env u name (world s)"
  shows "add_segment env ids name max_upload_size s
    = (Inr PyNone,
       \<lparr>world = snd (remote env (GET (u @ ''/segments'')) (world s)),
        calls = calls s @ [GET (u @ ''/segments'')]\<rparr>)"
proof -
  obtain r w where rw: "remote env (GET (u @ ''/segments'')) (world s) = (r, w)" by fastforce
  with listed obtain segs where "json_segments r = Some segs" "name \<in> seg_name ` set segs"
    by (auto simp: listed_def split: option.splits)
  from add_segment_found[OF auth mus rw this] rw show ?thesis by simp
qed

lemma run_calls_listed:
  assumes auth: "get_authentication env = Inr creds" "creds_url creds = Inr u"
    and mus: "max_upload_size \<noteq> 0"
    and listed: "\<forall>i<length pcs.
      listed env u (snd (pcs ! i)) (world_after env (replicate i (GET (u @ ''/segments''))) (world s))"
  shows "run_calls env pcs max_upload_size s
    = (Inr PyNone,
       \<lparr>world = world_after env (replicate (length pcs) (GET (u @ ''/segments''))) (world s),
        calls = calls s @ replicate (length pcs) (GET (u @ ''/segments''))\<rparr>)"
  using listed
proof (induction pcs arbitrary: s)
  case Nil
  then show ?case by simp
next
  case (Cons pc pcs)
  obtain c name where pc: "pc = (c, name)" by (cases pc)
  let ?G = "GET (u @ ''/segments'')"
  let ?s1 = "\<lparr>world = snd (remote env ?G (world s)), calls = calls s @ [?G]\<rparr>"
  from Cons.prems pc have "listed env u name (world s)" by fastforce
  from add_segment_listed[OF auth mus this]
  have first: "add_segment env c name max_upload_size s = (Inr PyNone, ?s1)" .
  have "\<forall>i<length pcs.
      listed env u (snd (pcs ! i)) (world_after env (replicate i ?G) (world ?s1))"
  proof (intro allI impI)
    fix i assume "i < length pcs"
    then have "Suc i < length (pc # pcs)" by simp
    with Cons.prems have
      "listed env u (snd ((pc # pcs) ! Suc i)) (world_after env (replicate (Suc i) ?G) (world s))"
      by blast
    then show "listed env u (snd (pcs ! i)) (world_after env (replicate i ?G) (world ?s1))"
      by simp
  qed
  from Cons.IH[OF this] first pc show ?case by simp
qed

text \<open>
  C5, as the code has it. \<open>add_segment\<close> has no \<^verbatim>\<open>return\<close> statement: for a segment that
  exists it returns \<^verbatim>\<open>None\<close>, not the id of the segment.
\<close>

theorem add_segment_returns_none_counterexample:
  "add_segment (test_env never) [IntId 1] ''tok_0'' 100000
      (start \<lparr>segments = [\<lparr>seg_id = ''s0'', seg_name = ''tok_0'', num_user_ids = 1\<rparr>],
               audiences = []\<rparr>)
    = (Inr PyNone,
       \<lparr>world = \<lparr>segments = [\<lparr>seg_id = ''s0'', seg_name = ''tok_0'', num_user_ids = 1\<rparr>],
                  audiences = []\<rparr>,
        calls = [GET ''http://api/segments'']\<rparr>)
   \<and> fst (add_segment (test_env never) [IntId 1] ''tok_0'' 100000
      (start \<lparr>segments = [\<lparr>seg_id = ''s0'', seg_name = ''tok_0'', num_user_ids = 1\<rparr>],
               audiences = []\<rparr>))
    \<noteq> Inr (PyStr ''s0'')"
  by (simp add: test_simps start_def)

text \<open>
  C5 (amended). When the listing of the service contains a segment of the requested
  name (and \<open>max_upload_size\<close> is not 0), \<open>add_segment\<close> sends the listing read and nothing
  else, so no creation and no upload, and returns \<^verbatim>\<open>None\<close>. Hence a call of \<open>add_users\<close>
  at a time when the listing contains the name of each of its segments, as it does after
  a first call on a service that lists what was created, sends one listing read for
  every segment and nothing else.
\<close>

theorem add_segment_existing:
  assumes "get_authentication env = Inr creds" and "creds_url creds = Inr u"
    and "max_upload_size \<noteq> 0"
  shows "(listed env u name (world s)
      \<longrightarrow> add_segment env ids name max_upload_size s
          = (Inr PyNone,
             \<lparr>world = snd (remote env (GET (u @ ''/segments'')) (world s)),
              calls = calls s @ [GET (u @ ''/segments'')]\<rparr>))
    \<and> (user_ids \<noteq> [] \<and> 0 < max_segment_size
        \<and> int num_segments = \<lceil>real (length (list_set env user_ids)) / real_of_int max_segment_size\<rceil>
        \<and> (\<forall>i<num_segments. listed env u (unique_id @ ''_'' @ str_nat i)
              (world_after env (replicate i (GET (u @ ''/segments''))) (world s)))
      \<longrightarrow> add_users env user_ids unique_id max_upload_size max_segment_size s
          = (Inr PyNone,
             \<lparr>world = world_after env (replicate num_segments (GET (u @ ''/segments''))) (world s),
              calls = calls s @ replicate num_segments (GET (u @ ''/segments''))\<rparr>))"
proof (intro conjI impI)
  assume "listed env u name (world s)"
  with assms show "add_segment env ids name max_upload_size s
          = (Inr PyNone,
             \<lparr>world = snd (remote env (GET (u @ ''/segments'')) (world s)),
              calls = calls s @ [GET (u @ ''/segments'')]\<rparr>)"
    by (rule add_segment_listed)
next
  assume a: "user_ids \<noteq> [] \<and> 0 < max_segment_size
        \<and> int num_segments = \<lceil>real (length (list_set env user_ids)) / real_of_int max_segment_size\<rceil>
        \<and> (\<forall>i<num_segments. listed env u (unique_id @ ''_'' @ str_nat i)
              (world_after env (replicate i (GET (u @ ''/segments''))) (world s)))"
  define l where "l = list_set env user_ids"
  define m where "m = nat max_segment_size"
  define k where "k = (length l + m - 1) div m"
  define sz where "sz = (length l + k - 1) div k"
  let ?pcs = "map (\<lambda>i. (take sz (drop (i * sz) l), unique_id @ ''_'' @ str_nat i)) [0..<k]"
  have ne: "list_set env user_ids \<noteq> []" using a by (simp add: list_set_Nil)
  have M: "0 < max_segment_size" using a by simp
  then have m: "0 < m" "real_of_int max_segment_size = real m" by (simp_all add: m_def)
  have "int k = \<lceil>real (length l) / real_of_int max_segment_size\<rceil>"
    unfolding m(2) k_def by (rule ceil_nat[OF m(1), symmetric])
  with a have kn: "k = num_segments" by (simp add: l_def)
  from add_users_calls[OF ne M l_def k_def[unfolded m_def] sz_def,
      of unique_id max_upload_size s]
  have run: "add_users env user_ids unique_id max_upload_size max_segment_size s
    = run_calls env ?pcs max_upload_size s"
    by simp
  have "\<forall>i<length ?pcs. listed env u (snd (?pcs ! i))
      (world_after env (replicate i (GET (u @ ''/segments''))) (world s))"
    using a kn by simp
  from run_calls_listed[OF assms this] run kn
  show "add_users env user_ids unique_id max_upload_size max_segment_size s
          = (Inr PyNone,
             \<lparr>world = world_after env (replicate num_segments (GET (u @ ''/segments''))) (world s),
              calls = calls s @ replicate num_segments (GET (u @ ''/segments''))\<rparr>)"
    by simp
qed


lemma test_get_step: "snd (remote (test_env never) (GET url) w) = w"
  by (simp add: remote_test test_remote_def never_def)

lemma test_get_keeps_world:
  "world_after (test_env never) (replicate i (GET url)) w = w"
  by (induction i) (simp_all add: test_get_step)

theorem add_segment_existing_witness:
  "get_authentication (test_env never) = Inr test_creds \<and> creds_url test_creds = Inr test_url
    \<and> (100000::int) \<noteq> 0
    \<and> listed (test_env never) test_url ''tok_1''
        (world (snd (add_users (test_env never) [IntId 1, IntId 2, IntId 3, IntId 4, IntId 5]
           ''tok'' 100000 2 (start empty_world))))
    \<and> add_segment (test_env never) [IntId 3, IntId 4] ''tok_1'' 100000
        (snd (add_users (test_env never) [IntId 1, IntId 2, IntId 3, IntId 4, IntId 5]
           ''tok'' 100000 2 (start empty_world)))
      = (Inr PyNone,
         \<lparr>world = world (snd (add_users (test_env never)
              [IntId 1, IntId 2, IntId 3, IntId 4, IntId 5] ''tok'' 100000 2 (start empty_world))),
          calls = calls (snd (add_users (test_env never)
              [IntId 1, IntId 2, IntId 3, IntId 4, IntId 5] ''tok'' 100000 2 (start empty_world)))
            @ [GET ''http://api/segments'']\<rparr>)
    \<and> add_users (test_env never) [IntId 1, IntId 2, IntId 3, IntId 4, IntId 5] ''tok'' 100000 2
        (snd (add_users (test_env never) [IntId 1, IntId 2, IntId 3, IntId 4, IntId 5]
           ''tok'' 100000 2 (start empty_world)))
      = (Inr PyNone,
         \<lparr>world = world (snd (add_users (test_env never)
              [IntId 1, IntId 2, IntId 3, IntId 4, IntId 5] ''tok'' 100000 2 (start empty_world))),
          calls = calls (snd (add_users (test_env never)
              [IntId 1, IntId 2, IntId 3, IntId 4, IntId 5] ''tok'' 100000 2 (start empty_world)))
            @ [GET ''http://api/segments'', GET ''http://api/segments'',
               GET ''http://api/segments'']\<rparr>)"
proof -
  let ?ids = "[IntId 1, IntId 2, IntId 3, IntId 4, IntId 5]"
  let ?env = "test_env never"
  define s1 where "s1 = snd (add_users ?env ?ids ''tok'' 100000 2 (start empty_world))"
  have w1: "world s1 = \<lparr>segments =
          [\<lparr>seg_id = ''s0'', seg_name = ''tok_0'', num_user_ids = 0\<rparr>,
           \<lparr>seg_id = ''s1'', seg_name = ''tok_1'', num_user_ids = 0\<rparr>,
           \<lparr>seg_id = ''s2'', seg_name = ''tok_2'', num_user_ids = 0\<rparr>],
          audiences = []\<rparr>"
    by (simp add: s1_def test_first_call)
  have h3: "(100000::int) \<noteq> 0" by simp
  have l0: "listed ?env test_url ''tok_0'' (world s1)"
    and l1: "listed ?env test_url ''tok_1'' (world s1)"
    and l2: "listed ?env test_url ''tok_2'' (world s1)"
    by (simp_all add: listed_def remote_test test_remote_def never_def w1 ok_response_def)
  have G: "GET (test_url @ ''/segments'') = GET ''http://api/segments''"
    by (simp add: test_url_def)
  have n: "int 3 = \<lceil>real (length (list_set ?env ?ids)) / real_of_int 2\<rceil>"
    by (simp add: list_set_test ceiling_divide_eq_div_numeral)
  have all: "\<forall>i<3. listed ?env test_url (''tok'' @ ''_'' @ str_nat i)
      (world_after ?env (replicate i (GET (test_url @ ''/segments''))) (world s1))"
  proof (intro allI impI)
    fix i :: nat assume "i < 3"
    then consider "i = 0" | "i = 1" | "i = 2" by linarith
    then show "listed ?env test_url (''tok'' @ ''_'' @ str_nat i)
      (world_after ?env (replicate i (GET (test_url @ ''/segments''))) (world s1))"
      using l0 l1 l2
      by cases (simp_all only: test_get_keeps_world, simp_all add: str_nat.simps digit_char_def)
  qed
  have w3: "world_after ?env (replicate 3 (GET (test_url @ ''/segments''))) (world s1) = world s1"
    by (rule test_get_keeps_world)
  have keep: "snd (remote ?env (GET (test_url @ ''/segments'')) (world s1)) = world s1"
    by (rule test_get_step)
  have r3: "replicate 3 (GET (test_url @ ''/segments''))
    = [GET ''http://api/segments'', GET ''http://api/segments'', GET ''http://api/segments'']"
    by (simp add: G eval_nat_numeral)
  from add_segment_existing[OF test_auth[of never] test_url_creds h3,
      where name = "''tok_1''" and s = s1 and ids = "[IntId 3, IntId 4]" and user_ids = ?ids
        and max_segment_size = 2 and num_segments = 3 and unique_id = "''tok''"] l1 n all
  have "add_segment ?env [IntId 3, IntId 4] ''tok_1'' 100000 s1
      = (Inr PyNone, \<lparr>world = world s1, calls = calls s1 @ [GET ''http://api/segments'']\<rparr>)"
    and "add_users ?env ?ids ''tok'' 100000 2 s1
      = (Inr PyNone, \<lparr>world = world s1,
          calls = calls s1 @ [GET ''http://api/segments'', GET ''http://api/segments'',
               GET ''http://api/segments'']\<rparr>)"
    by (simp_all add: test_url_def test_get_step test_get_keeps_world eval_nat_numeral)
  with l1 h3 test_auth test_url_creds show ?thesis unfolding s1_def by blast
qed

section \<open>C6: failures of creation and upload\<close>

lemma query_users_add_users_raises:
  assumes "add_users env ids (get_unique_id env ids) 100000 3000000 s
    = (Inl (AudienceApiException kind v), s')"
  shows "query_users env ids g s = (Inr (ErrorDict (py_repr env v)), s')"
  using assms by (simp add: query_users_def)

lemma add_users_first_raises:
  assumes ne: "user_ids \<noteq> []" and M: "0 < max_segment_size"
    and first: "\<And>c. add_segment env c (unique_id @ ''_0'') max_upload_size s = (Inl e, s')"
  shows "add_users env user_ids unique_id max_upload_size max_segment_size s = (Inl e, s')"
proof -
  define l where "l = list_set env user_ids"
  define k where "k = (length l + nat max_segment_size - 1) div nat max_segment_size"
  define sz where "sz = (length l + k - 1) div k"
  have ne': "list_set env user_ids \<noteq> []" using ne by (simp add: list_set_Nil)
  from add_users_calls[OF ne' M l_def k_def sz_def, of unique_id max_upload_size s]
  have run: "add_users env user_ids unique_id max_upload_size max_segment_size s
    = run_calls env (map (\<lambda>i. (take sz (drop (i * sz) l), unique_id @ ''_'' @ str_nat i)) [0..<k])
        max_upload_size s"
    and k: "0 < k"
    by simp_all
  from k have "[0..<k] = 0 # [Suc 0..<k]" by (simp add: upt_conv_Cons)
  then show ?thesis unfolding run by (simp add: str_nat_digits first)
qed

lemma token_five: "get_unique_id (test_env f) [IntId 1, IntId 2, IntId 3, IntId 4, IntId 5] = ''ebbec8c''"
proof -
  have "hashable_str [IntId 1, IntId 2, IntId 3, IntId 4, IntId 5] = ''12345''" by code_simp
  then show ?thesis
    by (simp add: get_unique_id_digits test_hash64_def hex_nat.simps hex_char_def)
qed

lemma test_repr: "py_repr (test_env f) v = ''u'' @ [CHR 0x27] @ v @ [CHR 0x27]"
  by (simp add: test_env_def)

lemma info_auth: "get_authentication informational_env = Inr test_creds"
  by (simp add: get_authentication_def informational_env_def test_env_def test_creds_def
      has_key_def)

lemma info_list_set: "list_set informational_env ids = remdups ids"
  by (simp add: list_set_def informational_env_def test_env_def sort_key_const)

lemma info_remote: "remote informational_env = informational_remote"
  by (simp add: informational_env_def)

lemmas info_simps = info_auth test_url_creds info_list_set info_remote
  informational_remote_def add_segment_def requests_get_def requests_post_def send_def
  chunks_def chunks_from.simps test_remote_def never_def test_url_def
  ok_response_def error_response_def str_nat.simps digit_char_def str_int_def Let_def

text \<open>
  C6, as the code has it. The tests of the code are \<^verbatim>\<open>status_code > 299\<close> (lines 92 and
  109): a status below 200 is not 2xx and does not raise. With every creation answered
  101, \<open>add_segment\<close> raises nothing and goes on to upload to the id of the answer.
\<close>

theorem add_segment_informational_counterexample:
  "status_code (fst (remote informational_env
      (POST ''http://api/segments'' (NameBody ''tok_0'')) empty_world)) = 101
    \<and> \<not> is_2xx 101
    \<and> add_segment informational_env [IntId 1] ''tok_0'' 100000 (start empty_world)
      = (Inr PyNone,
         \<lparr>world = \<lparr>segments = [\<lparr>seg_id = ''s0'', seg_name = ''tok_0'', num_user_ids = 0\<rparr>],
                    audiences = []\<rparr>,
          calls = [GET ''http://api/segments'',
                   POST ''http://api/segments'' (NameBody ''tok_0''),
                   POST ''http://api/segments/s0/ids'' (UserIdsBody [''1''])]\<rparr>)"
  by (simp add: info_simps is_2xx_def start_def empty_world_def)

text \<open>
  C6 (amended). The listing does not contain the name of the segment.
  \<^item> When the creation is answered with a status above 299, \<open>add_segment\<close> raises
    SegmentCreateException with the text of the answer, having sent the listing read and
    the creation and no upload.
  \<^item> When the creation is answered with a status up to 299 and the upload of batch \<open>j\<close>
    is the first that is answered with a status above 299, \<open>add_segment\<close> raises
    SegmentPostIdsException with the text of that answer; it has sent the uploads of the
    batches up to \<open>j\<close> and no request after them, so the later batches are not tried and
    nothing is undone.
  \<^item> When the creation of the first segment of \<open>query_users\<close> fails in this way,
    \<open>query_users\<close> returns the dictionary with the error message.
\<close>

theorem add_segment_failures:
  assumes "get_authentication env = Inr creds" and "creds_url creds = Inr u"
    and "remote env (GET (u @ ''/segments'')) (world s) = (r, w1)"
    and "json_segments r = Some segs" and "name \<notin> seg_name ` set segs"
    and "remote env (POST (u @ ''/segments'') (NameBody name)) w1 = (cr, w2)"
  shows "(max_upload_size \<noteq> 0 \<and> 299 < status_code cr
      \<longrightarrow> add_segment env ids name max_upload_size s
          = (Inl (AudienceApiException SegmentCreateException (resp_text cr)),
             \<lparr>world = w2,
              calls = calls s @ [GET (u @ ''/segments''),
                                POST (u @ ''/segments'') (NameBody name)]\<rparr>))
    \<and> (status_code cr \<le> 299 \<and> json_id cr = Some sid
        \<and> chunks (list_set env ids) max_upload_size = Inr cs
        \<and> rqs = map (POST (u @ ''/segments/'' @ sid @ ''/ids''))
                   (map (\<lambda>c. UserIdsBody (map str c)) cs)
        \<and> j < length rqs
        \<and> 299 < status_code (responses env rqs w2 ! j)
        \<and> (\<forall>i<j. status_code (responses env rqs w2 ! i) \<le> 299)
      \<longrightarrow> add_segment env ids name max_upload_size s
          = (Inl (AudienceApiException SegmentPostIdsException
                    (resp_text (responses env rqs w2 ! j))),
             \<lparr>world = world_after env (take (Suc j) rqs) w2,
              calls = calls s @ [GET (u @ ''/segments''),
                                POST (u @ ''/segments'') (NameBody name)]
                        @ take (Suc j) rqs\<rparr>))
    \<and> (299 < status_code cr \<and> user_ids \<noteq> []
        \<and> name = get_unique_id env user_ids @ ''_0''
      \<longrightarrow> query_users env user_ids groupings s
          = (Inr (ErrorDict (py_repr env (resp_text cr))),
             \<lparr>world = w2,
              calls = calls s @ [GET (u @ ''/segments''),
                                POST (u @ ''/segments'') (NameBody name)]\<rparr>))"
proof (intro conjI impI)
  assume a: "max_upload_size \<noteq> 0 \<and> 299 < status_code cr"
  with assms show "add_segment env ids name max_upload_size s
          = (Inl (AudienceApiException SegmentCreateException (resp_text cr)),
             \<lparr>world = w2,
              calls = calls s @ [GET (u @ ''/segments''),
                                POST (u @ ''/segments'') (NameBody name)]\<rparr>)"
    by (intro add_segment_create_fails) simp_all
next
  assume b: "status_code cr \<le> 299 \<and> json_id cr = Some sid
        \<and> chunks (list_set env ids) max_upload_size = Inr cs
        \<and> rqs = map (POST (u @ ''/segments/'' @ sid @ ''/ids''))
                   (map (\<lambda>c. UserIdsBody (map str c)) cs)
        \<and> j < length rqs
        \<and> 299 < status_code (responses env rqs w2 ! j)
        \<and> (\<forall>i<j. status_code (responses env rqs w2 ! i) \<le> 299)"
  then have ok: "status_code cr \<le> 299" and bad: "299 < status_code (responses env rqs w2 ! j)"
    and before: "\<forall>i<j. status_code (responses env rqs w2 ! i) \<le> 299"
    by blast+
  from b have rqs: "rqs = map (POST (u @ ''/segments/'' @ sid @ ''/ids''))
                   (map (\<lambda>c. UserIdsBody (map str c)) cs)" by blast
  from b have rest: "chunks (list_set env ids) max_upload_size = Inr cs"
    "json_id cr = Some sid" "j < length rqs" by blast+
  show "add_segment env ids name max_upload_size s
          = (Inl (AudienceApiException SegmentPostIdsException
                    (resp_text (responses env rqs w2 ! j))),
             \<lparr>world = world_after env (take (Suc j) rqs) w2,
              calls = calls s @ [GET (u @ ''/segments''),
                                POST (u @ ''/segments'') (NameBody name)]
                        @ take (Suc j) rqs\<rparr>)"
    by (rule add_segment_upload_fails[OF assms(1,2) rest(1) assms(3,4,5,6) ok rest(2) rqs
          rest(3) bad before])
next
  assume c: "299 < status_code cr \<and> user_ids \<noteq> []
        \<and> name = get_unique_id env user_ids @ ''_0''"
  then have bad: "299 < status_code cr" by blast
  have mus: "(100000::int) \<noteq> 0" by simp
  have first: "add_segment env c0 (get_unique_id env user_ids @ ''_0'') 100000 s
      = (Inl (AudienceApiException SegmentCreateException (resp_text cr)),
         \<lparr>world = w2,
          calls = calls s @ [GET (u @ ''/segments''),
                            POST (u @ ''/segments'') (NameBody name)]\<rparr>)" for c0
    using add_segment_create_fails[OF assms(1,2) mus assms(3,4,5,6) bad, of c0] c by simp
  have "add_users env user_ids (get_unique_id env user_ids) 100000 3000000 s
      = (Inl (AudienceApiException SegmentCreateException (resp_text cr)),
         \<lparr>world = w2,
          calls = calls s @ [GET (u @ ''/segments''),
                            POST (u @ ''/segments'') (NameBody name)]\<rparr>)"
    by (rule add_users_first_raises) (use c first in simp_all)
  then show "query_users env user_ids groupings s
          = (Inr (ErrorDict (py_repr env (resp_text cr))),
             \<lparr>world = w2,
              calls = calls s @ [GET (u @ ''/segments''),
                                POST (u @ ''/segments'') (NameBody name)]\<rparr>)"
    by (rule query_users_add_users_raises)
qed

theorem add_segment_failures_witness:
  "299 < status_code error_response
    \<and> add_segment (test_env creation_request) [IntId 1] ''tok_0'' 100000 (start empty_world)
      = (Inl (AudienceApiException SegmentCreateException ''Internal Server Error''),
         \<lparr>world = empty_world,
          calls = [GET ''http://api/segments'',
                   POST ''http://api/segments'' (NameBody ''tok_0'')]\<rparr>)
    \<and> add_segment (test_env (upload_of [''3'', ''4'']))
        [IntId 1, IntId 2, IntId 3, IntId 4, IntId 5] ''tok_0'' 2 (start empty_world)
      = (Inl (AudienceApiException SegmentPostIdsException ''Internal Server Error''),
         \<lparr>world = \<lparr>segments = [\<lparr>seg_id = ''s0'', seg_name = ''tok_0'', num_user_ids = 0\<rparr>],
                    audiences = []\<rparr>,
          calls = [GET ''http://api/segments'',
                   POST ''http://api/segments'' (NameBody ''tok_0''),
                   POST ''http://api/segments/s0/ids'' (UserIdsBody [''1'', ''2'']),
                   POST ''http://api/segments/s0/ids'' (UserIdsBody [''3'', ''4''])]\<rparr>)
    \<and> query_users (test_env creation_request) [IntId 1, IntId 2, IntId 3, IntId 4, IntId 5]
        ''g'' (start empty_world)
      = (Inr (ErrorDict (''u'' @ [CHR 0x27] @ ''Internal Server Error'' @ [CHR 0x27])),
         \<lparr>world = empty_world,
          calls = [GET ''http://api/segments'',
                   POST ''http://api/segments'' (NameBody ''ebbec8c_0'')]\<rparr>)"
proof -
  let ?ids = "[IntId 1, IntId 2, IntId 3, IntId 4, IntId 5]"
  let ?ea = "test_env creation_request"
  let ?eb = "test_env (upload_of [''3'', ''4''])"
  let ?w2 = "\<lparr>segments = [\<lparr>seg_id = ''s0'', seg_name = ''tok_0'', num_user_ids = 0\<rparr>],
              audiences = []\<rparr>"
  let ?rqs = "[POST ''http://api/segments/s0/ids'' (UserIdsBody [''1'', ''2'']),
               POST ''http://api/segments/s0/ids'' (UserIdsBody [''3'', ''4'']),
               POST ''http://api/segments/s0/ids'' (UserIdsBody [''5''])]"
  have st: "299 < status_code error_response"
    by (simp add: error_response_def)
  have msg: "resp_text error_response = ''Internal Server Error''"
    by (simp add: error_response_def)
  \<comment> \<open>the creation fails\<close>
  have la: "remote ?ea (GET (test_url @ ''/segments'')) (world (start empty_world))
      = (ok_response\<lparr>json_segments := Some []\<rparr>, empty_world)"
    by (simp add: remote_test test_remote_def start_def empty_world_def)
  have ja: "json_segments (ok_response\<lparr>json_segments := Some []\<rparr>) = Some []" by simp
  have na: "name \<notin> seg_name ` set []" for name :: string by simp
  have ca: "remote ?ea (POST (test_url @ ''/segments'') (NameBody name)) empty_world
      = (error_response, empty_world)" for name
    by (simp add: remote_test test_remote_def)
  have A: "add_segment ?ea [IntId 1] ''tok_0'' 100000 (start empty_world)
      = (Inl (AudienceApiException SegmentCreateException ''Internal Server Error''),
         \<lparr>world = empty_world,
          calls = [GET ''http://api/segments'',
                   POST ''http://api/segments'' (NameBody ''tok_0'')]\<rparr>)"
    using add_segment_failures[OF test_auth[of creation_request] test_url_creds la ja na ca,
        where max_upload_size = 100000 and ids = "[IntId 1]" and name = "''tok_0''"] st
    by (simp add: msg test_url_def start_def)
  have C: "query_users ?ea ?ids ''g'' (start empty_world)
      = (Inr (ErrorDict (''u'' @ [CHR 0x27] @ ''Internal Server Error'' @ [CHR 0x27])),
         \<lparr>world = empty_world,
          calls = [GET ''http://api/segments'',
                   POST ''http://api/segments'' (NameBody ''ebbec8c_0'')]\<rparr>)"
    using add_segment_failures[OF test_auth[of creation_request] test_url_creds la ja na ca,
        where name = "''ebbec8c_0''" and user_ids = ?ids and groupings = "''g''"] st
    by (simp add: msg test_url_def start_def token_five test_repr)
  \<comment> \<open>the second upload fails\<close>
  have lb: "remote ?eb (GET (test_url @ ''/segments'')) (world (start empty_world))
      = (ok_response\<lparr>json_segments := Some []\<rparr>, empty_world)"
    by (simp add: remote_test test_remote_def start_def empty_world_def)
  have cb: "remote ?eb (POST (test_url @ ''/segments'') (NameBody ''tok_0'')) empty_world
      = (ok_response\<lparr>json_id := Some ''s0''\<rparr>, ?w2)"
    by (simp add: remote_test test_remote_def empty_world_def str_nat.simps digit_char_def Let_def)
  have sb: "status_code (ok_response\<lparr>json_id := Some ''s0''\<rparr>) \<le> 299"
    "json_id (ok_response\<lparr>json_id := Some ''s0''\<rparr>) = Some ''s0''"
    by (simp_all add: ok_response_def)
  have chb: "chunks (list_set ?eb ?ids) 2 = Inr [[IntId 1, IntId 2], [IntId 3, IntId 4], [IntId 5]]"
    by (simp add: list_set_test chunks_def chunks_from.simps)
  have rq: "?rqs = map (POST (test_url @ ''/segments/'' @ ''s0'' @ ''/ids''))
      (map (\<lambda>c. UserIdsBody (map str c)) [[IntId 1, IntId 2], [IntId 3, IntId 4], [IntId 5]])"
    by (simp add: test_url_def str_int_def str_nat.simps digit_char_def)
  have rs: "responses ?eb ?rqs ?w2 = [ok_response, error_response, ok_response]"
    by (simp add: remote_test test_remote_def)
  have wb: "world_after ?eb (take (Suc 1) ?rqs) ?w2 = ?w2"
    by (simp add: remote_test test_remote_def)
  have j: "(1::nat) < length ?rqs" by simp
  have bj: "299 < status_code (responses ?eb ?rqs ?w2 ! 1)"
    "\<forall>i<1. status_code (responses ?eb ?rqs ?w2 ! i) \<le> 299"
    unfolding rs by (simp_all add: error_response_def ok_response_def)
  note upload = add_segment_failures[OF test_auth[of "upload_of [''3'', ''4'']"] test_url_creds
      lb ja na cb, where max_upload_size = 2 and ids = ?ids and sid = "''s0''"
      and cs = "[[IntId 1, IntId 2], [IntId 3, IntId 4], [IntId 5]]" and rqs = ?rqs and j = 1,
      THEN conjunct2, THEN conjunct1, rule_format]
  have "add_segment ?eb ?ids ''tok_0'' 2 (start empty_world)
      = (Inl (AudienceApiException SegmentPostIdsException
                (resp_text (responses ?eb ?rqs ?w2 ! 1))),
         \<lparr>world = world_after ?eb (take (Suc 1) ?rqs) ?w2,
          calls = calls (start empty_world)
            @ [GET (test_url @ ''/segments''), POST (test_url @ ''/segments'') (NameBody ''tok_0'')]
            @ take (Suc 1) ?rqs\<rparr>)"
    by (rule upload) (intro conjI sb chb rq j bj)
  then have B: "add_segment ?eb ?ids ''tok_0'' 2 (start empty_world)
      = (Inl (AudienceApiException SegmentPostIdsException ''Internal Server Error''),
         \<lparr>world = ?w2,
          calls = [GET ''http://api/segments'',
                   POST ''http://api/segments'' (NameBody ''tok_0''),
                   POST ''http://api/segments/s0/ids'' (UserIdsBody [''1'', ''2'']),
                   POST ''http://api/segments/s0/ids'' (UserIdsBody [''3'', ''4''])]\<rparr>)"
    unfolding rs wb by (simp add: msg test_url_def start_def)
  from st A B C show ?thesis by blast
qed

section \<open>Lemmas on query\_audience\<close>

lemma not_digit [simp]: "\<not> is_digit CHR ''_''" "\<not> is_digit CHR 0x0A"
  by (simp_all add: is_digit_def)

lemma dropWhile_digits:
  "list_all is_digit d \<Longrightarrow> dropWhile is_digit (rev d @ CHR ''_'' # xs) = CHR ''_'' # xs"
  by (simp add: dropWhile_append3 list_all_iff)

lemma strip_newline_plain:
  "list_all is_digit d \<Longrightarrow> strip_newline (p @ uid @ ''_'' @ d) = p @ uid @ ''_'' @ d"
proof -
  assume d: "list_all is_digit d"
  have "last (p @ uid @ ''_'' @ d) \<noteq> CHR 0x0A"
  proof (cases d rule: rev_cases)
    case Nil
    then show ?thesis by simp
  next
    case (snoc ds x)
    with d have "is_digit x" by simp
    then have "x \<noteq> CHR 0x0A" by auto
    with snoc show ?thesis by simp
  qed
  then show ?thesis by (simp add: strip_newline_def)
qed

lemma strip_newline_nl: "strip_newline (xs @ [CHR 0x0A]) = xs"
  by (simp add: strip_newline_def)

lemma literal_search_plain:
  assumes "list_all is_digit d"
  shows "literal_search uid (p @ uid @ ''_'' @ d)"
proof -
  have "rev (dropWhile is_digit (rev (p @ uid @ ''_'' @ d))) = p @ uid @ ''_''"
    using dropWhile_digits[OF assms, of "rev uid @ rev p"] by simp
  then show ?thesis
    unfolding literal_search_def strip_newline_plain[OF assms] by (simp add: suffix_def)
qed

lemma literal_search_nl:
  assumes "list_all is_digit d"
  shows "literal_search uid (p @ uid @ ''_'' @ d @ [CHR 0x0A])"
proof -
  have s: "strip_newline (p @ uid @ ''_'' @ d @ [CHR 0x0A]) = p @ uid @ ''_'' @ d"
    using strip_newline_nl[of "p @ uid @ ''_'' @ d"] by simp
  have "suffix (uid @ ''_'')
      (rev (dropWhile is_digit (rev (strip_newline (p @ uid @ ''_'' @ d)))))"
    using literal_search_plain[OF assms, of uid p] unfolding literal_search_def .
  then show ?thesis unfolding literal_search_def s strip_newline_plain[OF assms] .
qed

lemma strip_newline_cases:
  "name = strip_newline name \<or> name = strip_newline name @ [CHR 0x0A]"
  by (cases name rule: rev_cases) (auto simp: strip_newline_def)

lemma literal_search_iff:
  "literal_search uid name \<longleftrightarrow>
     (\<exists>p d. list_all is_digit d
        \<and> (name = p @ uid @ ''_'' @ d \<or> name = p @ uid @ ''_'' @ d @ [CHR 0x0A]))"
proof
  assume a: "literal_search uid name"
  let ?t = "strip_newline name"
  let ?d = "rev (takeWhile is_digit (rev ?t))"
  from a obtain p where p: "rev (dropWhile is_digit (rev ?t)) = p @ uid @ ''_''"
    by (auto simp: literal_search_def suffix_def)
  have "?t = rev (dropWhile is_digit (rev ?t)) @ ?d"
    by (metis rev_append rev_rev_ident takeWhile_dropWhile_id)
  with p have t: "?t = p @ uid @ ''_'' @ ?d" by simp
  have d: "list_all is_digit ?d" by (auto simp: list_all_iff dest: set_takeWhileD)
  have "name = p @ uid @ ''_'' @ ?d \<or> name = (p @ uid @ ''_'' @ ?d) @ [CHR 0x0A]"
    using strip_newline_cases[of name] t by metis
  then have "name = p @ uid @ ''_'' @ ?d \<or> name = p @ uid @ ''_'' @ ?d @ [CHR 0x0A]"
    by simp
  with d show "\<exists>p d. list_all is_digit d
        \<and> (name = p @ uid @ ''_'' @ d \<or> name = p @ uid @ ''_'' @ d @ [CHR 0x0A])"
    by blast
next
  assume "\<exists>p d. list_all is_digit d
        \<and> (name = p @ uid @ ''_'' @ d \<or> name = p @ uid @ ''_'' @ d @ [CHR 0x0A])"
  then show "literal_search uid name" using literal_search_plain literal_search_nl by blast
qed

lemma literal_search_self: "\<not> literal_search uid uid"
proof
  assume "literal_search uid uid"
  then obtain p d where "uid = p @ uid @ ''_'' @ d \<or> uid = p @ uid @ ''_'' @ d @ [CHR 0x0A]"
    unfolding literal_search_iff by blast
  then have "length uid = length (p @ uid @ ''_'' @ d)
      \<or> length uid = length (p @ uid @ ''_'' @ d @ [CHR 0x0A])"
    by (metis (no_types))
  then show False by simp
qed

lemma spec_match_literal_search: "spec_name_match uid name \<Longrightarrow> literal_search uid name"
proof -
  assume "spec_name_match uid name"
  then obtain d p where "list_all is_digit d" "name = p @ uid @ ''_'' @ d"
    by (auto simp: spec_name_match_def suffix_def)
  then show ?thesis using literal_search_plain by blast
qed

lemma re_search_literal:
  "is_literal unique_id \<Longrightarrow> re_search env unique_id name = Inr (literal_search unique_id name)"
  by (simp add: re_search_def)

lemma segment_loop_literal:
  "is_literal unique_id \<Longrightarrow>
     segment_loop env unique_id entries found
       = Inr (found @ map seg_id (filter (\<lambda>e. literal_search unique_id (seg_name e)) entries))"
  by (induction entries arbitrary: found) (simp_all add: re_search_literal)

lemma hex_not_meta: "c \<in> set ''0123456789abcdefL'' \<Longrightarrow> c \<notin> set metachars"
  apply (simp add: metachars_def)
  apply (elim disjE)
  apply simp_all
  done

lemma get_unique_id_chars:
  "c \<in> set (get_unique_id env ids) \<Longrightarrow> c \<in> set ''0123456789abcdefL''"
proof -
  assume a: "c \<in> set (get_unique_id env ids)"
  let ?n = "unat (farmhash64 env (hashable_str ids))"
  have split: "''0123456789abcdefL'' = ''0123456789abcdef'' @ ''L''" by simp
  from a have "c \<in> set (hex_nat ?n) \<or> c = CHR ''L''"
    unfolding get_unique_id_digits by (cases "hash_as_long env \<or> 2 ^ 63 \<le> uint (farmhash64 env (hashable_str ids))") simp_all
  moreover have "c \<in> set (hex_nat ?n) \<Longrightarrow> c \<in> set ''0123456789abcdef''"
    using hex_nat_chars[of ?n] by (rule subsetD)
  ultimately have "c \<in> set ''0123456789abcdef'' \<or> c \<in> set ''L''" by fastforce
  then show ?thesis unfolding split set_append Un_iff .
qed

lemma get_unique_id_literal: "is_literal (get_unique_id env ids)"
  unfolding is_literal_def list_all_iff
  by (intro ballI hex_not_meta get_unique_id_chars)

lemma send_calls: "calls (snd (send env rq s)) = calls s @ [rq]"
  by (simp add: send_def split: prod.splits)

lemma query_audience_search_raises:
  assumes auth: "get_authentication env = Inr creds" "creds_url creds = Inr u"
    and listing: "remote env (GET (u @ ''/segments'')) (world s) = (r, w1)"
      "json_segments r = Some entries"
    and raises: "segment_loop env unique_id entries [] = Inl e"
  shows "query_audience env unique_id groupings s
    = (Inl e, \<lparr>world = w1, calls = calls s @ [GET (u @ ''/segments'')]\<rparr>)"
  by (simp add: query_audience_def auth requests_get_def send_eq[OF listing(1)] listing(2) raises)

lemma query_audience_no_segments:
  assumes auth: "get_authentication env = Inr creds" "creds_url creds = Inr u"
    and listing: "remote env (GET (u @ ''/segments'')) (world s) = (r, w1)"
      "json_segments r = Some entries"
    and none: "segment_loop env unique_id entries [] = Inr []"
  shows "query_audience env unique_id groupings s
    = (Inl (AudienceApiException NoSegmentsFoundException (no_segments_message unique_id)),
       \<lparr>world = w1, calls = calls s @ [GET (u @ ''/segments'')]\<rparr>)"
  by (simp add: query_audience_def auth requests_get_def send_eq[OF listing(1)] listing(2) none)

lemma query_audience_found:
  assumes auth: "get_authentication env = Inr creds" "creds_url creds = Inr u"
    and listing: "remote env (GET (u @ ''/segments'')) (world s) = (r, w1)"
      "json_segments r = Some entries"
    and some: "segment_loop env unique_id entries [] = Inr ids" "ids \<noteq> []"
    and auds: "remote env (GET (u @ ''/audiences'')) w1 = (ar, w2)"
      "json_audiences ar = Some auds"
    and found: "find_audience_id unique_id auds None = Some audience_id"
  shows "calls (snd (query_audience env unique_id groupings s))
    = calls s @ [GET (u @ ''/segments''), GET (u @ ''/audiences''),
        POST (u @ ''/audiences/'' @ audience_id @ ''/query'') (RawBody groupings)]"
proof -
  let ?s1 = "\<lparr>world = w1, calls = calls s @ [GET (u @ ''/segments'')]\<rparr>"
  let ?s2 = "\<lparr>world = w2, calls = calls ?s1 @ [GET (u @ ''/audiences'')]\<rparr>"
  let ?q = "POST (u @ ''/audiences/'' @ audience_id @ ''/query'') (RawBody groupings)"
  have g2: "send env (GET (u @ ''/audiences'')) ?s1 = (ar, ?s2)"
    by (rule send_eq) (simp add: auds(1))
  have "query_audience env unique_id groupings s
    = (let (audience_info, s5) = send env ?q ?s2
       in if status_code audience_info > 299
          then (Inl (AudienceApiException AudienceInfoException (resp_text audience_info)), s5)
          else (Inr (json_payload audience_info), s5))"
    using some(2)
    by (simp add: query_audience_def auth requests_get_def requests_post_def
        send_eq[OF listing(1)] listing(2) some(1) g2 auds(2) found)
  then have "calls (snd (query_audience env unique_id groupings s)) = calls (snd (send env ?q ?s2))"
    by (simp split: prod.splits)
  then show ?thesis by (simp add: send_calls)
qed

lemma query_audience_creates:
  assumes auth: "get_authentication env = Inr creds" "creds_url creds = Inr u"
    and listing: "remote env (GET (u @ ''/segments'')) (world s) = (r, w1)"
      "json_segments r = Some entries"
    and some: "segment_loop env unique_id entries [] = Inr ids" "ids \<noteq> []"
    and auds: "remote env (GET (u @ ''/audiences'')) w1 = (ar, w2)"
      "json_audiences ar = Some auds"
    and absent: "find_audience_id unique_id auds None = None"
  shows "\<exists>rest. calls (snd (query_audience env unique_id groupings s))
    = calls s @ [GET (u @ ''/segments''), GET (u @ ''/audiences''),
        POST (u @ ''/audiences'') (AudienceBody unique_id ids)] @ rest"
proof -
  let ?s1 = "\<lparr>world = w1, calls = calls s @ [GET (u @ ''/segments'')]\<rparr>"
  let ?s2 = "\<lparr>world = w2, calls = calls s @ [GET (u @ ''/segments''), GET (u @ ''/audiences'')]\<rparr>"
  let ?p = "POST (u @ ''/audiences'') (AudienceBody unique_id ids)"
  obtain pr w3 where pw: "remote env ?p w2 = (pr, w3)" by fastforce
  let ?s3 = "\<lparr>world = w3,
      calls = calls s @ [GET (u @ ''/segments''), GET (u @ ''/audiences''), ?p]\<rparr>"
  have g2: "send env (GET (u @ ''/audiences'')) ?s1 = (ar, ?s2)"
    by (simp add: send_def auds(1))
  have p3: "send env ?p ?s2 = (pr, ?s3)"
    by (simp add: send_def pw)
  note unfold = query_audience_def auth requests_get_def requests_post_def
    send_eq[OF listing(1)] listing(2) some(1) g2 auds(2) absent p3
  consider (failed) "status_code pr > 299"
    | (no_id) "\<not> status_code pr > 299" "json_id pr = None"
    | (created) aid where "\<not> status_code pr > 299" "json_id pr = Some aid"
    by (cases "json_id pr") auto
  then show ?thesis
  proof cases
    case failed
    with some(2) have "query_audience env unique_id groupings s
      = (Inl (AudienceApiException AudiencePostException (resp_text pr)), ?s3)"
      by (simp add: unfold)
    then show ?thesis by simp
  next
    case no_id
    with some(2) have "query_audience env unique_id groupings s = (Inl (KeyError ''id''), ?s3)"
      by (simp add: unfold)
    then show ?thesis by simp
  next
    case created
    let ?q = "POST (u @ ''/audiences/'' @ aid @ ''/query'') (RawBody groupings)"
    from created some(2) have "query_audience env unique_id groupings s
      = (let (audience_info, s5) = send env ?q ?s3
         in if status_code audience_info > 299
            then (Inl (AudienceApiException AudienceInfoException (resp_text audience_info)), s5)
            else (Inr (json_payload audience_info), s5))"
      by (simp add: unfold)
    then have "calls (snd (query_audience env unique_id groupings s))
      = calls (snd (send env ?q ?s3))"
      by (simp split: prod.splits)
    then show ?thesis by (simp add: send_calls)
  qed
qed

section \<open>C7: the segments of an audience\<close>

lemma find_audience_id_None:
  "find_audience_id name auds None = None \<longleftrightarrow> name \<notin> aud_name ` set auds"
proof -
  have "filter (\<lambda>e. aud_name e = name) auds = [] \<longleftrightarrow> name \<notin> aud_name ` set auds"
    by (auto simp: filter_empty_conv)
  then show ?thesis by (auto simp: find_audience_id_filter split: list.splits)
qed

lemmas re_search_eval = re_search_def is_literal_def metachars_def literal_search_def
  strip_newline_def is_digit_def suffix_to_prefix

lemma test_query_env:
  "remote (test_env never) (GET (test_url @ ''/segments'')) w
     = (ok_response\<lparr>json_segments := Some (segments w)\<rparr>, w)"
  "remote (test_env never) (GET (test_url @ ''/audiences'')) w
     = (ok_response\<lparr>json_audiences := Some (audiences w)\<rparr>, w)"
  by (simp_all add: remote_test test_remote_def never_def)

text \<open>
  C7, as the code has it. The pattern of the code is \<^verbatim>\<open>unique_id_\d*$\<close>: the digits may be
  missing. A segment named \<open>tok_\<close> is selected for the identity \<open>tok\<close>, and an audience is
  created from it, where the claim has no matching segment and NoSegmentsFoundException.
\<close>

theorem query_audience_empty_digits_counterexample:
  "\<not> spec_name_match ''tok'' ''tok_'' \<and> is_literal ''tok''
    \<and> re_search (test_env never) ''tok'' ''tok_'' = Inr True
    \<and> query_audience (test_env never) ''tok'' ''g''
        (start \<lparr>segments = [\<lparr>seg_id = ''s7'', seg_name = ''tok_'', num_user_ids = 1\<rparr>],
                 audiences = []\<rparr>)
      = (Inr ''results'',
         \<lparr>world = \<lparr>segments = [\<lparr>seg_id = ''s7'', seg_name = ''tok_'', num_user_ids = 1\<rparr>],
                    audiences = [\<lparr>aud_id = ''a0'', aud_name = ''tok'',
                                  segment_ids = [''s7'']\<rparr>]\<rparr>,
          calls = [GET ''http://api/segments'', GET ''http://api/audiences'',
                   POST ''http://api/audiences'' (AudienceBody ''tok'' [''s7'']),
                   POST ''http://api/audiences/a0/query'' (RawBody ''g'')]\<rparr>)"
proof -
  have "\<not> spec_name_match ''tok'' ''tok_''"
  proof
    assume "spec_name_match ''tok'' ''tok_''"
    then obtain d where d: "d \<noteq> []" "suffix (''tok'' @ ''_'' @ d) ''tok_''"
      by (auto simp: spec_name_match_def)
    from d(2) have "length (''tok'' @ ''_'' @ d) \<le> length ''tok_''" by (rule suffix_length_le)
    with d(1) show False by simp
  qed
  moreover have "is_literal ''tok''" by (simp add: is_literal_def metachars_def)
  moreover have "re_search (test_env never) ''tok'' ''tok_'' = Inr True"
    by (simp add: re_search_eval)
  moreover have "query_audience (test_env never) ''tok'' ''g''
        (start \<lparr>segments = [\<lparr>seg_id = ''s7'', seg_name = ''tok_'', num_user_ids = 1\<rparr>],
                 audiences = []\<rparr>)
      = (Inr ''results'',
         \<lparr>world = \<lparr>segments = [\<lparr>seg_id = ''s7'', seg_name = ''tok_'', num_user_ids = 1\<rparr>],
                    audiences = [\<lparr>aud_id = ''a0'', aud_name = ''tok'',
                                  segment_ids = [''s7'']\<rparr>]\<rparr>,
          calls = [GET ''http://api/segments'', GET ''http://api/audiences'',
                   POST ''http://api/audiences'' (AudienceBody ''tok'' [''s7'']),
                   POST ''http://api/audiences/a0/query'' (RawBody ''g'')]\<rparr>)"
    by (simp add: query_audience_def test_simps start_def re_search_eval)
  ultimately show ?thesis by blast
qed

text \<open>
  C7 (amended). Line 134 formats \<open>unique_id\<close> into the pattern as it is. For a
  \<open>unique_id\<close> without metacharacters of the regular expression language, as every token
  of \<open>get_unique_id\<close> is, \<open>query_audience\<close> selects from the listing the segments whose
  name contains \<open>unique_id\<close>, an underscore and a run of decimal digits that may be empty,
  up to the end of the name or to a newline that ends it: every name that ends with
  \<open>unique_id\<close>, an underscore and at least one digit is selected, and the name \<open>unique_id\<close>
  itself never is. For any \<open>unique_id\<close>: an exception of the search leaves
  \<open>query_audience\<close> after the listing read; when no segment is selected,
  \<open>query_audience\<close> raises NoSegmentsFoundException after the listing read, so without
  creating an audience; when an audience has to be created, it is created from the ids
  of the selected segments, in the order of the listing.
\<close>

theorem query_audience_selection:
  assumes "get_authentication env = Inr creds" and "creds_url creds = Inr u"
    and "remote env (GET (u @ ''/segments'')) (world s) = (r, w_seg)"
    and "json_segments r = Some entries"
  shows "is_literal (get_unique_id env user_ids)
    \<and> (is_literal unique_id \<longrightarrow>
          (\<forall>name. re_search env unique_id name
             = Inr (\<exists>p d. list_all is_digit d
                      \<and> (name = p @ unique_id @ ''_'' @ d
                          \<or> name = p @ unique_id @ ''_'' @ d @ [CHR 0x0A])))
        \<and> (\<forall>name. spec_name_match unique_id name
             \<longrightarrow> re_search env unique_id name = Inr True)
        \<and> re_search env unique_id unique_id = Inr False
        \<and> segment_loop env unique_id entries []
            = Inr (map seg_id
                (filter (\<lambda>e. re_search env unique_id (seg_name e) = Inr True) entries)))
    \<and> (segment_loop env unique_id entries [] = Inl e
        \<longrightarrow> query_audience env unique_id groupings s
            = (Inl e, \<lparr>world = w_seg, calls = calls s @ [GET (u @ ''/segments'')]\<rparr>))
    \<and> (segment_loop env unique_id entries [] = Inr []
        \<longrightarrow> query_audience env unique_id groupings s
            = (Inl (AudienceApiException NoSegmentsFoundException
                      (no_segments_message unique_id)),
               \<lparr>world = w_seg, calls = calls s @ [GET (u @ ''/segments'')]\<rparr>))
    \<and> (segment_loop env unique_id entries [] = Inr ids \<and> ids \<noteq> []
          \<and> remote env (GET (u @ ''/audiences'')) w_seg = (ar, w_aud)
          \<and> json_audiences ar = Some auds \<and> unique_id \<notin> aud_name ` set auds
        \<longrightarrow> (\<exists>rest. calls (snd (query_audience env unique_id groupings s))
              = calls s @ [GET (u @ ''/segments''), GET (u @ ''/audiences''),
                  POST (u @ ''/audiences'') (AudienceBody unique_id ids)]
                @ rest))"
proof (intro conjI allI impI)
  show "is_literal (get_unique_id env user_ids)" by (rule get_unique_id_literal)
next
  fix name
  assume "is_literal unique_id"
  then show "re_search env unique_id name
             = Inr (\<exists>p d. list_all is_digit d
                      \<and> (name = p @ unique_id @ ''_'' @ d
                          \<or> name = p @ unique_id @ ''_'' @ d @ [CHR 0x0A]))"
    by (simp only: re_search_literal literal_search_iff)
next
  fix name assume "is_literal unique_id" "spec_name_match unique_id name"
  then show "re_search env unique_id name = Inr True"
    by (simp add: re_search_literal spec_match_literal_search)
next
  assume "is_literal unique_id"
  then show "re_search env unique_id unique_id = Inr False"
    by (simp add: re_search_literal literal_search_self)
next
  assume "is_literal unique_id"
  then show "segment_loop env unique_id entries []
            = Inr (map seg_id
                (filter (\<lambda>e. re_search env unique_id (seg_name e) = Inr True) entries))"
    by (simp add: segment_loop_literal re_search_literal)
next
  assume "segment_loop env unique_id entries [] = Inl e"
  with assms show "query_audience env unique_id groupings s
            = (Inl e, \<lparr>world = w_seg, calls = calls s @ [GET (u @ ''/segments'')]\<rparr>)"
    by (rule query_audience_search_raises)
next
  assume "segment_loop env unique_id entries [] = Inr []"
  with assms show "query_audience env unique_id groupings s
            = (Inl (AudienceApiException NoSegmentsFoundException
                      (no_segments_message unique_id)),
               \<lparr>world = w_seg, calls = calls s @ [GET (u @ ''/segments'')]\<rparr>)"
    by (rule query_audience_no_segments)
next
  assume a: "segment_loop env unique_id entries [] = Inr ids \<and> ids \<noteq> []
          \<and> remote env (GET (u @ ''/audiences'')) w_seg = (ar, w_aud)
          \<and> json_audiences ar = Some auds \<and> unique_id \<notin> aud_name ` set auds"
  then have some: "segment_loop env unique_id entries [] = Inr ids" "ids \<noteq> []"
    by blast+
  from a have absent: "find_audience_id unique_id auds None = None"
    by (simp add: find_audience_id_None)
  from a have au: "remote env (GET (u @ ''/audiences'')) w_seg = (ar, w_aud)"
    "json_audiences ar = Some auds" by blast+
  show "\<exists>rest. calls (snd (query_audience env unique_id groupings s))
              = calls s @ [GET (u @ ''/segments''), GET (u @ ''/audiences''),
                  POST (u @ ''/audiences'') (AudienceBody unique_id ids)]
                @ rest"
    by (rule query_audience_creates[OF assms some au absent])
qed

theorem query_audience_selection_witness:
  "get_authentication (test_env never) = Inr test_creds \<and> creds_url test_creds = Inr test_url
    \<and> is_literal ''tok'' \<and> is_literal (get_unique_id (test_env never) [IntId 1])
    \<and> re_search (test_env never) ''tok'' ''tok'' = Inr False
    \<and> re_search (test_env never) ''tok'' ''tok_x'' = Inr False
    \<and> re_search (test_env never) ''tok'' ''tok_0'' = Inr True
    \<and> re_search (test_env never) ''tok'' ''tok_12'' = Inr True
    \<and> query_audience (test_env never) ''tok'' ''g''
        (start \<lparr>segments = [\<lparr>seg_id = ''s0'', seg_name = ''tok'', num_user_ids = 1\<rparr>],
                 audiences = []\<rparr>)
      = (Inl (AudienceApiException NoSegmentsFoundException
                ''no segments found with base name tok''),
         \<lparr>world = \<lparr>segments = [\<lparr>seg_id = ''s0'', seg_name = ''tok'', num_user_ids = 1\<rparr>],
                    audiences = []\<rparr>,
          calls = [GET ''http://api/segments'']\<rparr>)
    \<and> (\<exists>rest. calls (snd (query_audience (test_env never) ''tok'' ''g''
        (start \<lparr>segments = [\<lparr>seg_id = ''s0'', seg_name = ''tok'', num_user_ids = 1\<rparr>,
                              \<lparr>seg_id = ''s1'', seg_name = ''tok_0'', num_user_ids = 1\<rparr>,
                              \<lparr>seg_id = ''s2'', seg_name = ''tok_12'', num_user_ids = 1\<rparr>,
                              \<lparr>seg_id = ''s3'', seg_name = ''tok_x'', num_user_ids = 1\<rparr>],
                 audiences = []\<rparr>)))
      = [GET ''http://api/segments'', GET ''http://api/audiences'',
         POST ''http://api/audiences'' (AudienceBody ''tok'' [''s1'', ''s2''])] @ rest)"
proof -
  let ?env = "test_env never"
  let ?wa = "\<lparr>segments = [\<lparr>seg_id = ''s0'', seg_name = ''tok'', num_user_ids = 1\<rparr>],
               audiences = []\<rparr>"
  let ?wb = "\<lparr>segments = [\<lparr>seg_id = ''s0'', seg_name = ''tok'', num_user_ids = 1\<rparr>,
                            \<lparr>seg_id = ''s1'', seg_name = ''tok_0'', num_user_ids = 1\<rparr>,
                            \<lparr>seg_id = ''s2'', seg_name = ''tok_12'', num_user_ids = 1\<rparr>,
                            \<lparr>seg_id = ''s3'', seg_name = ''tok_x'', num_user_ids = 1\<rparr>],
               audiences = []\<rparr>"
  have lit: "is_literal ''tok''" by (simp add: is_literal_def metachars_def)
  have ev: "re_search ?env ''tok'' ''tok'' = Inr False"
    "re_search ?env ''tok'' ''tok_x'' = Inr False"
    "re_search ?env ''tok'' ''tok_0'' = Inr True"
    "re_search ?env ''tok'' ''tok_12'' = Inr True"
    by (simp_all add: re_search_eval)
  have ja: "json_segments (ok_response\<lparr>json_segments := Some (segments w)\<rparr>) = Some (segments w)"
    for w :: test_world by simp
  have la: "remote ?env (GET (test_url @ ''/segments'')) (world (start w))
      = (ok_response\<lparr>json_segments := Some (segments w)\<rparr>, w)" for w
    by (simp add: test_query_env start_def)
  have none: "segment_loop ?env ''tok'' (segments ?wa) [] = Inr []"
    by (simp add: ev)
  note sel = query_audience_selection[OF test_auth[of never] test_url_creds la[of ?wa] ja[of ?wa],
        where unique_id = "''tok''" and groupings = "''g''" and user_ids = "[IntId 1]"]
  from sel have tok: "is_literal (get_unique_id ?env [IntId 1])" by (rule conjunct1)
  have A: "query_audience ?env ''tok'' ''g'' (start ?wa)
      = (Inl (AudienceApiException NoSegmentsFoundException
                ''no segments found with base name tok''),
         \<lparr>world = ?wa, calls = [GET ''http://api/segments'']\<rparr>)"
    using sel none
    by (simp add: no_segments_message_def test_url_def start_def)
  have some: "segment_loop ?env ''tok'' (segments ?wb) [] = Inr [''s1'', ''s2'']"
    "[''s1'', ''s2''] \<noteq> ([] :: string list)"
    by (simp_all add: ev)
  have au: "remote ?env (GET (test_url @ ''/audiences'')) ?wb
      = (ok_response\<lparr>json_audiences := Some []\<rparr>, ?wb)"
    "json_audiences (ok_response\<lparr>json_audiences := Some []\<rparr>) = Some []"
    "''tok'' \<notin> aud_name ` set []"
    by (simp_all add: test_query_env)
  note create = query_audience_selection[OF test_auth[of never] test_url_creds
      la[of ?wb] ja[of ?wb], where unique_id = "''tok''" and groupings = "''g''"
        and ar = "ok_response\<lparr>json_audiences := Some []\<rparr>" and w_aud = ?wb and auds = "[]"
        and ids = "[''s1'', ''s2'']",
      THEN conjunct2, THEN conjunct2, THEN conjunct2, THEN conjunct2, rule_format]
  have "\<exists>rest. calls (snd (query_audience ?env ''tok'' ''g'' (start ?wb)))
      = calls (start ?wb) @ [GET (test_url @ ''/segments''), GET (test_url @ ''/audiences''),
          POST (test_url @ ''/audiences'') (AudienceBody ''tok'' [''s1'', ''s2''])]
        @ rest"
    by (rule create) (intro conjI some au)
  then have B: "\<exists>rest. calls (snd (query_audience ?env ''tok'' ''g'' (start ?wb)))
      = [GET ''http://api/segments'', GET ''http://api/audiences'',
         POST ''http://api/audiences'' (AudienceBody ''tok'' [''s1'', ''s2''])] @ rest"
    by (simp add: test_url_def start_def)
  from lit tok ev A B test_auth[of never] test_url_creds show ?thesis by blast
qed

section \<open>C8: several entries of the searched name\<close>

text \<open>
  C8, as the code has it. Neither scan has a \<^verbatim>\<open>break\<close>: every entry of the searched name
  assigns its id, so the last one stays. With the audiences \<open>a0\<close> and \<open>a1\<close> of the same
  name, the query goes to \<open>a1\<close>.
\<close>

theorem first_match_counterexample:
  "find_segment_id ''tok_0''
      [\<lparr>seg_id = ''s0'', seg_name = ''tok_0'', num_user_ids = 1\<rparr>,
       \<lparr>seg_id = ''s1'', seg_name = ''tok_0'', num_user_ids = 1\<rparr>] None = Some ''s1''
    \<and> query_audience (test_env never) ''tok'' ''g''
        (start \<lparr>segments = [\<lparr>seg_id = ''s0'', seg_name = ''tok_0'', num_user_ids = 1\<rparr>],
                 audiences = [\<lparr>aud_id = ''a0'', aud_name = ''tok'', segment_ids = [''s0'']\<rparr>,
                              \<lparr>aud_id = ''a1'', aud_name = ''tok'', segment_ids = [''s0'']\<rparr>]\<rparr>)
      = (Inr ''results'',
         \<lparr>world = \<lparr>segments = [\<lparr>seg_id = ''s0'', seg_name = ''tok_0'', num_user_ids = 1\<rparr>],
                 audiences = [\<lparr>aud_id = ''a0'', aud_name = ''tok'', segment_ids = [''s0'']\<rparr>,
                              \<lparr>aud_id = ''a1'', aud_name = ''tok'', segment_ids = [''s0'']\<rparr>]\<rparr>,
          calls = [GET ''http://api/segments'', GET ''http://api/audiences'',
                   POST ''http://api/audiences/a1/query'' (RawBody ''g'')]\<rparr>)"
  by (simp add: query_audience_def test_simps start_def re_search_eval)

text \<open>
  C8 (amended). When several segments or several audiences of the listing have the
  searched name, the scans of \<open>add_segment\<close> and \<open>query_audience\<close> end with the id of the
  last of them in the order of the listing, and \<open>query_audience\<close>, once its search of the
  segments has selected at least one, sends its query to the audience of that id.
\<close>

theorem scans_keep_last_match:
  assumes "get_authentication env = Inr creds" and "creds_url creds = Inr u"
    and "remote env (GET (u @ ''/segments'')) (world s) = (r, w_seg)"
    and "json_segments r = Some entries"
    and "segment_loop env unique_id entries [] = Inr ids" and "ids \<noteq> []"
    and "remote env (GET (u @ ''/audiences'')) w_seg = (ar, w_aud)"
    and "json_audiences ar = Some auds"
  shows "find_segment_id name segs None
      = (case filter (\<lambda>e. seg_name e = name) segs of
           [] \<Rightarrow> None | m # ms \<Rightarrow> Some (seg_id (last (m # ms))))
    \<and> find_audience_id unique_id auds None
      = (case filter (\<lambda>a. aud_name a = unique_id) auds of
           [] \<Rightarrow> None | m # ms \<Rightarrow> Some (aud_id (last (m # ms))))
    \<and> (filter (\<lambda>a. aud_name a = unique_id) auds = m # ms
        \<longrightarrow> calls (snd (query_audience env unique_id groupings s))
            = calls s @ [GET (u @ ''/segments''), GET (u @ ''/audiences''),
                POST (u @ ''/audiences/'' @ aud_id (last (m # ms)) @ ''/query'')
                  (RawBody groupings)])"
proof (intro conjI impI)
  show "find_segment_id name segs None
      = (case filter (\<lambda>e. seg_name e = name) segs of
           [] \<Rightarrow> None | m # ms \<Rightarrow> Some (seg_id (last (m # ms))))"
    by (rule find_segment_id_filter)
next
  show "find_audience_id unique_id auds None
      = (case filter (\<lambda>a. aud_name a = unique_id) auds of
           [] \<Rightarrow> None | m # ms \<Rightarrow> Some (aud_id (last (m # ms))))"
    by (rule find_audience_id_filter)
next
  assume f: "filter (\<lambda>a. aud_name a = unique_id) auds = m # ms"
  have found: "find_audience_id unique_id auds None = Some (aud_id (last (m # ms)))"
    unfolding find_audience_id_filter f by simp
  show "calls (snd (query_audience env unique_id groupings s))
            = calls s @ [GET (u @ ''/segments''), GET (u @ ''/audiences''),
                POST (u @ ''/audiences/'' @ aud_id (last (m # ms)) @ ''/query'')
                  (RawBody groupings)]"
    by (rule query_audience_found[OF assms(1,2,3,4,5,6,7,8) found])
qed

theorem scans_keep_last_match_witness:
  "get_authentication (test_env never) = Inr test_creds \<and> creds_url test_creds = Inr test_url
    \<and> segment_loop (test_env never) ''tok''
        [\<lparr>seg_id = ''s0'', seg_name = ''tok_0'', num_user_ids = 1\<rparr>] [] = Inr [''s0'']
    \<and> find_audience_id ''tok''
        [\<lparr>aud_id = ''a0'', aud_name = ''tok'', segment_ids = [''s0'']\<rparr>,
         \<lparr>aud_id = ''a1'', aud_name = ''tok'', segment_ids = [''s0'']\<rparr>] None = Some ''a1''
    \<and> calls (snd (query_audience (test_env never) ''tok'' ''g''
        (start \<lparr>segments = [\<lparr>seg_id = ''s0'', seg_name = ''tok_0'', num_user_ids = 1\<rparr>],
                 audiences = [\<lparr>aud_id = ''a0'', aud_name = ''tok'', segment_ids = [''s0'']\<rparr>,
                              \<lparr>aud_id = ''a1'', aud_name = ''tok'', segment_ids = [''s0'']\<rparr>]\<rparr>)))
      = [GET ''http://api/segments'', GET ''http://api/audiences'',
         POST ''http://api/audiences/a1/query'' (RawBody ''g'')]"
proof -
  let ?env = "test_env never"
  let ?a0 = "\<lparr>aud_id = ''a0'', aud_name = ''tok'', segment_ids = [''s0'']\<rparr>"
  let ?a1 = "\<lparr>aud_id = ''a1'', aud_name = ''tok'', segment_ids = [''s0'']\<rparr>"
  let ?w = "\<lparr>segments = [\<lparr>seg_id = ''s0'', seg_name = ''tok_0'', num_user_ids = 1\<rparr>],
              audiences = [?a0, ?a1]\<rparr>"
  have ev: "segment_loop ?env ''tok''
        [\<lparr>seg_id = ''s0'', seg_name = ''tok_0'', num_user_ids = 1\<rparr>] [] = Inr [''s0'']"
    by (simp add: re_search_eval)
  have la: "remote ?env (GET (test_url @ ''/segments'')) (world (start ?w))
      = (ok_response\<lparr>json_segments := Some (segments ?w)\<rparr>, ?w)"
    by (simp add: test_query_env start_def)
  have ja: "json_segments (ok_response\<lparr>json_segments := Some (segments ?w)\<rparr>)
      = Some (segments ?w)" by simp
  have some: "segment_loop ?env ''tok'' (segments ?w) [] = Inr [''s0'']"
    using ev by simp
  have ne: "[''s0''] \<noteq> ([] :: string list)" by simp
  have au: "remote ?env (GET (test_url @ ''/audiences'')) ?w
      = (ok_response\<lparr>json_audiences := Some [?a0, ?a1]\<rparr>, ?w)"
    by (simp add: test_query_env)
  have jau: "json_audiences (ok_response\<lparr>json_audiences := Some [?a0, ?a1]\<rparr>) = Some [?a0, ?a1]"
    by simp
  have f: "filter (\<lambda>a. aud_name a = ''tok'') [?a0, ?a1] = ?a0 # [?a1]" by simp
  note last_match = scans_keep_last_match[OF test_auth[of never] test_url_creds la ja some ne
      au jau, where m = ?a0 and ms = "[?a1]" and groupings = "''g''"]
  from last_match f have "find_audience_id ''tok'' [?a0, ?a1] None = Some ''a1''"
    by simp
  moreover from last_match f
  have "calls (snd (query_audience ?env ''tok'' ''g'' (start ?w)))
      = [GET ''http://api/segments'', GET ''http://api/audiences'',
         POST ''http://api/audiences/a1/query'' (RawBody ''g'')]"
    by (simp add: test_url_def start_def)
  ultimately show ?thesis using ev test_auth[of never] test_url_creds by blast
qed

section \<open>C9 and C10: the boundary of query\_users\<close>

lemma query_users_never_raises_api:
  "fst (query_users env user_ids groupings s) \<noteq> Inl (AudienceApiException kind v)"
  by (auto simp: query_users_def Let_def split: prod.splits sum.splits exn.splits)

lemma query_users_query_audience_raises:
  assumes "add_users env ids (get_unique_id env ids) 100000 3000000 s = (Inr x, s1)"
    and "query_audience env (get_unique_id env ids) g s1 = (Inl (AudienceApiException kind v), s')"
  shows "query_users env ids g s = (Inr (ErrorDict (py_repr env v)), s')"
  using assms by (simp add: query_users_def)

lemma query_users_other_raises:
  assumes "add_users env ids (get_unique_id env ids) 100000 3000000 s = (Inl e, s')"
    and "\<forall>kind v. e \<noteq> AudienceApiException kind v"
  shows "query_users env ids g s = (Inl e, s')"
  using assms by (cases e) (simp_all add: query_users_def)

lemma add_segment_auth_raises:
  "get_authentication env = Inl e \<Longrightarrow> add_segment env ids name mus s = (Inl e, s)"
  by (simp add: add_segment_def)

lemma query_audience_auth_raises:
  "get_authentication env = Inl e \<Longrightarrow> query_audience env uid g s = (Inl e, s)"
  by (simp add: query_audience_def)

lemma run_calls_raises:
  assumes "run_calls env before mus s = (Inr x, s1)"
    and "add_segment env c name mus s1 = (Inl e, s')"
  shows "run_calls env (before @ (c, name) # rest) mus s = (Inl e, s')"
  using assms
proof (induction before arbitrary: s x)
  case Nil
  then show ?case by simp
next
  case (Cons pc before)
  obtain c0 n0 where pc: "pc = (c0, n0)" by (cases pc)
  obtain res s0 where first: "add_segment env c0 n0 mus s = (res, s0)" by fastforce
  from Cons.prems(1) pc first obtain y where y: "res = Inr y"
    by (cases res) auto
  with Cons.prems(1) pc first have "run_calls env before mus s0 = (Inr x, s1)" by simp
  from Cons.IH[OF this Cons.prems(2)] pc first y show ?case by simp
qed

lemma add_users_empty:
  "add_users env [] unique_id max_upload_size max_segment_size s = (Inl ZeroDivisionError, s)"
  by (simp add: add_users_def list_set_def py_ceil_div_def)

text \<open>
  C9. \<open>query_users\<close> never lets an exception of the taxonomy out: when \<open>add_users\<close> or
  \<open>query_audience\<close> raises one with the value \<open>v\<close>, it returns the dictionary with the
  message \<open>repr(v)\<close>. Below it nothing is caught: an exception of \<open>get_authentication\<close>
  leaves \<open>add_segment\<close> and \<open>query_audience\<close> as it is, an exception of \<open>add_segment\<close>
  ends the loop of \<open>add_users\<close> and leaves it as it is, and so a missing credentials file
  reaches \<open>query_users\<close> as CredentialsException and becomes the error dictionary there.
\<close>

theorem query_users_boundary:
  "(\<forall>kind v. fst (query_users env user_ids groupings s) \<noteq> Inl (AudienceApiException kind v))
    \<and> (add_users env user_ids (get_unique_id env user_ids) 100000 3000000 s
          = (Inl (AudienceApiException kind v), s')
        \<longrightarrow> query_users env user_ids groupings s = (Inr (ErrorDict (py_repr env v)), s'))
    \<and> (add_users env user_ids (get_unique_id env user_ids) 100000 3000000 s = (Inr x, s1)
          \<and> query_audience env (get_unique_id env user_ids) groupings s1
              = (Inl (AudienceApiException kind v), s')
        \<longrightarrow> query_users env user_ids groupings s = (Inr (ErrorDict (py_repr env v)), s'))
    \<and> (get_authentication env = Inl e
        \<longrightarrow> add_segment env ids name max_upload_size s = (Inl e, s)
          \<and> query_audience env unique_id groupings s = (Inl e, s))
    \<and> (run_calls env before max_upload_size s = (Inr x, s1)
          \<and> add_segment env ids name max_upload_size s1 = (Inl e, s')
        \<longrightarrow> run_calls env (before @ (ids, name) # rest) max_upload_size s = (Inl e, s'))
    \<and> (user_ids \<noteq> []
          \<and> get_authentication env = Inl (AudienceApiException CredentialsException v)
        \<longrightarrow> query_users env user_ids groupings s = (Inr (ErrorDict (py_repr env v)), s))"
proof (intro conjI allI impI)
  fix kind v
  show "fst (query_users env user_ids groupings s) \<noteq> Inl (AudienceApiException kind v)"
    by (rule query_users_never_raises_api)
next
  assume "add_users env user_ids (get_unique_id env user_ids) 100000 3000000 s
          = (Inl (AudienceApiException kind v), s')"
  then show "query_users env user_ids groupings s = (Inr (ErrorDict (py_repr env v)), s')"
    by (rule query_users_add_users_raises)
next
  assume "add_users env user_ids (get_unique_id env user_ids) 100000 3000000 s = (Inr x, s1)
          \<and> query_audience env (get_unique_id env user_ids) groupings s1
              = (Inl (AudienceApiException kind v), s')"
  then show "query_users env user_ids groupings s = (Inr (ErrorDict (py_repr env v)), s')"
    using query_users_query_audience_raises by blast
next
  assume "get_authentication env = Inl e"
  then show "add_segment env ids name max_upload_size s = (Inl e, s)"
    by (rule add_segment_auth_raises)
next
  assume "get_authentication env = Inl e"
  then show "query_audience env unique_id groupings s = (Inl e, s)"
    by (rule query_audience_auth_raises)
next
  assume "run_calls env before max_upload_size s = (Inr x, s1)
          \<and> add_segment env ids name max_upload_size s1 = (Inl e, s')"
  then show "run_calls env (before @ (ids, name) # rest) max_upload_size s = (Inl e, s')"
    using run_calls_raises by blast
next
  assume a: "user_ids \<noteq> []
          \<and> get_authentication env = Inl (AudienceApiException CredentialsException v)"
  then have "add_segment env c (get_unique_id env user_ids @ ''_0'') 100000 s
      = (Inl (AudienceApiException CredentialsException v), s)" for c
    by (simp add: add_segment_auth_raises)
  then have "add_users env user_ids (get_unique_id env user_ids) 100000 3000000 s
      = (Inl (AudienceApiException CredentialsException v), s)"
    by (intro add_users_first_raises) (use a in simp_all)
  then show "query_users env user_ids groupings s = (Inr (ErrorDict (py_repr env v)), s)"
    by (rule query_users_add_users_raises)
qed

lemma py_ceil_div_eval: "b \<noteq> 0 \<Longrightarrow> py_ceil_div a b = Inr (- ((- a) div b))"
  by (simp add: py_ceil_div_def ceiling_divide_eq_div)

theorem query_users_boundary_witness:
  "[IntId 1] \<noteq> []
    \<and> get_authentication no_creds_env
        = Inl (AudienceApiException CredentialsException creds_missing)
    \<and> query_users no_creds_env [IntId 1] ''g'' (start empty_world)
        = (Inr (ErrorDict (''u'' @ [CHR 0x27] @ creds_missing @ [CHR 0x27])), start empty_world)
    \<and> query_users (test_env creation_request) [IntId 1] ''g'' (start empty_world)
        = (Inr (ErrorDict (''u'' @ [CHR 0x27] @ ''Internal Server Error'' @ [CHR 0x27])),
           \<lparr>world = empty_world,
            calls = [GET ''http://api/segments'',
                     POST ''http://api/segments'' (NameBody ''10a_0'')]\<rparr>)
    \<and> query_users (test_env query_request) [IntId 1] ''g'' (start empty_world)
        = (Inr (ErrorDict (''u'' @ [CHR 0x27] @ ''Internal Server Error'' @ [CHR 0x27])),
           \<lparr>world = \<lparr>segments = [\<lparr>seg_id = ''s0'', seg_name = ''10a_0'', num_user_ids = 0\<rparr>],
                      audiences = [\<lparr>aud_id = ''a0'', aud_name = ''10a'',
                                    segment_ids = [''s0'']\<rparr>]\<rparr>,
            calls = [GET ''http://api/segments'',
                     POST ''http://api/segments'' (NameBody ''10a_0''),
                     POST ''http://api/segments/s0/ids'' (UserIdsBody [''1'']),
                     GET ''http://api/segments'', GET ''http://api/audiences'',
                     POST ''http://api/audiences'' (AudienceBody ''10a'' [''s0'']),
                     POST ''http://api/audiences/a0/query'' (RawBody ''g'')]\<rparr>)"
proof -
  let ?w = "\<lparr>segments = [\<lparr>seg_id = ''s0'', seg_name = ''10a_0'', num_user_ids = 0\<rparr>],
              audiences = []\<rparr>"
  let ?s1 = "\<lparr>world = ?w,
        calls = [GET ''http://api/segments'',
                 POST ''http://api/segments'' (NameBody ''10a_0''),
                 POST ''http://api/segments/s0/ids'' (UserIdsBody [''1''])]\<rparr>"
  have ne: "[IntId 1] \<noteq> []" by simp
  have auth: "get_authentication no_creds_env
      = Inl (AudienceApiException CredentialsException creds_missing)"
    by (simp add: get_authentication_def no_creds_env_def test_env_def)
  have repr: "py_repr no_creds_env v = ''u'' @ [CHR 0x27] @ v @ [CHR 0x27]" for v
    by (simp add: no_creds_env_def test_env_def)
  have tok: "get_unique_id no_creds_env [IntId 1] = ''10a''"
    using token_1[of never]
    by (simp add: get_unique_id_def hash_number_def no_creds_env_def test_env_def)
  have A: "query_users no_creds_env [IntId 1] ''g'' (start empty_world)
        = (Inr (ErrorDict (''u'' @ [CHR 0x27] @ creds_missing @ [CHR 0x27])), start empty_world)"
    using query_users_boundary[where env = no_creds_env and user_ids = "[IntId 1]"
        and v = creds_missing and groupings = "''g''" and s = "start empty_world"] ne auth
    by (simp add: repr)
  have b: "add_users (test_env creation_request) [IntId 1] ''10a'' 100000 3000000
        (start empty_world)
      = (Inl (AudienceApiException SegmentCreateException ''Internal Server Error''),
         \<lparr>world = empty_world,
          calls = [GET ''http://api/segments'',
                   POST ''http://api/segments'' (NameBody ''10a_0'')]\<rparr>)"
    by (simp add: add_users_def py_ceil_div_eval enumerate_eq_zip
        upt_rec test_simps start_def empty_world_def)
  have B: "query_users (test_env creation_request) [IntId 1] ''g'' (start empty_world)
        = (Inr (ErrorDict (''u'' @ [CHR 0x27] @ ''Internal Server Error'' @ [CHR 0x27])),
           \<lparr>world = empty_world,
            calls = [GET ''http://api/segments'',
                     POST ''http://api/segments'' (NameBody ''10a_0'')]\<rparr>)"
    using query_users_boundary[where env = "test_env creation_request"
        and user_ids = "[IntId 1]" and groupings = "''g''" and s = "start empty_world"
        and kind = SegmentCreateException and v = "''Internal Server Error''"] b
    by (simp add: token_1 test_repr)
  have c1: "add_users (test_env query_request) [IntId 1] ''10a'' 100000 3000000
        (start empty_world) = (Inr PyNone, ?s1)"
    by (simp add: add_users_def py_ceil_div_eval enumerate_eq_zip
        upt_rec test_simps start_def empty_world_def)
  have c2: "query_audience (test_env query_request) ''10a'' ''g'' ?s1
      = (Inl (AudienceApiException AudienceInfoException ''Internal Server Error''),
         \<lparr>world = \<lparr>segments = [\<lparr>seg_id = ''s0'', seg_name = ''10a_0'', num_user_ids = 0\<rparr>],
                    audiences = [\<lparr>aud_id = ''a0'', aud_name = ''10a'',
                                  segment_ids = [''s0'']\<rparr>]\<rparr>,
          calls = [GET ''http://api/segments'',
                   POST ''http://api/segments'' (NameBody ''10a_0''),
                   POST ''http://api/segments/s0/ids'' (UserIdsBody [''1'']),
                   GET ''http://api/segments'', GET ''http://api/audiences'',
                   POST ''http://api/audiences'' (AudienceBody ''10a'' [''s0'']),
                   POST ''http://api/audiences/a0/query'' (RawBody ''g'')]\<rparr>)"
    by (simp add: query_audience_def test_simps re_search_eval)
  have C: "query_users (test_env query_request) [IntId 1] ''g'' (start empty_world)
        = (Inr (ErrorDict (''u'' @ [CHR 0x27] @ ''Internal Server Error'' @ [CHR 0x27])),
           \<lparr>world = \<lparr>segments = [\<lparr>seg_id = ''s0'', seg_name = ''10a_0'', num_user_ids = 0\<rparr>],
                      audiences = [\<lparr>aud_id = ''a0'', aud_name = ''10a'',
                                    segment_ids = [''s0'']\<rparr>]\<rparr>,
            calls = [GET ''http://api/segments'',
                     POST ''http://api/segments'' (NameBody ''10a_0''),
                     POST ''http://api/segments/s0/ids'' (UserIdsBody [''1'']),
                     GET ''http://api/segments'', GET ''http://api/audiences'',
                     POST ''http://api/audiences'' (AudienceBody ''10a'' [''s0'']),
                     POST ''http://api/audiences/a0/query'' (RawBody ''g'')]\<rparr>)"
    using query_users_boundary[where env = "test_env query_request"
        and user_ids = "[IntId 1]" and groupings = "''g''" and s = "start empty_world"
        and kind = AudienceInfoException and v = "''Internal Server Error''"
        and x = PyNone] c1 c2
    by (simp add: token_1 test_repr)
  from ne auth A B C show ?thesis by blast
qed

text \<open>
  C10. For the empty collection of identifiers the segment count of \<open>add_users\<close> is 0 and
  the division by it raises ZeroDivisionError, whatever the sizes; no request has been
  sent. ZeroDivisionError is not in the taxonomy, and \<open>query_users\<close> lets it out instead
  of returning an error dictionary.
\<close>

theorem empty_ids_zero_division:
  "py_ceil_div (int (length (list_set env []))) 3000000 = Inr 0
    \<and> py_ceil_div (int (length (list_set env []))) 0 = Inl ZeroDivisionError
    \<and> add_users env [] unique_id max_upload_size max_segment_size s = (Inl ZeroDivisionError, s)
    \<and> query_users env [] groupings s = (Inl ZeroDivisionError, s)
    \<and> (\<forall>kind v. ZeroDivisionError \<noteq> AudienceApiException kind v)
    \<and> (\<forall>msg. fst (query_users env [] groupings s) \<noteq> Inr (ErrorDict msg))"
proof -
  have e: "query_users env [] groupings s = (Inl ZeroDivisionError, s)"
    by (rule query_users_other_raises) (simp_all add: add_users_empty)
  then show ?thesis
    by (simp add: add_users_empty list_set_def py_ceil_div_def)
qed

end
